theory Spec2Isabelle
  imports Main "HOL-Library.Word" "HOL-Library.Multiset" "HOL-Library.Product_Lexorder"
begin

unbundle bit_operations_syntax

section \<open>Shared data model\<close>

text \<open>
  Raw xattr blobs are byte strings.  Python integers are unbounded (\<open>int\<close>); the C
  side reads them with \<open>PyLong_AsLong\<close>, which raises \<open>OverflowError\<close> outside
  the range of a 64-bit \<open>long\<close>, and then casts to the fixed-width wire types.
\<close>

type_synonym byte = "8 word"
type_synonym u16 = "16 word"
type_synonym u32 = "32 word"
type_synonym u64 = "64 word"

datatype py_error =
    TypeError string
  | ValueError string
  | OverflowError
  | RuntimeError string
  | OSError nat
  | OSErrorText string
  | NotADirectoryError string
  | IteratorRestoreError nat string
  | CallbackError
  | Interrupted

definition PyLong_AsLong :: "int \<Rightarrow> py_error + int" where
  "PyLong_AsLong v = (if - (2 ^ 63) \<le> v \<and> v < 2 ^ 63 then Inr v else Inl OverflowError)"

definition long_ok :: "int \<Rightarrow> bool" where
  "long_ok v = (- (2 ^ 63) \<le> v \<and> v < 2 ^ 63)"

text \<open>The six rich-comparison operators of CPython.\<close>

datatype cmp_op = Py_LT | Py_LE | Py_EQ | Py_NE | Py_GT | Py_GE

definition cmp_result :: "cmp_op \<Rightarrow> int \<Rightarrow> bool" where
  "cmp_result op c = (case op of
      Py_LT \<Rightarrow> c < 0 | Py_LE \<Rightarrow> c \<le> 0 | Py_EQ \<Rightarrow> c = 0
    | Py_NE \<Rightarrow> c \<noteq> 0 | Py_GT \<Rightarrow> c > 0 | Py_GE \<Rightarrow> c \<ge> 0)"

text \<open>
  \<open>PyList_Sort\<close> is CPython's stable list sort; it only ever asks \<open>x < y\<close>
  (\<open>Py_LT\<close>) and fails as soon as a comparison raises.  It is modelled as the stable
  insertion sort driven by the same \<open>Py_LT\<close> calls: an element is placed in front of
  the first element that is not smaller than it.
\<close>

fun insort_lt :: "('a \<Rightarrow> 'a \<Rightarrow> cmp_op \<Rightarrow> py_error + bool) \<Rightarrow> 'a \<Rightarrow> 'a list \<Rightarrow> py_error + 'a list" where
  "insort_lt cmp x [] = Inr [x]"
| "insort_lt cmp x (y # ys) =
     (case cmp y x Py_LT of
        Inl e \<Rightarrow> Inl e
      | Inr True \<Rightarrow> (case insort_lt cmp x ys of Inl e \<Rightarrow> Inl e | Inr zs \<Rightarrow> Inr (y # zs))
      | Inr False \<Rightarrow> Inr (x # y # ys))"

fun PyList_Sort :: "('a \<Rightarrow> 'a \<Rightarrow> cmp_op \<Rightarrow> py_error + bool) \<Rightarrow> 'a list \<Rightarrow> py_error + 'a list" where
  "PyList_Sort cmp [] = Inr []"
| "PyList_Sort cmp (x # xs) =
     (case PyList_Sort cmp xs of Inl e \<Rightarrow> Inl e | Inr ys \<Rightarrow> insort_lt cmp x ys)"

subsection \<open>Big-endian and little-endian words in memory\<close>

definition htobe32 :: "u32 \<Rightarrow> byte list" where
  "htobe32 w = [ucast (drop_bit 24 w), ucast (drop_bit 16 w), ucast (drop_bit 8 w), ucast w]"

definition be32toh :: "byte list \<Rightarrow> u32" where
  "be32toh bs = push_bit 24 (ucast (bs ! 0)) OR push_bit 16 (ucast (bs ! 1))
                OR push_bit 8 (ucast (bs ! 2)) OR ucast (bs ! 3)"

text \<open>\<open>p[i]\<close> for a \<open>const uint32_t *p\<close> into the blob: the big-endian word at byte \<open>4 * i\<close>.\<close>

definition be32_at :: "byte list \<Rightarrow> nat \<Rightarrow> u32" where
  "be32_at bs i = be32toh (take 4 (drop (4 * i) bs))"

definition read_le32 :: "byte list \<Rightarrow> u32" where
  "read_le32 bs = ucast (bs ! 0) OR push_bit 8 (ucast (bs ! 1))
                  OR push_bit 16 (ucast (bs ! 2)) OR push_bit 24 (ucast (bs ! 3))"

definition write_le32 :: "u32 \<Rightarrow> byte list" where
  "write_le32 v = [ucast v, ucast (drop_bit 8 v), ucast (drop_bit 16 v), ucast (drop_bit 24 v)]"

definition read_le16 :: "byte list \<Rightarrow> u16" where
  "read_le16 bs = ucast (bs ! 0) OR push_bit 8 (ucast (bs ! 1))"

definition write_le16 :: "u16 \<Rightarrow> byte list" where
  "write_le16 v = [ucast v, ucast (drop_bit 8 v)]"

text \<open>A loop that converts every element and stops at the first exception.\<close>

fun map_err :: "('a \<Rightarrow> py_error + 'b) \<Rightarrow> 'a list \<Rightarrow> py_error + 'b list" where
  "map_err f [] = Inr []"
| "map_err f (x # xs) =
     (case f x of
        Inl e \<Rightarrow> Inl e
      | Inr y \<Rightarrow> (case map_err f xs of Inl e \<Rightarrow> Inl e | Inr ys \<Rightarrow> Inr (y # ys)))"

text \<open>
  Calling an \<open>IntEnum\<close> class on a value that is not a member raises
  \<open>ValueError\<close>; an \<open>IntFlag\<close> class keeps every non-negative integer.
\<close>

definition IntEnum_call :: "int list \<Rightarrow> int \<Rightarrow> py_error + int" where
  "IntEnum_call members v =
     (if v \<in> set members then Inr v else Inl (ValueError ''not a valid enum member''))"

definition IntFlag_call :: "int \<Rightarrow> py_error + int" where
  "IntFlag_call v = Inr v"

text \<open>The result of \<open>fstat(fd, &st)\<close>: an errno, or the \<open>st_mode\<close> of the file.\<close>

datatype fstat_result = Fstat_errno nat | Fstat_mode u32

definition S_ISDIR :: "u32 \<Rightarrow> bool" where
  "S_ISDIR m = (m AND 0xF000 = 0x4000)"

section \<open>NFSv4 ACL codec (nfs4acl.c)\<close>

definition NFS4_HDR_SZ :: nat where "NFS4_HDR_SZ = 8"
definition NFS4_ACE_SZ :: nat where "NFS4_ACE_SZ = 20"
definition NFS4_HDR_WORDS :: nat where "NFS4_HDR_WORDS = 2"
definition NFS4_ACE_WORDS :: nat where "NFS4_ACE_WORDS = 5"

definition NFS4_ACL_WHO_NAMED :: int where "NFS4_ACL_WHO_NAMED = 0"
definition NFS4_ACE_ACCESS_ALLOWED_ACE_TYPE :: int where "NFS4_ACE_ACCESS_ALLOWED_ACE_TYPE = 0"
definition NFS4_ACE_ACCESS_DENIED_ACE_TYPE :: int where "NFS4_ACE_ACCESS_DENIED_ACE_TYPE = 1"

definition NFS4_ACE_FILE_INHERIT_ACE :: u32 where "NFS4_ACE_FILE_INHERIT_ACE = 0x1"
definition NFS4_ACE_DIRECTORY_INHERIT_ACE :: u32 where "NFS4_ACE_DIRECTORY_INHERIT_ACE = 0x2"
definition NFS4_ACE_NO_PROPAGATE_INHERIT_ACE :: u32 where "NFS4_ACE_NO_PROPAGATE_INHERIT_ACE = 0x4"
definition NFS4_ACE_INHERIT_ONLY_ACE :: u32 where "NFS4_ACE_INHERIT_ONLY_ACE = 0x8"
definition NFS4_ACE_INHERITED_ACE :: u32 where "NFS4_ACE_INHERITED_ACE = 0x80"

definition NFS4_ACE_INHERIT_MASK :: u32 where
  "NFS4_ACE_INHERIT_MASK = (NFS4_ACE_FILE_INHERIT_ACE OR NFS4_ACE_DIRECTORY_INHERIT_ACE
      OR NFS4_ACE_NO_PROPAGATE_INHERIT_ACE OR NFS4_ACE_INHERIT_ONLY_ACE)"

definition NFS4_ACL_IS_TRIVIAL :: u32 where "NFS4_ACL_IS_TRIVIAL = 0x10000"
definition NFS4_ACL_IS_DIR :: u32 where "NFS4_ACL_IS_DIR = 0x20000"

text \<open>\<open>NFS4Ace_t\<close>: five Python integers (enum members are integers).\<close>

record NFS4Ace =
  ace_type :: int
  ace_flags :: int
  access_mask :: int
  who_type :: int
  who_id :: int

text \<open>The sort key computed inline by \<open>NFS4Ace_richcompare\<close> (\<open>key_a\<close>, \<open>key_b\<close>).\<close>

definition nfs4_key :: "int \<Rightarrow> int \<Rightarrow> int" where
  "nfs4_key type_v flags_v =
     (if flags_v AND 0x80 \<noteq> 0 then 1 else 0) * 2
     + (if type_v = NFS4_ACE_ACCESS_ALLOWED_ACE_TYPE then 1 else 0)"

definition NFS4Ace_key :: "NFS4Ace \<Rightarrow> int" where
  "NFS4Ace_key a = nfs4_key (ace_type a) (ace_flags a)"

definition NFS4Ace_richcompare :: "NFS4Ace \<Rightarrow> NFS4Ace \<Rightarrow> cmp_op \<Rightarrow> py_error + bool" where
  "NFS4Ace_richcompare a b op =
     (case PyLong_AsLong (ace_type a) of Inl e \<Rightarrow> Inl e | Inr type_a \<Rightarrow>
      case PyLong_AsLong (ace_flags a) of Inl e \<Rightarrow> Inl e | Inr flags_a \<Rightarrow>
      case PyLong_AsLong (ace_type b) of Inl e \<Rightarrow> Inl e | Inr type_b \<Rightarrow>
      case PyLong_AsLong (ace_flags b) of Inl e \<Rightarrow> Inl e | Inr flags_b \<Rightarrow>
        let key_a = nfs4_key type_a flags_a;
            key_b = nfs4_key type_b flags_b;
            c = (if key_a < key_b then - 1 else if key_a > key_b then 1 else 0)
        in Inr (cmp_result op c))"

text \<open>\<open>nfs4ace_write_raw\<close>: one 20-byte XDR slot.\<close>

definition nfs4ace_write_raw :: "u32 \<Rightarrow> u32 \<Rightarrow> u32 \<Rightarrow> u32 \<Rightarrow> u32 \<Rightarrow> byte list" where
  "nfs4ace_write_raw t f iflag m who =
     htobe32 t @ htobe32 f @ htobe32 iflag @ htobe32 m @ htobe32 who"

text \<open>\<open>nfs4ace_encode\<close>: the C casts \<open>(uint32_t)v\<close> keep the low 32 bits.\<close>

definition nfs4ace_encode :: "NFS4Ace \<Rightarrow> py_error + byte list" where
  "nfs4ace_encode a =
     (case PyLong_AsLong (ace_type a) of Inl e \<Rightarrow> Inl e | Inr ace_type_v \<Rightarrow>
      case PyLong_AsLong (ace_flags a) of Inl e \<Rightarrow> Inl e | Inr ace_flags_v \<Rightarrow>
      case PyLong_AsLong (access_mask a) of Inl e \<Rightarrow> Inl e | Inr access_mask_v \<Rightarrow>
      case PyLong_AsLong (who_type a) of Inl e \<Rightarrow> Inl e | Inr who_type_v \<Rightarrow>
      case PyLong_AsLong (who_id a) of Inl e \<Rightarrow> Inl e | Inr who_id_v \<Rightarrow>
        let iflag = (if who_type_v = NFS4_ACL_WHO_NAMED then 0 else 1);
            who = (if who_type_v = NFS4_ACL_WHO_NAMED then word_of_int who_id_v
                   else word_of_int who_type_v)
        in Inr (nfs4ace_write_raw (word_of_int ace_type_v) (word_of_int ace_flags_v)
                  iflag (word_of_int access_mask_v) who))"

text \<open>
  \<open>NFS4ACL.from_aces(aces, acl_flags)\<close>: sort (\<open>nfs4acl_alloc_ace_buf\<close>), read the
  optional flags, write the header and the ACE slots in sorted order.  The result is the
  blob held by the new \<open>NFS4ACL\<close> object.
\<close>

definition NFS4ACL_from_aces :: "NFS4Ace list \<Rightarrow> int option \<Rightarrow> py_error + byte list" where
  "NFS4ACL_from_aces aces_arg acl_flags_obj =
     (case PyList_Sort NFS4Ace_richcompare aces_arg of Inl e \<Rightarrow> Inl e | Inr aces_seq \<Rightarrow>
      case (case acl_flags_obj of None \<Rightarrow> Inr 0 | Some v \<Rightarrow> PyLong_AsLong v) of
        Inl e \<Rightarrow> Inl e | Inr v \<Rightarrow>
      case map_err nfs4ace_encode aces_seq of Inl e \<Rightarrow> Inl e | Inr slots \<Rightarrow>
        Inr (htobe32 (word_of_int v) @ htobe32 (word_of_nat (length aces_seq)) @ concat slots))"

text \<open>
  One XDR ACE slot as the decoders read it: the five big-endian words at word offset
  \<open>NFS4_HDR_WORDS + i * NFS4_ACE_WORDS\<close>.
\<close>

record nfs4_xdr_ace =
  x_type :: u32
  x_flags :: u32
  x_iflag :: u32
  x_mask :: u32
  x_who :: u32

definition nfs4_slot :: "byte list \<Rightarrow> nat \<Rightarrow> nfs4_xdr_ace" where
  "nfs4_slot data i =
     (let w = NFS4_HDR_WORDS + i * NFS4_ACE_WORDS in
      \<lparr>x_type = be32_at data w, x_flags = be32_at data (w + 1), x_iflag = be32_at data (w + 2),
       x_mask = be32_at data (w + 3), x_who = be32_at data (w + 4)\<rparr>)"

text \<open>\<open>nfs4ace_decode\<close>: one slot to an \<open>NFS4Ace\<close> object.\<close>

definition nfs4ace_decode :: "nfs4_xdr_ace \<Rightarrow> py_error + NFS4Ace" where
  "nfs4ace_decode x =
     (let who_type_v = (if x_iflag x \<noteq> 0 then uint (x_who x) else NFS4_ACL_WHO_NAMED);
          who_id_v = (if x_iflag x \<noteq> 0 then - 1 else uint (x_who x))
      in case IntEnum_call [0, 1, 2, 3] (uint (x_type x)) of Inl e \<Rightarrow> Inl e | Inr ace_type_o \<Rightarrow>
         case IntFlag_call (uint (x_flags x)) of Inl e \<Rightarrow> Inl e | Inr ace_flags_o \<Rightarrow>
         case IntFlag_call (uint (x_mask x)) of Inl e \<Rightarrow> Inl e | Inr access_mask_o \<Rightarrow>
         case IntEnum_call [0, 1, 2, 3] who_type_v of Inl e \<Rightarrow> Inl e | Inr who_type_o \<Rightarrow>
           Inr \<lparr>ace_type = ace_type_o, ace_flags = ace_flags_o, access_mask = access_mask_o,
                who_type = who_type_o, who_id = who_id_v\<rparr>)"

text \<open>The \<open>NFS4ACL.aces\<close> property.\<close>

definition NFS4ACL_get_aces :: "byte list \<Rightarrow> py_error + NFS4Ace list" where
  "NFS4ACL_get_aces data =
     (if length data < NFS4_HDR_SZ then Inl (ValueError ''NFS4ACL data too short'')
      else let naces = unat (be32_at data 1) in
        if NFS4_HDR_SZ + naces * NFS4_ACE_SZ > length data
        then Inl (ValueError ''NFS4ACL data truncated'')
        else map_err (\<lambda>i. nfs4ace_decode (nfs4_slot data i)) [0..<naces])"

text \<open>The \<open>NFS4ACL.acl_flags\<close> property (an \<open>IntFlag\<close> value).\<close>

definition NFS4ACL_get_acl_flags :: "byte list \<Rightarrow> py_error + u32" where
  "NFS4ACL_get_acl_flags data =
     (if length data < NFS4_HDR_SZ then Inl (ValueError ''NFS4ACL data too short'')
      else Inr (be32_at data 0))"

subsection \<open>Inheritance synthesis\<close>

definition ace_is_inheritable :: "u32 \<Rightarrow> bool \<Rightarrow> bool" where
  "ace_is_inheritable flags is_dir =
     (if is_dir
      then flags AND (NFS4_ACE_FILE_INHERIT_ACE OR NFS4_ACE_DIRECTORY_INHERIT_ACE) \<noteq> 0
      else flags AND NFS4_ACE_FILE_INHERIT_ACE \<noteq> 0)"

text \<open>The \<open>new_flags\<close> computed in the second pass for an ACE that is inherited.\<close>

definition inherit_new_flags :: "u32 \<Rightarrow> bool \<Rightarrow> u32" where
  "inherit_new_flags flags is_dir =
     (if is_dir \<and> flags AND NFS4_ACE_NO_PROPAGATE_INHERIT_ACE = 0
      then (flags AND NOT NFS4_ACE_INHERIT_ONLY_ACE) OR NFS4_ACE_INHERITED_ACE
      else (flags AND NOT NFS4_ACE_INHERIT_MASK) OR NFS4_ACE_INHERITED_ACE)"

text \<open>
  The two passes of \<open>NFS4ACL_generate_inherited_acl\<close> walk \<open>i = 0 ..< naces_in\<close>
  and leave the loop (\<open>break\<close>) at the first slot that does not fit in the blob.
\<close>

fun inherit_count :: "byte list \<Rightarrow> bool \<Rightarrow> nat list \<Rightarrow> nat" where
  "inherit_count data is_dir [] = 0"
| "inherit_count data is_dir (i # rest) =
     (if NFS4_HDR_SZ + (i + 1) * NFS4_ACE_SZ > length data then 0
      else (if ace_is_inheritable (x_flags (nfs4_slot data i)) is_dir then 1 else 0)
           + inherit_count data is_dir rest)"

fun inherit_write :: "byte list \<Rightarrow> bool \<Rightarrow> nat list \<Rightarrow> byte list" where
  "inherit_write data is_dir [] = []"
| "inherit_write data is_dir (i # rest) =
     (if NFS4_HDR_SZ + (i + 1) * NFS4_ACE_SZ > length data then []
      else let a = nfs4_slot data i in
        if \<not> ace_is_inheritable (x_flags a) is_dir then inherit_write data is_dir rest
        else
          nfs4ace_write_raw (x_type a) (inherit_new_flags (x_flags a) is_dir)
            (x_iflag a) (x_mask a) (x_who a)
          @ inherit_write data is_dir rest)"

definition NFS4ACL_generate_inherited_acl :: "byte list \<Rightarrow> bool \<Rightarrow> py_error + byte list" where
  "NFS4ACL_generate_inherited_acl data is_dir =
     (if length data < NFS4_HDR_SZ
      then Inl (ValueError ''cannot generate inherited ACL: source ACL is empty'')
      else
        let naces_in = unat (be32_at data 1);
            naces_out = inherit_count data is_dir [0..<naces_in]
        in if naces_out = 0
           then Inl (ValueError ''parent ACL has no inheritable ACEs for this object type'')
           else
             let out_acl_flags = (if is_dir then NFS4_ACL_IS_DIR else 0)
             in Inr (htobe32 out_acl_flags @ htobe32 (word_of_nat naces_out)
                     @ inherit_write data is_dir [0..<naces_in]))"

subsection \<open>Validation\<close>

definition NFS4_PROPAGATE_MASK :: u32 where
  "NFS4_PROPAGATE_MASK = (NFS4_ACE_FILE_INHERIT_ACE OR NFS4_ACE_DIRECTORY_INHERIT_ACE
      OR NFS4_ACE_NO_PROPAGATE_INHERIT_ACE OR NFS4_ACE_INHERIT_ONLY_ACE)"

definition NFS4_IFLAG_SPECIAL :: u32 where "NFS4_IFLAG_SPECIAL = 1"

text \<open>
  The ACE loop of \<open>nfs4acl_valid\<close>: it returns the pair
  \<open>(has_propagate, has_inheritable)\<close> or raises at the first offending ACE.
\<close>

fun nfs4_valid_loop :: "byte list \<Rightarrow> nat list \<Rightarrow> bool \<times> bool \<Rightarrow> py_error + bool \<times> bool" where
  "nfs4_valid_loop data [] acc = Inr acc"
| "nfs4_valid_loop data (i # rest) (has_propagate, has_inheritable) =
     (if NFS4_HDR_SZ + (i + 1) * NFS4_ACE_SZ > length data then Inr (has_propagate, has_inheritable)
      else let a = nfs4_slot data i in
        if uint (x_type a) = NFS4_ACE_ACCESS_DENIED_ACE_TYPE \<and> x_iflag a = NFS4_IFLAG_SPECIAL
        then Inl (ValueError ''DENY entries are not permitted for special principals (OWNER@, GROUP@, EVERYONE@)'')
        else if x_flags a AND NFS4_ACE_INHERIT_ONLY_ACE \<noteq> 0 \<and>
                x_flags a AND (NFS4_ACE_FILE_INHERIT_ACE OR NFS4_ACE_DIRECTORY_INHERIT_ACE) = 0
        then Inl (ValueError ''INHERIT_ONLY requires FILE_INHERIT or DIRECTORY_INHERIT to also be set'')
        else nfs4_valid_loop data rest
               (has_propagate \<or> x_flags a AND NFS4_PROPAGATE_MASK \<noteq> 0,
                has_inheritable \<or>
                  x_flags a AND (NFS4_ACE_FILE_INHERIT_ACE OR NFS4_ACE_DIRECTORY_INHERIT_ACE) \<noteq> 0))"

text \<open>
  \<open>nfs4acl_valid(fd, data, len)\<close>; \<open>st\<close> is what \<open>fstat(fd)\<close> answers when it is
  called.  \<open>Inr ()\<close> is the C return value 0, \<open>Inl e\<close> is \<open>-1\<close> with \<open>e\<close> raised.
\<close>

definition nfs4acl_valid :: "int \<Rightarrow> fstat_result \<Rightarrow> byte list \<Rightarrow> py_error + unit" where
  "nfs4acl_valid fd st data =
     (if length data < NFS4_HDR_SZ then Inr ()
      else
        let naces = unat (be32_at data 1) in
        case nfs4_valid_loop data [0..<naces] (False, False) of
          Inl e \<Rightarrow> Inl e
        | Inr (has_propagate, has_inheritable) \<Rightarrow>
            (case (if fd = - 1 then Inr True
                   else (case st of Fstat_errno e \<Rightarrow> Inl (OSError e)
                                  | Fstat_mode m \<Rightarrow> Inr (S_ISDIR m))) of
               Inl e \<Rightarrow> Inl e
             | Inr is_dir \<Rightarrow>
                 if has_propagate \<and> \<not> is_dir
                 then Inl (ValueError ''FILE_INHERIT/DIRECTORY_INHERIT/NO_PROPAGATE_INHERIT/INHERIT_ONLY flags are only valid on directories'')
                 else if is_dir \<and> \<not> has_inheritable
                 then Inl (ValueError ''directory ACL must contain at least one ACE with FILE_INHERIT or DIRECTORY_INHERIT'')
                 else Inr ()))"

text \<open>Every field of the ACE is inside the range of a C \<open>long\<close>.\<close>

definition nfs4ace_long_ok :: "NFS4Ace \<Rightarrow> bool" where
  "nfs4ace_long_ok a = (long_ok (ace_type a) \<and> long_ok (ace_flags a) \<and> long_ok (access_mask a)
      \<and> long_ok (who_type a) \<and> long_ok (who_id a))"

text \<open>The four ACEs of the canonical-order scenario.\<close>

definition ex_allow :: NFS4Ace where
  "ex_allow = \<lparr>ace_type = 0, ace_flags = 0, access_mask = 1, who_type = 1, who_id = - 1\<rparr>"

definition ex_deny_inh :: NFS4Ace where
  "ex_deny_inh = \<lparr>ace_type = 1, ace_flags = 0x80, access_mask = 2, who_type = 0, who_id = 1000\<rparr>"

definition ex_deny :: NFS4Ace where
  "ex_deny = \<lparr>ace_type = 1, ace_flags = 0, access_mask = 2, who_type = 0, who_id = 1001\<rparr>"

definition ex_allow_inh :: NFS4Ace where
  "ex_allow_inh = \<lparr>ace_type = 0, ace_flags = 0x80, access_mask = 1, who_type = 3, who_id = - 1\<rparr>"

text \<open>
  The slot that \<open>nfs4ace_encode\<close> hands to \<open>nfs4ace_write_raw\<close> once the five
  conversions have succeeded.
\<close>

definition nfs4ace_xdr :: "NFS4Ace \<Rightarrow> nfs4_xdr_ace" where
  "nfs4ace_xdr a =
     \<lparr>x_type = word_of_int (ace_type a), x_flags = word_of_int (ace_flags a),
      x_iflag = (if who_type a = NFS4_ACL_WHO_NAMED then 0 else 1),
      x_mask = word_of_int (access_mask a),
      x_who = (if who_type a = NFS4_ACL_WHO_NAMED then word_of_int (who_id a)
               else word_of_int (who_type a))\<rparr>"

text \<open>
  An ACE that the XDR slot holds without loss: a known type, flags and mask inside
  32 bits, and either a named principal with a 32-bit id or a special principal with
  id \<open>-1\<close>.
\<close>

definition nfs4ace_wire_ok :: "NFS4Ace \<Rightarrow> bool" where
  "nfs4ace_wire_ok a =
     (ace_type a \<in> {0, 1, 2, 3}
      \<and> 0 \<le> ace_flags a \<and> ace_flags a < 2 ^ 32
      \<and> 0 \<le> access_mask a \<and> access_mask a < 2 ^ 32
      \<and> (if who_type a = NFS4_ACL_WHO_NAMED then 0 \<le> who_id a \<and> who_id a < 2 ^ 32
          else who_type a \<in> {1, 2, 3} \<and> who_id a = - 1))"

text \<open>
  The ACEs of a blob, as every reader of the format in this file walks them: slot
  \<open>i\<close> counts when \<open>i\<close> is below the header's \<open>naces\<close> and the slot lies inside
  the blob.  A blob shorter than the header has none.
\<close>

definition nfs4_raw_aces :: "byte list \<Rightarrow> nfs4_xdr_ace list" where
  "nfs4_raw_aces data =
     (if length data < NFS4_HDR_SZ then []
      else map (nfs4_slot data)
             [0..<min (unat (be32_at data 1)) ((length data - NFS4_HDR_SZ) div NFS4_ACE_SZ)])"

definition nfs4_xdr_bytes :: "nfs4_xdr_ace \<Rightarrow> byte list" where
  "nfs4_xdr_bytes a = nfs4ace_write_raw (x_type a) (x_flags a) (x_iflag a) (x_mask a) (x_who a)"

text \<open>Scenario blobs for the inheritance rules: one parent ACE each.\<close>

definition ex_parent_dir :: "byte list" where
  "ex_parent_dir = htobe32 0 @ htobe32 1 @ nfs4ace_write_raw 0 0xB 1 0x1 1"

definition ex_parent_noprop :: "byte list" where
  "ex_parent_noprop = htobe32 0 @ htobe32 1 @ nfs4ace_write_raw 0 0x5 1 0x1 1"

text \<open>
  The conditions of the validity rules in the specification's words, over the ACEs of a
  blob.  \<open>target_is_dir\<close>: an absent fd (\<open>-1\<close>) counts as a directory.
\<close>

definition target_is_dir :: "int \<Rightarrow> fstat_result \<Rightarrow> bool" where
  "target_is_dir fd st = (fd = - 1 \<or> (case st of Fstat_mode m \<Rightarrow> S_ISDIR m | Fstat_errno e \<Rightarrow> False))"

definition nfs4_deny_special :: "nfs4_xdr_ace \<Rightarrow> bool" where
  "nfs4_deny_special a = (x_type a = 1 \<and> x_iflag a = 1)"

definition nfs4_inherit_only_alone :: "nfs4_xdr_ace \<Rightarrow> bool" where
  "nfs4_inherit_only_alone a =
     (x_flags a AND NFS4_ACE_INHERIT_ONLY_ACE \<noteq> 0
      \<and> x_flags a AND NFS4_ACE_FILE_INHERIT_ACE = 0
      \<and> x_flags a AND NFS4_ACE_DIRECTORY_INHERIT_ACE = 0)"

definition nfs4_has_propagation_bit :: "nfs4_xdr_ace \<Rightarrow> bool" where
  "nfs4_has_propagation_bit a =
     (x_flags a AND NFS4_ACE_FILE_INHERIT_ACE \<noteq> 0
      \<or> x_flags a AND NFS4_ACE_DIRECTORY_INHERIT_ACE \<noteq> 0
      \<or> x_flags a AND NFS4_ACE_NO_PROPAGATE_INHERIT_ACE \<noteq> 0
      \<or> x_flags a AND NFS4_ACE_INHERIT_ONLY_ACE \<noteq> 0)"

definition nfs4_has_inherit_bit :: "nfs4_xdr_ace \<Rightarrow> bool" where
  "nfs4_has_inherit_bit a =
     (x_flags a AND NFS4_ACE_FILE_INHERIT_ACE \<noteq> 0
      \<or> x_flags a AND NFS4_ACE_DIRECTORY_INHERIT_ACE \<noteq> 0)"

definition nfs4_spec_invalid :: "bool \<Rightarrow> nfs4_xdr_ace list \<Rightarrow> bool" where
  "nfs4_spec_invalid is_dir aces =
     (list_ex nfs4_deny_special aces
      \<or> list_ex nfs4_inherit_only_alone aces
      \<or> (list_ex nfs4_has_propagation_bit aces \<and> \<not> is_dir)
      \<or> (is_dir \<and> \<not> list_ex nfs4_has_inherit_bit aces))"

text \<open>A blob with one DENY ACE for the special principal \<open>OWNER@\<close>.\<close>

definition ex_deny_owner :: "byte list" where
  "ex_deny_owner = htobe32 0 @ htobe32 1 @ nfs4ace_write_raw 1 0x1 1 0x1 1"

section \<open>POSIX.1e ACL codec (posixacl.c)\<close>

definition POSIX_HDR_SZ :: nat where "POSIX_HDR_SZ = 4"
definition POSIX_ACE_SZ :: nat where "POSIX_ACE_SZ = 8"
definition POSIX_ACL_VERSION :: u32 where "POSIX_ACL_VERSION = 2"
definition POSIX_SPECIAL_ID :: u32 where "POSIX_SPECIAL_ID = 0xFFFFFFFF"

definition POSIX_TAG_USER_OBJ :: int where "POSIX_TAG_USER_OBJ = 0x0001"
definition POSIX_TAG_USER :: int where "POSIX_TAG_USER = 0x0002"
definition POSIX_TAG_GROUP_OBJ :: int where "POSIX_TAG_GROUP_OBJ = 0x0004"
definition POSIX_TAG_GROUP :: int where "POSIX_TAG_GROUP = 0x0008"
definition POSIX_TAG_MASK :: int where "POSIX_TAG_MASK = 0x0010"
definition POSIX_TAG_OTHER :: int where "POSIX_TAG_OTHER = 0x0020"

text \<open>The members of the \<open>POSIXTag\<close> enumeration (\<open>posix_tag_table\<close>).\<close>

definition posix_tag_table :: "int list" where
  "posix_tag_table = [0x0001, 0x0002, 0x0004, 0x0008, 0x0010, 0x0020]"

definition is_special_tag :: "int \<Rightarrow> bool" where
  "is_special_tag t = (t = POSIX_TAG_USER_OBJ \<or> t = POSIX_TAG_GROUP_OBJ
                       \<or> t = POSIX_TAG_MASK \<or> t = POSIX_TAG_OTHER)"

text \<open>
  \<open>POSIXAce_t\<close>: the fields \<open>tag\<close>, \<open>perms\<close>, \<open>id\<close> (Python integers) and
  \<open>default\<close> (its truth value).
\<close>

record POSIXAce =
  tag :: int
  perms :: int
  ace_id :: int
  ace_default :: bool

definition POSIXAce_richcompare :: "POSIXAce \<Rightarrow> POSIXAce \<Rightarrow> cmp_op \<Rightarrow> py_error + bool" where
  "POSIXAce_richcompare a b op =
     (case PyLong_AsLong (tag a) of Inl e \<Rightarrow> Inl e | Inr tag_a \<Rightarrow>
      case PyLong_AsLong (tag b) of Inl e \<Rightarrow> Inl e | Inr tag_b \<Rightarrow>
      case PyLong_AsLong (ace_id a) of Inl e \<Rightarrow> Inl e | Inr id_a \<Rightarrow>
      case PyLong_AsLong (ace_id b) of Inl e \<Rightarrow> Inl e | Inr id_b \<Rightarrow>
        let c = (if tag_a \<noteq> tag_b then (if tag_a < tag_b then - 1 else 1)
                 else if id_a \<noteq> id_b then (if id_a < id_b then - 1 else 1)
                 else 0)
        in Inr (cmp_result op c))"

text \<open>The \<open>POSIXACL\<close> object: the access blob and the optional default blob.\<close>

record POSIXACL =
  access_data :: "byte list"
  default_data :: "byte list option"

text \<open>One 8-byte record written by the loop body of \<open>encode_posix_aces\<close>.\<close>

definition encode_posix_ace :: "POSIXAce \<Rightarrow> py_error + byte list" where
  "encode_posix_ace a =
     (case PyLong_AsLong (tag a) of Inl e \<Rightarrow> Inl e | Inr tag_v \<Rightarrow>
      case PyLong_AsLong (perms a) of Inl e \<Rightarrow> Inl e | Inr perm_v \<Rightarrow>
      case PyLong_AsLong (ace_id a) of Inl e \<Rightarrow> Inl e | Inr id_v \<Rightarrow>
        let xid = (if is_special_tag tag_v then POSIX_SPECIAL_ID else word_of_int id_v)
        in Inr (write_le16 (word_of_int tag_v) @ write_le16 (word_of_int perm_v) @ write_le32 xid))"

definition encode_posix_aces :: "POSIXAce list \<Rightarrow> py_error + byte list" where
  "encode_posix_aces ace_seq =
     (case map_err encode_posix_ace ace_seq of
        Inl e \<Rightarrow> Inl e
      | Inr recs \<Rightarrow> Inr (write_le32 POSIX_ACL_VERSION @ concat recs))"

text \<open>\<open>POSIXACL.from_aces(aces)\<close>.\<close>

definition POSIXACL_from_aces :: "POSIXAce list \<Rightarrow> py_error + POSIXACL" where
  "POSIXACL_from_aces aces_arg =
     (let access_list = filter (\<lambda>a. \<not> ace_default a) aces_arg;
          default_list = filter (\<lambda>a. ace_default a) aces_arg
      in case PyList_Sort POSIXAce_richcompare access_list of Inl e \<Rightarrow> Inl e | Inr access_seq \<Rightarrow>
         case PyList_Sort POSIXAce_richcompare default_list of Inl e \<Rightarrow> Inl e | Inr default_seq \<Rightarrow>
         case encode_posix_aces access_seq of Inl e \<Rightarrow> Inl e | Inr access_bytes \<Rightarrow>
           if length default_seq > 0
           then (case encode_posix_aces default_seq of
                   Inl e \<Rightarrow> Inl e
                 | Inr default_bytes \<Rightarrow>
                     Inr \<lparr>access_data = access_bytes, default_data = Some default_bytes\<rparr>)
           else Inr \<lparr>access_data = access_bytes, default_data = None\<rparr>)"

text \<open>One wire record at byte offset \<open>POSIX_HDR_SZ + i * POSIX_ACE_SZ\<close>.\<close>

record posix_xattr_ace =
  e_tag :: u16
  e_perm :: u16
  e_id :: u32

definition posix_slot :: "byte list \<Rightarrow> nat \<Rightarrow> posix_xattr_ace" where
  "posix_slot buf i =
     (let p = drop (POSIX_HDR_SZ + i * POSIX_ACE_SZ) buf in
      \<lparr>e_tag = read_le16 p, e_perm = read_le16 (drop 2 p), e_id = read_le32 (drop 4 p)\<rparr>)"

text \<open>The loop body of \<open>parse_posix_aces\<close>.\<close>

definition parse_posix_ace :: "bool \<Rightarrow> posix_xattr_ace \<Rightarrow> py_error + POSIXAce" where
  "parse_posix_ace is_default r =
     (let id_v = (if e_id r = POSIX_SPECIAL_ID then - 1 else uint (e_id r))
      in case IntEnum_call posix_tag_table (uint (e_tag r)) of Inl e \<Rightarrow> Inl e | Inr tag_o \<Rightarrow>
         case IntFlag_call (uint (e_perm r)) of Inl e \<Rightarrow> Inl e | Inr perm_o \<Rightarrow>
           Inr \<lparr>tag = tag_o, perms = perm_o, ace_id = id_v, ace_default = is_default\<rparr>)"

definition parse_posix_aces :: "byte list \<Rightarrow> bool \<Rightarrow> py_error + POSIXAce list" where
  "parse_posix_aces buf is_default =
     (if length buf = 0 then Inr []
      else if length buf < POSIX_HDR_SZ then Inl (ValueError ''POSIXACL data too short'')
      else let naces = (length buf - POSIX_HDR_SZ) div POSIX_ACE_SZ
           in map_err (\<lambda>i. parse_posix_ace is_default (posix_slot buf i)) [0..<naces])"

text \<open>The \<open>aces\<close> and \<open>default_aces\<close> properties.\<close>

definition POSIXACL_get_aces :: "POSIXACL \<Rightarrow> py_error + POSIXAce list" where
  "POSIXACL_get_aces self = parse_posix_aces (access_data self) False"

definition POSIXACL_get_default_aces :: "POSIXACL \<Rightarrow> py_error + POSIXAce list" where
  "POSIXACL_get_default_aces self =
     (case default_data self of None \<Rightarrow> Inr [] | Some d \<Rightarrow> parse_posix_aces d True)"

subsection \<open>Validation\<close>

record posix_counts =
  n_user_obj :: nat
  n_group_obj :: nat
  n_other :: nat
  n_mask :: nat
  n_named :: nat

text \<open>The \<open>switch\<close> of \<open>validate_posix_blob\<close> over one record.\<close>

definition validate_posix_entry :: "string \<Rightarrow> posix_xattr_ace \<Rightarrow> posix_counts \<Rightarrow> py_error + posix_counts" where
  "validate_posix_entry label r c =
     (if uint (e_tag r) = POSIX_TAG_USER_OBJ then Inr (c\<lparr>n_user_obj := n_user_obj c + 1\<rparr>)
      else if uint (e_tag r) = POSIX_TAG_USER then
        (if e_id r = POSIX_SPECIAL_ID
         then Inl (ValueError (label @ '' ACL: named USER entry has no uid''))
         else Inr (c\<lparr>n_named := n_named c + 1\<rparr>))
      else if uint (e_tag r) = POSIX_TAG_GROUP_OBJ then Inr (c\<lparr>n_group_obj := n_group_obj c + 1\<rparr>)
      else if uint (e_tag r) = POSIX_TAG_GROUP then
        (if e_id r = POSIX_SPECIAL_ID
         then Inl (ValueError (label @ '' ACL: named GROUP entry has no gid''))
         else Inr (c\<lparr>n_named := n_named c + 1\<rparr>))
      else if uint (e_tag r) = POSIX_TAG_MASK then Inr (c\<lparr>n_mask := n_mask c + 1\<rparr>)
      else if uint (e_tag r) = POSIX_TAG_OTHER then Inr (c\<lparr>n_other := n_other c + 1\<rparr>)
      else Inl (ValueError (label @ '' ACL: unknown tag'')))"

fun validate_posix_loop :: "string \<Rightarrow> posix_xattr_ace list \<Rightarrow> posix_counts \<Rightarrow> py_error + posix_counts" where
  "validate_posix_loop label [] c = Inr c"
| "validate_posix_loop label (r # rs) c =
     (case validate_posix_entry label r c of
        Inl e \<Rightarrow> Inl e
      | Inr c' \<Rightarrow> validate_posix_loop label rs c')"

definition validate_posix_blob :: "byte list \<Rightarrow> string \<Rightarrow> py_error + unit" where
  "validate_posix_blob data label =
     (if length data < POSIX_HDR_SZ then Inl (ValueError (label @ '' ACL too short''))
      else if read_le32 data \<noteq> POSIX_ACL_VERSION
      then Inl (ValueError (label @ '' ACL has unexpected version''))
      else
        let naces = (length data - POSIX_HDR_SZ) div POSIX_ACE_SZ in
        case validate_posix_loop label (map (posix_slot data) [0..<naces])
               \<lparr>n_user_obj = 0, n_group_obj = 0, n_other = 0, n_mask = 0, n_named = 0\<rparr> of
          Inl e \<Rightarrow> Inl e
        | Inr c \<Rightarrow>
            if n_user_obj c \<noteq> 1
            then Inl (ValueError (label @ '' ACL must have exactly one USER_OBJ entry''))
            else if n_group_obj c \<noteq> 1
            then Inl (ValueError (label @ '' ACL must have exactly one GROUP_OBJ entry''))
            else if n_other c \<noteq> 1
            then Inl (ValueError (label @ '' ACL must have exactly one OTHER entry''))
            else if n_named c > 0 \<and> n_mask c \<noteq> 1
            then Inl (ValueError (label @ '' ACL must have exactly one MASK entry when named USER or GROUP entries are present''))
            else if n_mask c > 1
            then Inl (ValueError (label @ '' ACL has more than one MASK entry''))
            else Inr ())"

text \<open>
  \<open>posixacl_valid\<close>: \<open>default_data = None\<close> is the C \<open>NULL\<close>; \<open>st\<close> is what
  \<open>fstat(fd)\<close> answers when it is called.
\<close>

definition posixacl_valid :: "int \<Rightarrow> fstat_result \<Rightarrow> byte list \<Rightarrow> byte list option \<Rightarrow> py_error + unit" where
  "posixacl_valid fd st access_blob default_blob =
     (case validate_posix_blob access_blob ''access'' of
        Inl e \<Rightarrow> Inl e
      | Inr u \<Rightarrow>
          (case default_blob of
             None \<Rightarrow> Inr ()
           | Some d \<Rightarrow>
               (case st of
                  Fstat_errno e \<Rightarrow> Inl (OSError e)
                | Fstat_mode m \<Rightarrow>
                    if \<not> S_ISDIR m
                    then Inl (ValueError ''default ACL is only valid on directories'')
                    else validate_posix_blob d ''default'')))"

text \<open>The entries of a blob as the validator and the parser walk them.\<close>

definition posix_entries :: "byte list \<Rightarrow> posix_xattr_ace list" where
  "posix_entries data = map (posix_slot data) [0..<(length data - POSIX_HDR_SZ) div POSIX_ACE_SZ]"

definition count_tag :: "int \<Rightarrow> posix_xattr_ace list \<Rightarrow> nat" where
  "count_tag t es = length (filter (\<lambda>e. uint (e_tag e) = t) es)"

definition is_named_entry :: "posix_xattr_ace \<Rightarrow> bool" where
  "is_named_entry e = (uint (e_tag e) = POSIX_TAG_USER \<or> uint (e_tag e) = POSIX_TAG_GROUP)"

text \<open>
  The access blob of the round-trip scenario: \<open>USER_OBJ(R|W)\<close>, \<open>GROUP_OBJ(R)\<close>,
  \<open>OTHER(0)\<close>.
\<close>

definition ex_posix_access :: "byte list" where
  "ex_posix_access = [2, 0, 0, 0,
                      1, 0, 6, 0, 0xFF, 0xFF, 0xFF, 0xFF,
                      4, 0, 4, 0, 0xFF, 0xFF, 0xFF, 0xFF,
                      0x20, 0, 0, 0, 0xFF, 0xFF, 0xFF, 0xFF]"

text \<open>The sort key of \<open>POSIXAce_richcompare\<close>: tag first, then id.\<close>

definition POSIXAce_key :: "POSIXAce \<Rightarrow> int \<times> int" where
  "POSIXAce_key a = (tag a, ace_id a)"

definition posixace_long_ok :: "POSIXAce \<Rightarrow> bool" where
  "posixace_long_ok a = (long_ok (tag a) \<and> long_ok (perms a) \<and> long_ok (ace_id a))"

text \<open>The wire record that \<open>encode_posix_aces\<close> writes for an ACE, and its eight bytes.\<close>

definition posix_wire :: "POSIXAce \<Rightarrow> posix_xattr_ace" where
  "posix_wire a =
     \<lparr>e_tag = word_of_int (tag a), e_perm = word_of_int (perms a),
      e_id = (if is_special_tag (tag a) then POSIX_SPECIAL_ID else word_of_int (ace_id a))\<rparr>"

definition posix_wire_bytes :: "posix_xattr_ace \<Rightarrow> byte list" where
  "posix_wire_bytes r = write_le16 (e_tag r) @ write_le16 (e_perm r) @ write_le32 (e_id r)"

text \<open>
  An ACE that the wire format represents exactly: a tag of the enumeration, permission
  bits that fit 16 bits, id \<open>-1\<close> on the special tags and a uid or gid other than the
  special id on \<open>USER\<close> and \<open>GROUP\<close>.
\<close>

definition posixace_representable :: "POSIXAce \<Rightarrow> bool" where
  "posixace_representable a =
     (tag a \<in> set posix_tag_table \<and> 0 \<le> perms a \<and> perms a < 2 ^ 16
      \<and> (if is_special_tag (tag a) then ace_id a = - 1
          else 0 \<le> ace_id a \<and> ace_id a < 2 ^ 32 - 1))"

text \<open>The ACEs of the round-trip scenario, and a special-tag ACE that carries an id.\<close>

definition ex_posix_aces :: "POSIXAce list" where
  "ex_posix_aces =
     [\<lparr>tag = 0x20, perms = 0, ace_id = - 1, ace_default = False\<rparr>,
      \<lparr>tag = 0x01, perms = 6, ace_id = - 1, ace_default = False\<rparr>,
      \<lparr>tag = 0x04, perms = 4, ace_id = - 1, ace_default = False\<rparr>]"

definition ex_posix_user_obj_id5 :: POSIXAce where
  "ex_posix_user_obj_id5 = \<lparr>tag = 0x01, perms = 6, ace_id = 5, ace_default = False\<rparr>"

section \<open>System calls that are retried on \<open>EINTR\<close>\<close>

text \<open>
  Every wrapped system call has the shape
  \<^verbatim>\<open>do { ret = syscall(...); } while (ret == -1 && errno == EINTR && !(async_err = PyErr_CheckSignals()));\<close>
  The kernel's answers are a script: one element per attempt, holding the reply and what
  \<open>PyErr_CheckSignals\<close> reports if that reply is \<open>EINTR\<close> (\<open>True\<close>: a signal handler
  raised).  The loop returns the reply it stopped on, the \<open>async_err\<close> flag and the rest
  of the script; a script that ends while the kernel is still interrupting gives
  \<open>None\<close>: the call has not returned.  \<open>Interrupted\<close> stands for the exception the
  signal handler left behind.
\<close>

definition EINTR :: nat where "EINTR = 4"
definition ENODATA :: nat where "ENODATA = 61"
definition EOPNOTSUPP :: nat where "EOPNOTSUPP = 95"

fun retry_eintr :: "('r \<Rightarrow> bool) \<Rightarrow> ('r \<times> bool) list \<Rightarrow> (('r \<times> bool) \<times> ('r \<times> bool) list) option" where
  "retry_eintr is_eintr [] = None"
| "retry_eintr is_eintr ((r, sig) # rest) =
     (if is_eintr r
      then (if sig then Some ((r, True), rest) else retry_eintr is_eintr rest)
      else Some ((r, False), rest))"

section \<open>Unified ACL read (acl.c)\<close>

text \<open>
  A reply to \<open>fgetxattr\<close>: the value of the attribute (the call returns its length and,
  when a buffer was passed, fills it), or \<open>-1\<close> with an errno.
\<close>

datatype xattr_reply = Xattr_ok "byte list" | Xattr_err nat

definition xattr_eintr :: "xattr_reply \<Rightarrow> bool" where
  "xattr_eintr r = (r = Xattr_err EINTR)"

type_synonym xattr_script = "(xattr_reply \<times> bool) list"

text \<open>\<open>acl_xattr_t\<close>: the type tag and the buffers; \<open>None\<close> is a \<open>NULL\<close> buffer of length 0.\<close>

datatype acl_xattr =
    ACLTYPE_NFS4 "byte list option"
  | ACLTYPE_POSIX "byte list option" "byte list option"

text \<open>\<open>read_xattr_raw\<close>: the second step of the two-step read.\<close>

definition read_xattr_raw :: "xattr_script \<Rightarrow> ((py_error + byte list) \<times> xattr_script) option" where
  "read_xattr_raw s =
     (case retry_eintr xattr_eintr s of
        None \<Rightarrow> None
      | Some ((r, async_err), s') \<Rightarrow>
          (case r of
             Xattr_err e \<Rightarrow> Some (Inl (if async_err then Interrupted else OSError e), s')
           | Xattr_ok v \<Rightarrow> Some (Inr v, s')))"

text \<open>The last part of \<open>do_fgetacl\<close>: probe and read \<open>system.posix_acl_default\<close>.\<close>

definition fgetacl_posix_default :: "byte list option \<Rightarrow> xattr_script \<Rightarrow> (py_error + acl_xattr) option" where
  "fgetacl_posix_default access_blob s =
     (case retry_eintr xattr_eintr s of
        None \<Rightarrow> None
      | Some ((r, async_err), s') \<Rightarrow>
          if async_err then Some (Inl Interrupted)
          else (case r of
                  Xattr_err e \<Rightarrow>
                    if e = ENODATA then Some (Inr (ACLTYPE_POSIX access_blob None))
                    else Some (Inl (OSError e))
                | Xattr_ok v \<Rightarrow>
                    if length v > 0
                    then (case read_xattr_raw s' of
                            None \<Rightarrow> None
                          | Some (Inl e, s'') \<Rightarrow> Some (Inl e)
                          | Some (Inr d, s'') \<Rightarrow> Some (Inr (ACLTYPE_POSIX access_blob (Some d))))
                    else Some (Inr (ACLTYPE_POSIX access_blob None))))"

text \<open>The middle part: probe and read \<open>system.posix_acl_access\<close>.\<close>

definition fgetacl_posix :: "xattr_script \<Rightarrow> (py_error + acl_xattr) option" where
  "fgetacl_posix s =
     (case retry_eintr xattr_eintr s of
        None \<Rightarrow> None
      | Some ((r, async_err), s') \<Rightarrow>
          if async_err then Some (Inl Interrupted)
          else if r = Xattr_err EOPNOTSUPP then Some (Inl (OSError EOPNOTSUPP))
          else (case r of
                  Xattr_ok v \<Rightarrow>
                    if length v > 0
                    then (case read_xattr_raw s' of
                            None \<Rightarrow> None
                          | Some (Inl e, s'') \<Rightarrow> Some (Inl e)
                          | Some (Inr d, s'') \<Rightarrow> fgetacl_posix_default (Some d) s'')
                    else fgetacl_posix_default None s'
                | Xattr_err e \<Rightarrow> fgetacl_posix_default None s'))"

text \<open>\<open>do_fgetacl(fd, out)\<close>: \<open>Inr\<close> is return value 0 with \<open>*out\<close> filled.\<close>

definition do_fgetacl :: "xattr_script \<Rightarrow> (py_error + acl_xattr) option" where
  "do_fgetacl s =
     (case retry_eintr xattr_eintr s of
        None \<Rightarrow> None
      | Some ((r, async_err), s') \<Rightarrow>
          if async_err then Some (Inl Interrupted)
          else (case r of
                  Xattr_ok v \<Rightarrow>
                    if length v > 0
                    then (case read_xattr_raw s' of
                            None \<Rightarrow> None
                          | Some (Inl e, s'') \<Rightarrow> Some (Inl e)
                          | Some (Inr d, s'') \<Rightarrow> Some (Inr (ACLTYPE_NFS4 (Some d))))
                    else Some (Inr (ACLTYPE_NFS4 None))
                | Xattr_err e \<Rightarrow>
                    if e = ENODATA then Some (Inr (ACLTYPE_NFS4 None))
                    else if e \<noteq> EOPNOTSUPP then Some (Inl (OSError e))
                    else fgetacl_posix s'))"

text \<open>
  The answer of a probe loop that was not cut short by a signal: the reply it stopped on
  and the script left for the calls that follow.
\<close>

definition probe_answer :: "xattr_script \<Rightarrow> xattr_reply \<Rightarrow> xattr_script \<Rightarrow> bool" where
  "probe_answer s r s' = (retry_eintr xattr_eintr s = Some ((r, False), s'))"

text \<open>
  Scenario scripts: a POSIX filesystem with no ACL at all (after one interrupted probe),
  a filesystem without ACL support, and an NFSv4 filesystem with an 8-byte ACL.
\<close>

definition ex_script_posix_empty :: xattr_script where
  "ex_script_posix_empty =
     [(Xattr_err EINTR, False), (Xattr_err EOPNOTSUPP, False),
      (Xattr_err ENODATA, False), (Xattr_err ENODATA, False)]"

definition ex_script_noacl :: xattr_script where
  "ex_script_noacl = [(Xattr_err EOPNOTSUPP, False), (Xattr_err EOPNOTSUPP, False)]"

definition ex_script_nfs4 :: xattr_script where
  "ex_script_nfs4 =
     [(Xattr_ok [0, 0, 0, 0, 0, 0, 0, 0], False), (Xattr_ok [0, 0, 0, 0, 0, 0, 0, 0], False)]"

section \<open>File handles (fhandle.c)\<close>

definition UINT64_MAX :: u64 where "UINT64_MAX = 0xFFFFFFFFFFFFFFFF"
definition STATX_MNT_ID :: u32 where "STATX_MNT_ID = 0x1000"
definition STATX_MNT_ID_UNIQUE :: u32 where "STATX_MNT_ID_UNIQUE = 0x4000"

text \<open>
  \<open>py_fhandle_t\<close>: the recorded mount id (\<open>UINT64_MAX\<close>: not initialised), whether it
  is the unique 64-bit id, and the serialised \<open>struct file_handle\<close>.
\<close>

record py_fhandle =
  mount_id :: u64
  unique_mount_id :: bool
  fhbuf :: "byte list"

text \<open>The system calls \<open>open\<close> can issue, and the kernel's replies to them.\<close>

datatype syscall = SYS_statx int u32 | SYS_open_by_handle_at int int

datatype statx_reply = Statx_ok u64 | Statx_err nat

datatype open_reply = Open_fd int | Open_err nat

definition statx_eintr :: "statx_reply \<Rightarrow> bool" where
  "statx_eintr r = (r = Statx_err EINTR)"

definition open_eintr :: "open_reply \<Rightarrow> bool" where
  "open_eintr r = (r = Open_err EINTR)"

text \<open>
  \<open>Fhandle.open(mount_fd, flags)\<close>.  \<open>sx\<close> scripts the attempts at \<open>statx\<close>
  (\<open>Statx_ok\<close> carries \<open>stx_mnt_id\<close>), \<open>so\<close> those at \<open>open_by_handle_at\<close>.  The
  result is the outcome (\<open>None\<close>: a retry loop has not returned) and the system calls
  issued, in order.
\<close>

definition py_fhandle_open ::
  "py_fhandle \<Rightarrow> int \<Rightarrow> int \<Rightarrow> (statx_reply \<times> bool) list \<Rightarrow> (open_reply \<times> bool) list
     \<Rightarrow> (py_error + int) option \<times> syscall list" where
  "py_fhandle_open self mount_fd flags sx so =
     (if mount_id self = UINT64_MAX then (Some (Inl (ValueError ''Invalid File Handle'')), [])
      else
        let statx_mask = (if unique_mount_id self then STATX_MNT_ID_UNIQUE else STATX_MNT_ID) in
        case retry_eintr statx_eintr sx of
          None \<Rightarrow> (None, replicate (length sx) (SYS_statx mount_fd statx_mask))
        | Some ((r, async_err), rest) \<Rightarrow>
            let t1 = replicate (length sx - length rest) (SYS_statx mount_fd statx_mask) in
            (case r of
               Statx_err e \<Rightarrow> (Some (Inl (if async_err then Interrupted else OSError e)), t1)
             | Statx_ok stx_mnt_id \<Rightarrow>
                 if stx_mnt_id \<noteq> mount_id self
                 then (Some (Inl (ValueError ''Filesystem underlying `mount_fd` parameter does not match the filesystem under which the handle was opened.'')), t1)
                 else
                   (case retry_eintr open_eintr so of
                      None \<Rightarrow>
                        (None, t1 @ replicate (length so) (SYS_open_by_handle_at mount_fd flags))
                    | Some ((r2, async_err2), rest2) \<Rightarrow>
                        let t2 = replicate (length so - length rest2)
                                   (SYS_open_by_handle_at mount_fd flags) in
                        (case r2 of
                           Open_err e \<Rightarrow>
                             (Some (Inl (if async_err2 then Interrupted else OSError e)), t1 @ t2)
                         | Open_fd fd \<Rightarrow> (Some (Inr fd), t1 @ t2)))))"

definition is_open_by_handle_at :: "syscall \<Rightarrow> bool" where
  "is_open_by_handle_at c = (case c of SYS_open_by_handle_at fd fl \<Rightarrow> True | SYS_statx fd m \<Rightarrow> False)"

text \<open>A handle recorded on mount 42 (unique id), opened against an fd on mount 43.\<close>

definition ex_fhandle :: py_fhandle where
  "ex_fhandle = \<lparr>mount_id = 42, unique_mount_id = True, fhbuf = []\<rparr>"

definition ex_statx_other_mount :: "(statx_reply \<times> bool) list" where
  "ex_statx_other_mount = [(Statx_err EINTR, False), (Statx_ok 43, False)]"

section \<open>Filesystem iterator (fsiter.c, fsiter.h)\<close>

definition MAX_DEPTH :: nat where "MAX_DEPTH = 2048"
definition PATH_MAX :: nat where "PATH_MAX = 4096"
definition NAME_MAX :: nat where "NAME_MAX = 255"
definition ELOOP :: nat where "ELOOP = 40"
definition EXDEV :: nat where "EXDEV = 18"
definition DT_DIR :: nat where "DT_DIR = 4"

text \<open>The fields of \<open>struct statx\<close> that the iterator reads.\<close>

record statx_t =
  stx_mode :: u16
  stx_ino :: u64
  stx_size :: u64
  stx_btime_sec :: int

definition stx_isdir :: "statx_t \<Rightarrow> bool" where
  "stx_isdir sx = S_ISDIR (ucast (stx_mode sx))"

text \<open>
  What the kernel shows of the tree.  A directory stream is the list of events that
  successive \<open>readdir\<close> calls will meet: an entry (name, \<open>d_ino\<close>, \<open>d_type\<close>) or a
  failure with an errno; the end of the list is the end of the directory.  An entry
  carries the script of the attempts of \<open>process_next_entry\<close> on it (one reply per
  attempt, with the answer of \<open>PyErr_CheckSignals\<close> if that reply is \<open>EINTR\<close>): the
  \<open>openat2\<close> fails, or the \<open>statx\<close> fails, or both succeed with the new fd and the
  \<open>statx\<close> record.  For a directory the successful reply also says what \<open>dup\<close> and
  \<open>fdopendir\<close> will answer in \<open>push_dir_stack\<close> (an errno, or nothing for success) and
  the stream of the new directory.
\<close>

datatype rd_event =
    Rd_error nat
  | Rd_entry string u64 nat "(pne_reply \<times> bool) list"
and pne_reply =
    Pne_open_err nat
  | Pne_statx_err nat
  | Pne_ok int statx_t "nat option" "nat option" "rd_event list"

definition pne_eintr :: "pne_reply \<Rightarrow> bool" where
  "pne_eintr r = (r = Pne_open_err EINTR \<or> r = Pne_statx_err EINTR)"

text \<open>\<open>iter_dir_t\<close>, \<open>iter_entry_t\<close>, \<open>iter_state_t\<close>.\<close>

record iter_dir =
  dir_path :: string
  dir_dirp :: "rd_event list"
  dir_ino :: u64

record iter_entry =
  last_name :: string
  last_st :: statx_t
  last_fd :: int
  last_is_dir :: bool

record iter_state =
  btime_cutoff :: int
  cnt :: u64
  cnt_bytes :: u64
  file_open_flags :: int

text \<open>
  \<open>FilesystemIteratorObject\<close>.  \<open>dir_stack\<close> holds the live frames
  \<open>dir_stack[0 .. cur_depth - 1]\<close> of the fixed array, so \<open>cur_depth\<close> is its length;
  \<open>cookies = None\<close> is the \<open>NULL\<close> array and \<open>cookie_sz\<close> is the length of the array.
  The reporting callback gets the stack snapshot and \<open>(cnt, cnt_bytes, current_directory)\<close>
  and answers whether it returned normally.
\<close>

record FilesystemIterator =
  dir_stack :: "iter_dir list"
  it_state :: iter_state
  last_entry :: iter_entry
  cookies :: "u64 list option"
  restoring_from_cookie :: bool
  reporting_cb_increment :: u64
  reporting_cb :: "((string \<times> u64) list \<Rightarrow> u64 \<times> u64 \<times> string \<Rightarrow> bool) option"
  skip_next_recursion :: bool

definition cur_depth :: "FilesystemIterator \<Rightarrow> nat" where
  "cur_depth self = length (dir_stack self)"

definition cookie_sz :: "FilesystemIterator \<Rightarrow> nat" where
  "cookie_sz self = (case cookies self of None \<Rightarrow> 0 | Some cs \<Rightarrow> length cs)"

record IterInstance =
  inst_parent :: string
  inst_name :: string
  inst_fd :: int
  inst_statx :: statx_t
  inst_isdir :: bool

text \<open>
  How a call of \<open>__next__\<close> ends: an entry, \<open>StopIteration\<close>, another exception, or a
  failed \<open>FSITER_ASSERT\<close>.  The definition of the macro \<open>FSITER_ASSERT(cond, msg)\<close> is
  not part of the sources at hand; it is taken as a checked assertion: when \<open>cond\<close> is
  false the call does not go on and ends in \<open>AssertFailed msg\<close>.
\<close>

datatype next_result = Yield IterInstance | StopIteration | Raise py_error | AssertFailed string

datatype fsiter_action =
  FSITER_YIELD_FILE | FSITER_CONTINUE | FSITER_YIELD_DIR | FSITER_POP_DIR | FSITER_ERROR

definition create_iter_instance :: "int \<Rightarrow> statx_t \<Rightarrow> string \<Rightarrow> string \<Rightarrow> IterInstance" where
  "create_iter_instance fd sx parent nm =
     \<lparr>inst_parent = parent, inst_name = nm, inst_fd = fd, inst_statx = sx,
      inst_isdir = stx_isdir sx\<rparr>"

text \<open>
  One call of \<open>process_next_entry\<close>, given the kernel's reply: the action, the
  iterator with \<open>last\<close> updated, and the text put into the error buffer.  Of the
  buffer's text the model keeps what the format of \<open>SET_ERROR\<close> and
  \<open>SET_ERROR_ERRNO\<close> produces from its arguments; the \<open>[file:line]\<close> prefix and
  the \<open>strerror(errno)\<close> suffix that the macros add around it are left out.
\<close>

definition process_next_entry ::
  "FilesystemIterator \<Rightarrow> string \<Rightarrow> pne_reply \<Rightarrow> fsiter_action \<times> FilesystemIterator \<times> string" where
  "process_next_entry self d_name reply =
     (let s1 = self\<lparr>last_entry := (last_entry self)\<lparr>last_name := take NAME_MAX d_name\<rparr>\<rparr> in
      case reply of
        Pne_open_err e \<Rightarrow>
          if e = ELOOP \<or> e = EXDEV then (FSITER_CONTINUE, s1, [])
          else (FSITER_ERROR, s1, ''openat2('' @ d_name @ '')'')
      | Pne_statx_err e \<Rightarrow> (FSITER_ERROR, s1, ''statx('' @ d_name @ '')'')
      | Pne_ok fd sx dup_err fdopendir_err children \<Rightarrow>
          if \<not> stx_isdir sx \<and> btime_cutoff (it_state self) \<noteq> 0
             \<and> stx_btime_sec sx > btime_cutoff (it_state self)
          then (FSITER_CONTINUE, s1, [])
          else
            (if stx_isdir sx then FSITER_YIELD_DIR else FSITER_YIELD_FILE,
             s1\<lparr>last_entry := \<lparr>last_name = take NAME_MAX d_name, last_st = sx, last_fd = fd,
                               last_is_dir = stx_isdir sx\<rparr>\<rparr>,
             []))"

text \<open>
  \<open>push_dir_stack\<close>: \<open>cur_path\<close> is \<open>cur_dir->path\<close>; the last three arguments are the
  kernel's answers to \<open>dup\<close> and \<open>fdopendir\<close> and the stream of the directory.
  \<open>snprintf\<close> cuts the path at \<open>PATH_MAX - 1\<close> characters.
\<close>

definition push_dir_stack ::
  "FilesystemIterator \<Rightarrow> string \<Rightarrow> nat option \<Rightarrow> nat option \<Rightarrow> rd_event list
     \<Rightarrow> bool \<times> FilesystemIterator \<times> string" where
  "push_dir_stack self cur_path dup_err fdopendir_err children =
     (let full_path = take (PATH_MAX - 1) (cur_path @ ''/'' @ last_name (last_entry self)) in
      if cur_depth self \<ge> MAX_DEPTH
      then (False, self, ''max depth 2048 exceeded at '' @ full_path)
      else (case dup_err of
              Some e \<Rightarrow> (False, self, ''dup('' @ full_path @ '')'')
            | None \<Rightarrow>
                (case fdopendir_err of
                   Some e \<Rightarrow> (False, self, ''fdopendir('' @ full_path @ '')'')
                 | None \<Rightarrow>
                     (True,
                      self\<lparr>dir_stack := dir_stack self @
                             [\<lparr>dir_path = full_path, dir_dirp = children,
                               dir_ino = stx_ino (last_st (last_entry self))\<rparr>]\<rparr>,
                      []))))"

definition pop_dir_stack :: "FilesystemIterator \<Rightarrow> FilesystemIterator" where
  "pop_dir_stack self =
     (if cur_depth self = 0 then self else self\<lparr>dir_stack := butlast (dir_stack self)\<rparr>)"

definition build_dir_stack_tuple :: "FilesystemIterator \<Rightarrow> (string \<times> u64) list" where
  "build_dir_stack_tuple self = map (\<lambda>d. (dir_path d, dir_ino d)) (dir_stack self)"

definition check_and_invoke_reporting_callback :: "FilesystemIterator \<Rightarrow> string \<Rightarrow> bool" where
  "check_and_invoke_reporting_callback self current_dir =
     (case reporting_cb self of
        None \<Rightarrow> True
      | Some cb \<Rightarrow>
          if reporting_cb_increment self \<noteq> 0
             \<and> cnt (it_state self) mod reporting_cb_increment self = 0
          then cb (build_dir_stack_tuple self)
                  (cnt (it_state self), cnt_bytes (it_state self), current_dir)
          else True)"

text \<open>The outcome of one pass through the body of the main loop.\<close>

datatype step = Continue FilesystemIterator | Return next_result FilesystemIterator | NoReturn

text \<open>\<open>readdir\<close> moved the stream of the top frame past its first event.\<close>

definition advance_top :: "FilesystemIterator \<Rightarrow> rd_event list \<Rightarrow> FilesystemIterator" where
  "advance_top self rest =
     self\<lparr>dir_stack := butlast (dir_stack self) @ [(last (dir_stack self))\<lparr>dir_dirp := rest\<rparr>]\<rparr>"

text \<open>
  The cookie block: \<open>None\<close> when the entry is not the one looked for (\<open>continue\<close>),
  otherwise the iterator, with the cookie of this depth cleared if it matched.
\<close>

definition cookie_check :: "FilesystemIterator \<Rightarrow> u64 \<Rightarrow> FilesystemIterator option" where
  "cookie_check self d_ino =
     (case cookies self of
        None \<Rightarrow> Some self
      | Some cs \<Rightarrow>
          if cur_depth self < length cs
          then (let mycookie = cs ! cur_depth self in
                if mycookie \<noteq> 0
                then (if d_ino \<noteq> mycookie then None
                      else Some (self\<lparr>cookies := Some (cs[cur_depth self := 0])\<rparr>))
                else Some self)
          else Some self)"

text \<open>The \<open>switch (action)\<close> at the end of the loop body.\<close>

definition dispatch_action ::
  "fsiter_action \<Rightarrow> FilesystemIterator \<Rightarrow> string \<Rightarrow> string
     \<Rightarrow> nat option \<Rightarrow> nat option \<Rightarrow> rd_event list \<Rightarrow> step" where
  "dispatch_action action self msg cur_path dup_err fdopendir_err children =
     (case action of
        FSITER_ERROR \<Rightarrow> Return (Raise (OSErrorText msg)) self
      | FSITER_CONTINUE \<Rightarrow> Continue self
      | FSITER_POP_DIR \<Rightarrow> Continue (pop_dir_stack self)
      | FSITER_YIELD_FILE \<Rightarrow>
          (let result = create_iter_instance (last_fd (last_entry self)) (last_st (last_entry self))
                          cur_path (last_name (last_entry self));
               s1 = self\<lparr>it_state := (it_state self)
                          \<lparr>cnt := cnt (it_state self) + 1,
                           cnt_bytes := cnt_bytes (it_state self)
                                        + stx_size (last_st (last_entry self))\<rparr>\<rparr>
           in if \<not> check_and_invoke_reporting_callback s1 cur_path
              then Return (Raise CallbackError) s1
              else Return (Yield result) s1)
      | FSITER_YIELD_DIR \<Rightarrow>
          (let result = create_iter_instance (last_fd (last_entry self)) (last_st (last_entry self))
                          cur_path (last_name (last_entry self))
           in case push_dir_stack self cur_path dup_err fdopendir_err children of
                (push_ok, s1, push_msg) \<Rightarrow>
                  if \<not> push_ok then Return (Raise (OSErrorText push_msg)) s1
                  else if restoring_from_cookie s1
                  then (if cur_depth s1 \<ge> cookie_sz s1
                        then Continue (s1\<lparr>restoring_from_cookie := False, cookies := None\<rparr>)
                        else Continue s1)
                  else
                    (let s2 = s1\<lparr>it_state := (it_state s1)\<lparr>cnt := cnt (it_state s1) + 1\<rparr>\<rparr>
                     in if \<not> check_and_invoke_reporting_callback s2 cur_path
                        then Return (Raise CallbackError) s2
                        else Return (Yield result) s2)))"

text \<open>The body of \<open>while (self->cur_depth > 0)\<close> in \<open>FilesystemIterator_next\<close>.\<close>

definition iter_step :: "FilesystemIterator \<Rightarrow> step" where
  "iter_step self =
     (if \<not> cur_depth self < MAX_DEPTH
      then Return (AssertFailed ''Iterator depth exceeded MAX_DEPTH'') self
      else
        let cur_dir = last (dir_stack self) in
        case dir_dirp cur_dir of
          [] \<Rightarrow>
            if (case cookies self of
                  None \<Rightarrow> False
                | Some cs \<Rightarrow> cur_depth self < length cs \<and> cs ! cur_depth self \<noteq> 0)
            then Return (Raise (IteratorRestoreError (cur_depth self) (dir_path cur_dir))) self
            else dispatch_action FSITER_POP_DIR self [] (dir_path cur_dir) None None []
        | Rd_error e # rest \<Rightarrow>
            Return (Raise (OSErrorText (''readdir('' @ dir_path cur_dir @ '') failed'')))
                   (advance_top self rest)
        | Rd_entry d_name d_ino d_type script # rest \<Rightarrow>
            (let s0 = advance_top self rest in
             if d_name = ''.'' \<or> d_name = ''..''
             then dispatch_action FSITER_CONTINUE s0 [] (dir_path cur_dir) None None []
             else
               (case cookie_check s0 d_ino of
                  None \<Rightarrow> Continue s0
                | Some s1 \<Rightarrow>
                    (case retry_eintr pne_eintr script of
                       None \<Rightarrow> NoReturn
                     | Some ((reply, async_err), unused) \<Rightarrow>
                         (case process_next_entry s1 d_name reply of
                            (action, s2, msg) \<Rightarrow>
                              (case reply of
                                 Pne_ok fd sx dup_err fdopendir_err children \<Rightarrow>
                                   dispatch_action action s2 msg (dir_path cur_dir)
                                     dup_err fdopendir_err children
                               | Pne_open_err e \<Rightarrow>
                                   dispatch_action action s2 msg (dir_path cur_dir) None None []
                               | Pne_statx_err e \<Rightarrow>
                                   dispatch_action action s2 msg (dir_path cur_dir) None None []))))))"

text \<open>
  The main loop of \<open>FilesystemIterator_next\<close>.  Every pass that continues consumes
  an event of the top stream or pops a frame, and a pushed directory's stream is part
  of the entry consumed, so the loop ends; \<open>None\<close> is a call that never returns
  (a retry loop that is interrupted for ever).
\<close>

definition stack_weight :: "FilesystemIterator \<Rightarrow> nat" where
  "stack_weight self =
     sum_list (map (\<lambda>d. Suc (size_list size (dir_dirp d))) (dir_stack self))"

function next_loop :: "FilesystemIterator \<Rightarrow> (next_result \<times> FilesystemIterator) option" where
  "next_loop self =
     (if cur_depth self > 0
      then (case iter_step self of
              Continue s' \<Rightarrow> next_loop s'
            | Return res s' \<Rightarrow> Some (res, s')
            | NoReturn \<Rightarrow> None)
      else Some (StopIteration, self))"
  by pat_completeness auto

termination
proof (relation "measure stack_weight")
  show "wf (measure stack_weight)" by simp
next
  fix self s'
  assume depth: "0 < cur_depth self" and st: "iter_step self = Continue s'"
  have ne: "dir_stack self \<noteq> []" using depth by (simp add: cur_depth_def)
  define top where "top = last (dir_stack self)"
  define below where "below = butlast (dir_stack self)"
  define W where "W = sum_list (map (\<lambda>d. Suc (size_list size (dir_dirp d))) below)"
  have stack: "dir_stack self = below @ [top]"
    using ne by (simp add: top_def below_def)
  have w: "stack_weight self = W + Suc (size_list size (dir_dirp top))"
    by (simp add: stack_weight_def stack W_def)
  have adv: "stack_weight (advance_top self rest) = W + Suc (size_list size rest)" for rest
    by (simp add: stack_weight_def advance_top_def W_def top_def below_def)
  have pop: "stack_weight (pop_dir_stack self) = W"
    using ne by (simp add: stack_weight_def pop_dir_stack_def cur_depth_def W_def below_def)
  have ck: "dir_stack s1 = dir_stack s0" if "cookie_check s0 i = Some s1" for s0 s1 i
    using that by (auto simp: cookie_check_def Let_def split: option.splits if_splits)
  have pne: "dir_stack s2 = dir_stack s1 \<and> a \<noteq> FSITER_POP_DIR
             \<and> (a = FSITER_YIELD_DIR \<longrightarrow> (\<exists>fd sx de fe ch. reply = Pne_ok fd sx de fe ch))"
    if "process_next_entry s1 n reply = (a, s2, m)" for s1 s2 n reply a m
    using that by (auto simp: process_next_entry_def Let_def split: pne_reply.splits if_splits)
  have disp: "stack_weight t \<le> stack_weight s
                + (if a = FSITER_YIELD_DIR then Suc (size_list size ch) else 0)"
    if "dispatch_action a s m p de fe ch = Continue t" "a \<noteq> FSITER_POP_DIR" for a s m p de fe ch t
    using that
    by (auto simp: dispatch_action_def push_dir_stack_def Let_def stack_weight_def
             split: fsiter_action.splits if_splits option.splits prod.splits)
  have mem: "\<exists>b'. (r, b') \<in> set script" if "retry_eintr P script = Some ((r, b), rest)"
    for P and script :: "(pne_reply \<times> bool) list" and r b rest
    using that by (induction script) (auto split: if_splits)
  have big: "size_list size ch + 2 \<le> size_list (size_prod size (\<lambda>x. 0)) script"
    if "(Pne_ok fd sx de fe ch, b) \<in> set script" for fd sx de fe ch b script
    using that by (induction script) auto
  have "stack_weight s' < stack_weight self"
  proof (cases "dir_dirp top")
    case Nil
    then show ?thesis using st pop w depth
      by (auto simp: iter_step_def Let_def top_def dispatch_action_def split: if_splits option.splits)
  next
    case (Cons ev rest)
    show ?thesis
    proof (cases ev)
      case (Rd_error e)
      then show ?thesis using st Cons
        by (auto simp: iter_step_def Let_def top_def split: if_splits)
    next
      case (Rd_entry n i t script)
      have w': "stack_weight self =
                  W + Suc (size_list size rest) + size_list (size_prod size (\<lambda>x. 0)) script + 2"
        using w Cons Rd_entry by simp
      have s0: "stack_weight (advance_top self rest) < stack_weight self"
        using adv [of rest] w' by simp
      have ok: "cur_depth self < MAX_DEPTH"
        using st by (auto simp: iter_step_def split: if_splits)
      show ?thesis
      proof (cases "n = ''.'' \<or> n = ''..''")
        case True
        then have "s' = advance_top self rest"
          using st Cons Rd_entry ok
          by (auto simp: iter_step_def Let_def top_def dispatch_action_def)
        then show ?thesis using s0 by simp
      next
        case False
        show ?thesis
        proof (cases "cookie_check (advance_top self rest) i")
          case None
          then have "s' = advance_top self rest"
            using st Cons Rd_entry ok False
            by (auto simp: iter_step_def Let_def top_def)
          then show ?thesis using s0 by simp
        next
          case (Some s1)
          have w1: "stack_weight s1 = W + Suc (size_list size rest)"
            using ck [OF Some] adv [of rest] by (simp add: stack_weight_def)
          obtain reply b unused a s2 m where
            re: "retry_eintr pne_eintr script = Some ((reply, b), unused)" and
            pr: "process_next_entry s1 n reply = (a, s2, m)"
            using st Cons Rd_entry ok False Some
            by (auto simp: iter_step_def Let_def top_def split: option.splits prod.splits)
          note p = pne [OF pr]
          have w2: "stack_weight s2 = W + Suc (size_list size rest)"
            using p w1 by (simp add: stack_weight_def)
          show ?thesis
          proof (cases reply)
            case (Pne_ok fd sx de fe ch)
            then have d: "dispatch_action a s2 m (dir_path top) de fe ch = Continue s'"
              using st Cons Rd_entry ok False Some re pr
              by (auto simp: iter_step_def Let_def top_def)
            obtain b' where "(Pne_ok fd sx de fe ch, b') \<in> set script"
              using mem [OF re] Pne_ok by auto
            from big [OF this] disp [OF d] p w2 w' show ?thesis
              by (auto split: if_splits)
          next
            case (Pne_open_err e)
            then have d: "dispatch_action a s2 m (dir_path top) None None [] = Continue s'"
              using st Cons Rd_entry ok False Some re pr
              by (auto simp: iter_step_def Let_def top_def)
            from disp [OF d] p w2 w' Pne_open_err show ?thesis
              by (auto split: if_splits)
          next
            case (Pne_statx_err e)
            then have d: "dispatch_action a s2 m (dir_path top) None None [] = Continue s'"
              using st Cons Rd_entry ok False Some re pr
              by (auto simp: iter_step_def Let_def top_def)
            from disp [OF d] p w2 w' Pne_statx_err show ?thesis
              by (auto split: if_splits)
          qed
        qed
      qed
    qed
  qed
  then show "(s', self) \<in> measure stack_weight" by simp
qed

declare next_loop.simps [simp del]

text \<open>\<open>FilesystemIterator_next\<close> (\<open>__next__\<close>): close the fd of the previous entry,
  honour a pending \<open>skip()\<close>, then run the main loop.\<close>

definition FilesystemIterator_next ::
  "FilesystemIterator \<Rightarrow> (next_result \<times> FilesystemIterator) option" where
  "FilesystemIterator_next self =
     (let s1 = (if last_fd (last_entry self) \<ge> 0
                then self\<lparr>last_entry := (last_entry self)\<lparr>last_fd := - 1\<rparr>\<rparr>
                else self);
          s2 = (if skip_next_recursion s1
                then (let s = s1\<lparr>skip_next_recursion := False\<rparr>
                      in if cur_depth s > 0 then pop_dir_stack s else s)
                else s1)
      in next_loop s2)"

subsection \<open>Construction and the \<open>dir_stack\<close> snapshot\<close>

text \<open>
  The \<open>dir_stack\<close> argument as \<open>dir_stack_to_cookies\<close> sees it: absent (\<open>NULL\<close> or
  \<open>None\<close>), not a tuple, or a tuple whose entries are a 2-tuple with an integer
  inode, a 2-tuple whose second item is not an integer, or something else.
\<close>

datatype snapshot_entry = Snap_pair string int | Snap_inode_not_int | Snap_not_pair

datatype py_dir_stack = DS_absent | DS_not_tuple | DS_tuple "snapshot_entry list"

definition PyLong_AsUnsignedLongLong :: "int \<Rightarrow> py_error + u64" where
  "PyLong_AsUnsignedLongLong v =
     (if 0 \<le> v \<and> v < 2 ^ 64 then Inr (word_of_int v) else Inl OverflowError)"

definition snapshot_cookie :: "snapshot_entry \<Rightarrow> py_error + u64" where
  "snapshot_cookie entry =
     (case entry of
        Snap_not_pair \<Rightarrow> Inl (ValueError ''dir_stack entries must be (path, inode) tuples'')
      | Snap_inode_not_int \<Rightarrow> Inl (TypeError ''dir_stack inode must be an integer'')
      | Snap_pair p inode_obj \<Rightarrow> PyLong_AsUnsignedLongLong inode_obj)"

definition dir_stack_to_cookies :: "py_dir_stack \<Rightarrow> py_error + u64 list option" where
  "dir_stack_to_cookies snapshot =
     (case snapshot of
        DS_absent \<Rightarrow> Inr None
      | DS_not_tuple \<Rightarrow> Inl (TypeError ''dir_stack must be a tuple'')
      | DS_tuple entries \<Rightarrow>
          if length entries = 0 then Inr None
          else (case map_err snapshot_cookie entries of
                  Inl e \<Rightarrow> Inl e
                | Inr cs \<Rightarrow> Inr (Some cs)))"

text \<open>The \<open>reporting_callback\<close> argument: absent (\<open>NULL\<close> or \<open>None\<close>), an object
  that is not callable, or a callable.\<close>

datatype 'f py_callable = Py_absent | Py_not_callable | Py_callable 'f

text \<open>
  What the kernel answers during construction: \<open>openat2\<close> of the root (an errno or
  the fd), \<open>statx\<close> of it, \<open>statmount\<close> of its mount (an errno or the \<open>sb_source\<close>
  string), \<open>fdopendir\<close> (an errno or the root's stream).
\<close>

record root_kernel =
  rk_open :: "nat + int"
  rk_statx :: "nat + statx_t"
  rk_statmount :: "nat + string"
  rk_fdopendir :: "nat + rd_event list"

text \<open>
  \<open>create_filesystem_iterator\<close>, built with \<open>STATMOUNT_SB_SOURCE\<close> defined.  An empty
  \<open>relative_path\<close> stands for both \<open>NULL\<close> and the empty string.
\<close>

definition create_filesystem_iterator ::
  "string \<Rightarrow> string \<Rightarrow> string \<Rightarrow> iter_state \<Rightarrow> u64
     \<Rightarrow> ((string \<times> u64) list \<Rightarrow> u64 \<times> u64 \<times> string \<Rightarrow> bool) py_callable
     \<Rightarrow> py_dir_stack \<Rightarrow> root_kernel \<Rightarrow> py_error + FilesystemIterator" where
  "create_filesystem_iterator mountpoint relative_path filesystem_name state0 increment cb
       snapshot k =
     (if cb = Py_not_callable then Inl (TypeError ''reporting_callback must be callable'')
      else
        case dir_stack_to_cookies snapshot of Inl e \<Rightarrow> Inl e | Inr cks \<Rightarrow>
        let root_path = (if relative_path \<noteq> [] then mountpoint @ ''/'' @ relative_path
                         else mountpoint) in
        if length root_path \<ge> PATH_MAX then Inl (ValueError ''path too long'')
        else
          case rk_open k of Inl e \<Rightarrow> Inl (OSError e) | Inr root_fd \<Rightarrow>
          case rk_statx k of Inl e \<Rightarrow> Inl (OSError e) | Inr root_st \<Rightarrow>
          if \<not> stx_isdir root_st then Inl (NotADirectoryError root_path)
          else
            case rk_statmount k of Inl e \<Rightarrow> Inl (OSError e) | Inr sb_source \<Rightarrow>
            if sb_source \<noteq> filesystem_name
            then Inl (RuntimeError ''filesystem source mismatch'')
            else
              case rk_fdopendir k of Inl e \<Rightarrow> Inl (OSError e) | Inr root_dirp \<Rightarrow>
              Inr \<lparr>dir_stack = [\<lparr>dir_path = root_path, dir_dirp = root_dirp,
                                dir_ino = stx_ino root_st\<rparr>],
                   it_state = state0,
                   last_entry = \<lparr>last_name = [],
                                  last_st = \<lparr>stx_mode = 0, stx_ino = 0, stx_size = 0,
                                             stx_btime_sec = 0\<rparr>,
                                  last_fd = - 1, last_is_dir = False\<rparr>,
                   cookies = cks,
                   restoring_from_cookie = (cks \<noteq> None),
                   reporting_cb_increment = increment,
                   reporting_cb = (case cb of Py_callable f \<Rightarrow> Some f | _ \<Rightarrow> None),
                   skip_next_recursion = False\<rparr>)"

subsection \<open>A chain of 2047 nested directories\<close>

text \<open>
  A chain of nested directories under \<open>/mnt/tank\<close>, each holding nothing but the next
  one.  The iterator stands in the directory of frame 2047, whose stream still holds
  the entry of the next directory \<open>sub\<close>; the frames below have been read to their
  end (their paths are abbreviated).
\<close>

definition ex_chain_frame :: iter_dir where
  "ex_chain_frame = \<lparr>dir_path = ''/mnt/tank'', dir_dirp = [], dir_ino = 2\<rparr>"

definition ex_sub_statx :: statx_t where
  "ex_sub_statx = \<lparr>stx_mode = 0x41ED, stx_ino = 99, stx_size = 0, stx_btime_sec = 0\<rparr>"

definition ex_iter_idle :: FilesystemIterator where
  "ex_iter_idle =
     \<lparr>dir_stack = [],
      it_state = \<lparr>btime_cutoff = 0, cnt = 0, cnt_bytes = 0, file_open_flags = 0\<rparr>,
      last_entry = \<lparr>last_name = [], last_st = ex_sub_statx, last_fd = - 1, last_is_dir = False\<rparr>,
      cookies = None, restoring_from_cookie = False, reporting_cb_increment = 0,
      reporting_cb = None, skip_next_recursion = False\<rparr>"

definition ex_depth_2047 :: FilesystemIterator where
  "ex_depth_2047 =
     ex_iter_idle\<lparr>dir_stack := replicate 2046 ex_chain_frame @
        [\<lparr>dir_path = ''/mnt/tank/d'',
          dir_dirp = [Rd_entry ''sub'' 99 DT_DIR [(Pne_ok 7 ex_sub_statx None None [], False)]],
          dir_ino = 3\<rparr>]\<rparr>"

definition ex_depth_2048 :: FilesystemIterator where
  "ex_depth_2048 =
     ex_iter_idle\<lparr>dir_stack := replicate 2046 ex_chain_frame @
        [\<lparr>dir_path = ''/mnt/tank/d'', dir_dirp = [], dir_ino = 3\<rparr>,
         \<lparr>dir_path = ''/mnt/tank/d/sub'', dir_dirp = [], dir_ino = 99\<rparr>],
       it_state := \<lparr>btime_cutoff = 0, cnt = 1, cnt_bytes = 0, file_open_flags = 0\<rparr>,
       last_entry := \<lparr>last_name = ''sub'', last_st = ex_sub_statx, last_fd = 7, last_is_dir = True\<rparr>\<rparr>"

subsection \<open>A small tree to resume in\<close>

text \<open>
  The root \<open>/mnt/tank\<close> (inode 1) of the filesystem \<open>tank\<close> holds the file \<open>f\<close>
  (inode 10) and the directory \<open>A\<close> (inode 11), which holds the file \<open>g\<close> (inode 12).
\<close>

definition ex_file_statx :: "u64 \<Rightarrow> statx_t" where
  "ex_file_statx ino = \<lparr>stx_mode = 0x81A4, stx_ino = ino, stx_size = 5, stx_btime_sec = 0\<rparr>"

definition ex_dir_statx :: "u64 \<Rightarrow> statx_t" where
  "ex_dir_statx ino = \<lparr>stx_mode = 0x41ED, stx_ino = ino, stx_size = 0, stx_btime_sec = 0\<rparr>"

definition ex_entry_g :: rd_event where
  "ex_entry_g = Rd_entry ''g'' 12 8 [(Pne_ok 6 (ex_file_statx 12) None None [], False)]"

definition ex_entry_f :: rd_event where
  "ex_entry_f = Rd_entry ''f'' 10 8 [(Pne_ok 5 (ex_file_statx 10) None None [], False)]"

definition ex_entry_A :: rd_event where
  "ex_entry_A = Rd_entry ''A'' 11 DT_DIR [(Pne_ok 5 (ex_dir_statx 11) None None [ex_entry_g], False)]"

definition ex_state0 :: iter_state where
  "ex_state0 = \<lparr>btime_cutoff = 0, cnt = 0, cnt_bytes = 0, file_open_flags = 0\<rparr>"

definition ex_root_kernel :: "rd_event list \<Rightarrow> root_kernel" where
  "ex_root_kernel stream =
     \<lparr>rk_open = Inr 3, rk_statx = Inr (ex_dir_statx 1), rk_statmount = Inr ''tank'',
      rk_fdopendir = Inr stream\<rparr>"

text \<open>The iterator over this tree as constructed: in the root, with the given cookies
  and the given events left in the root's stream.\<close>

definition ex_iter :: "u64 list option \<Rightarrow> rd_event list \<Rightarrow> FilesystemIterator" where
  "ex_iter cks stream =
     \<lparr>dir_stack = [\<lparr>dir_path = ''/mnt/tank'', dir_dirp = stream, dir_ino = 1\<rparr>],
      it_state = ex_state0,
      last_entry = \<lparr>last_name = [],
                     last_st = \<lparr>stx_mode = 0, stx_ino = 0, stx_size = 0, stx_btime_sec = 0\<rparr>,
                     last_fd = - 1, last_is_dir = False\<rparr>,
      cookies = cks,
      restoring_from_cookie = (cks \<noteq> None),
      reporting_cb_increment = 0,
      reporting_cb = None,
      skip_next_recursion = False\<rparr>"

definition ex_create :: "py_dir_stack \<Rightarrow> rd_event list \<Rightarrow> py_error + FilesystemIterator" where
  "ex_create snapshot stream =
     create_filesystem_iterator ''/mnt/tank'' [] ''tank'' ex_state0 0 Py_absent snapshot
       (ex_root_kernel stream)"

definition ex_snapshot_root :: py_dir_stack where
  "ex_snapshot_root = DS_tuple [Snap_pair ''/mnt/tank'' 1]"

definition ex_snapshot_A :: py_dir_stack where
  "ex_snapshot_A = DS_tuple [Snap_pair ''/mnt/tank'' 1, Snap_pair ''/mnt/tank/A'' 11]"

text \<open>The iterator inside \<open>A\<close>, after the step that entered it.\<close>

definition ex_iter_in_A :: "rd_event list \<Rightarrow> FilesystemIterator" where
  "ex_iter_in_A rest =
     (ex_iter None rest)
       \<lparr>dir_stack := [\<lparr>dir_path = ''/mnt/tank'', dir_dirp = rest, dir_ino = 1\<rparr>,
                     \<lparr>dir_path = ''/mnt/tank/A'', dir_dirp = [ex_entry_g], dir_ino = 11\<rparr>],
        last_entry := \<lparr>last_name = ''A'', last_st = ex_dir_statx 11, last_fd = 5,
                        last_is_dir = True\<rparr>\<rparr>"

text \<open>A consumer that calls \<open>__next__\<close> \<open>n\<close> times and collects what the calls give.\<close>

fun next_calls :: "nat \<Rightarrow> FilesystemIterator \<Rightarrow> next_result list" where
  "next_calls 0 self = []"
| "next_calls (Suc n) self =
     (case FilesystemIterator_next self of
        None \<Rightarrow> []
      | Some (res, s') \<Rightarrow> res # next_calls n s')"

definition ex_inst_f :: IterInstance where
  "ex_inst_f = \<lparr>inst_parent = ''/mnt/tank'', inst_name = ''f'', inst_fd = 5,
                inst_statx = ex_file_statx 10, inst_isdir = False\<rparr>"

definition ex_inst_A :: IterInstance where
  "ex_inst_A = \<lparr>inst_parent = ''/mnt/tank'', inst_name = ''A'', inst_fd = 5,
                inst_statx = ex_dir_statx 11, inst_isdir = True\<rparr>"

definition ex_inst_g :: IterInstance where
  "ex_inst_g = \<lparr>inst_parent = ''/mnt/tank/A'', inst_name = ''g'', inst_fd = 6,
                inst_statx = ex_file_statx 12, inst_isdir = False\<rparr>"

text \<open>
  The states the iterator over this tree goes through: cookies, restore flag, stack,
  last entry and the two counters.
\<close>

definition ex_at ::
  "u64 list option \<Rightarrow> bool \<Rightarrow> iter_dir list \<Rightarrow> iter_entry \<Rightarrow> u64 \<Rightarrow> u64 \<Rightarrow> FilesystemIterator" where
  "ex_at cks restoring stack entry n b =
     \<lparr>dir_stack = stack,
      it_state = \<lparr>btime_cutoff = 0, cnt = n, cnt_bytes = b, file_open_flags = 0\<rparr>,
      last_entry = entry,
      cookies = cks,
      restoring_from_cookie = restoring,
      reporting_cb_increment = 0,
      reporting_cb = None,
      skip_next_recursion = False\<rparr>"

definition ex_root_frame :: "rd_event list \<Rightarrow> iter_dir" where
  "ex_root_frame stream = \<lparr>dir_path = ''/mnt/tank'', dir_dirp = stream, dir_ino = 1\<rparr>"

definition ex_A_frame :: "rd_event list \<Rightarrow> iter_dir" where
  "ex_A_frame stream = \<lparr>dir_path = ''/mnt/tank/A'', dir_dirp = stream, dir_ino = 11\<rparr>"

definition ex_last :: "string \<Rightarrow> statx_t \<Rightarrow> int \<Rightarrow> iter_entry" where
  "ex_last nm sx fd = \<lparr>last_name = nm, last_st = sx, last_fd = fd, last_is_dir = stx_isdir sx\<rparr>"

section \<open>Shared lemmas\<close>

lemma PyLong_AsLong_ok: "long_ok v \<Longrightarrow> PyLong_AsLong v = Inr v"
  by (simp add: PyLong_AsLong_def long_ok_def)

lemma PyLong_AsLong_Inr: "PyLong_AsLong v = Inr w \<Longrightarrow> w = v \<and> long_ok v"
  by (auto simp: PyLong_AsLong_def long_ok_def split: if_splits)

lemma be32_roundtrip: "be32toh (htobe32 w) = w"
  unfolding be32toh_def htobe32_def
  apply simp
  apply (rule bit_word_eqI)
  apply (simp add: bit_simps)
  subgoal for n
    by (cases "n < 8"; cases "n < 16"; cases "n < 24"; auto)
  done

lemma insort_lt_key:
  fixes key :: "'a \<Rightarrow> 'k::linorder"
  assumes "\<forall>y\<in>set ys. cmp y x Py_LT = Inr (key y < key x)"
  shows "insort_lt cmp x ys = Inr (insort_key key x ys)"
  using assms by (induction ys) (auto simp: not_less not_le split: bool.splits)

lemma PyList_Sort_key:
  fixes key :: "'a \<Rightarrow> 'k::linorder"
  assumes "\<forall>x\<in>set xs. \<forall>y\<in>set xs. cmp y x Py_LT = Inr (key y < key x)"
  shows "PyList_Sort cmp xs = Inr (sort_key key xs)"
  using assms
proof (induction xs)
  case Nil then show ?case by simp
next
  case (Cons x xs)
  then have "PyList_Sort cmp xs = Inr (sort_key key xs)" by simp
  moreover have "insort_lt cmp x (sort_key key xs) = Inr (insort_key key x (sort_key key xs))"
    by (rule insort_lt_key) (use Cons.prems in simp)
  ultimately show ?case by simp
qed

lemma map_err_total:
  assumes "\<forall>x\<in>set xs. \<exists>y. f x = Inr y"
  shows "\<exists>ys. map_err f xs = Inr ys \<and> length ys = length xs"
  using assms by (induction xs) auto

lemma map_err_map:
  assumes "\<forall>x\<in>set xs. f x = Inr (g x)"
  shows "map_err f xs = Inr (map g xs)"
  using assms by (induction xs) auto

lemma map_err_nth:
  assumes "map_err f xs = Inr ys"
  shows "length ys = length xs \<and> (\<forall>i<length xs. f (xs ! i) = Inr (ys ! i))"
  using assms
proof (induction xs arbitrary: ys)
  case Nil then show ?case by simp
next
  case (Cons x xs)
  then obtain y ys' where y: "f x = Inr y" and r: "map_err f xs = Inr ys'" and ys: "ys = y # ys'"
    by (auto split: sum.splits)
  show ?case using Cons.IH [OF r] y ys by (auto simp: nth_Cons split: nat.splits)
qed

lemma map_err_upt_nth:
  assumes "map_err f [0..<n] = Inr ys"
  shows "length ys = n \<and> (\<forall>i<n. f i = Inr (ys ! i))"
proof -
  note m = map_err_nth [OF assms]
  have "length ys = n" using m by simp
  moreover have "f i = Inr (ys ! i)" if "i < n" for i
  proof -
    have "i < length [0..<n]" using that by simp
    then have "f ([0..<n] ! i) = Inr (ys ! i)" using m by blast
    then show ?thesis using that by simp
  qed
  ultimately show ?thesis by blast
qed

section \<open>NFSv4: canonical ACE order\<close>

lemma NFS4Ace_richcompare_lt:
  assumes "nfs4ace_long_ok a" "nfs4ace_long_ok b"
  shows "NFS4Ace_richcompare a b Py_LT = Inr (NFS4Ace_key a < NFS4Ace_key b)"
  using assms
  by (simp add: NFS4Ace_richcompare_def nfs4ace_long_ok_def PyLong_AsLong_ok NFS4Ace_key_def
      cmp_result_def Let_def)

lemma nfs4ace_encode_total:
  assumes "nfs4ace_long_ok a"
  shows "\<exists>bs. nfs4ace_encode a = Inr bs"
  using assms
  by (simp add: nfs4ace_encode_def nfs4ace_long_ok_def PyLong_AsLong_ok Let_def)

lemma nfs4_key_range: "nfs4_key t f \<in> {0, 1, 2, 3}"
  by (simp add: nfs4_key_def)

section \<open>NFSv4: inheritance synthesis\<close>

lemma htobe32_length [simp]: "length (htobe32 w) = 4"
  by (simp add: htobe32_def)

lemma nfs4ace_write_raw_length [simp]: "length (nfs4ace_write_raw t f i m w) = 20"
  by (simp add: nfs4ace_write_raw_def)

lemma be32_at_0: "be32_at (htobe32 w @ rest) 0 = w"
  by (simp add: be32_at_def be32_roundtrip)

lemma be32_at_append: "length pre = 4 * k \<Longrightarrow> be32_at (pre @ rest) (k + i) = be32_at rest i"
  by (simp add: be32_at_def distrib_left)

lemma be32_at_1: "be32_at (htobe32 v @ htobe32 w @ rest) (Suc 0) = w"
  using be32_at_append [of "htobe32 v" 1 "htobe32 w @ rest" 0] by (simp add: be32_at_0)

lemma slot_fits: "NFS4_HDR_SZ \<le> length data \<Longrightarrow>
  (length data < NFS4_HDR_SZ + (NFS4_ACE_SZ + i * NFS4_ACE_SZ)) = (i \<ge> (length data - NFS4_HDR_SZ) div NFS4_ACE_SZ)"
  unfolding NFS4_HDR_SZ_def NFS4_ACE_SZ_def by (simp, arith)

lemma inherit_count_filter:
  assumes "NFS4_HDR_SZ \<le> length data"
  shows "inherit_count data d [i..<n] =
         length (filter (\<lambda>a. ace_is_inheritable (x_flags a) d)
           (map (nfs4_slot data) [i..<min n ((length data - NFS4_HDR_SZ) div NFS4_ACE_SZ)]))"
proof (induction "n - i" arbitrary: i)
  case 0
  then show ?case by simp
next
  case (Suc k)
  then have lt: "i < n" and k: "k = n - Suc i" by simp_all
  show ?case
  proof (cases "i \<ge> (length data - NFS4_HDR_SZ) div NFS4_ACE_SZ")
    case True
    then show ?thesis using lt assms by (simp add: upt_conv_Cons slot_fits del: upt_Suc)
  next
    case False
    then show ?thesis using lt assms Suc(1) [OF k]
      by (simp add: upt_conv_Cons slot_fits del: upt_Suc)
  qed
qed

lemma inherit_write_filter:
  assumes "NFS4_HDR_SZ \<le> length data"
  shows "inherit_write data d [i..<n] =
         concat (map (\<lambda>a. nfs4_xdr_bytes (a\<lparr>x_flags := inherit_new_flags (x_flags a) d\<rparr>))
           (filter (\<lambda>a. ace_is_inheritable (x_flags a) d)
             (map (nfs4_slot data) [i..<min n ((length data - NFS4_HDR_SZ) div NFS4_ACE_SZ)])))"
proof (induction "n - i" arbitrary: i)
  case 0
  then show ?case by simp
next
  case (Suc k)
  then have lt: "i < n" and k: "k = n - Suc i" by simp_all
  show ?case
  proof (cases "i \<ge> (length data - NFS4_HDR_SZ) div NFS4_ACE_SZ")
    case True
    then show ?thesis using lt assms by (simp add: upt_conv_Cons slot_fits del: upt_Suc)
  next
    case False
    then show ?thesis using lt assms Suc(1) [OF k]
      by (simp add: upt_conv_Cons slot_fits nfs4_xdr_bytes_def Let_def del: upt_Suc)
  qed
qed

lemma drop_concat_const:
  assumes "\<forall>x\<in>set xs. length (f x) = c" "j \<le> length xs"
  shows "drop (c * j) (concat (map f xs)) = concat (map f (drop j xs))"
  using assms
proof (induction xs arbitrary: j)
  case Nil then show ?case by simp
next
  case (Cons x xs)
  show ?case
  proof (cases j)
    case 0 then show ?thesis by simp
  next
    case (Suc j')
    then show ?thesis using Cons by simp
  qed
qed

lemma nfs4_xdr_bytes_length [simp]: "length (nfs4_xdr_bytes a) = 20"
  by (simp add: nfs4_xdr_bytes_def)

lemma be32_at_five:
  "be32_at (htobe32 a @ htobe32 b @ htobe32 c @ htobe32 d @ htobe32 e @ rest) 0 = a"
  "be32_at (htobe32 a @ htobe32 b @ htobe32 c @ htobe32 d @ htobe32 e @ rest) 1 = b"
  "be32_at (htobe32 a @ htobe32 b @ htobe32 c @ htobe32 d @ htobe32 e @ rest) 2 = c"
  "be32_at (htobe32 a @ htobe32 b @ htobe32 c @ htobe32 d @ htobe32 e @ rest) 3 = d"
  "be32_at (htobe32 a @ htobe32 b @ htobe32 c @ htobe32 d @ htobe32 e @ rest) 4 = e"
proof -
  show "be32_at (htobe32 a @ htobe32 b @ htobe32 c @ htobe32 d @ htobe32 e @ rest) 0 = a"
    by (rule be32_at_0)
  show "be32_at (htobe32 a @ htobe32 b @ htobe32 c @ htobe32 d @ htobe32 e @ rest) 1 = b"
    using be32_at_append [of "htobe32 a" 1 "htobe32 b @ htobe32 c @ htobe32 d @ htobe32 e @ rest" 0]
    by (simp add: be32_at_0)
  show "be32_at (htobe32 a @ htobe32 b @ htobe32 c @ htobe32 d @ htobe32 e @ rest) 2 = c"
    using be32_at_append [of "htobe32 a @ htobe32 b" 2 "htobe32 c @ htobe32 d @ htobe32 e @ rest" 0]
    by (simp add: be32_at_0)
  show "be32_at (htobe32 a @ htobe32 b @ htobe32 c @ htobe32 d @ htobe32 e @ rest) 3 = d"
    using be32_at_append [of "htobe32 a @ htobe32 b @ htobe32 c" 3 "htobe32 d @ htobe32 e @ rest" 0]
    by (simp add: be32_at_0)
  show "be32_at (htobe32 a @ htobe32 b @ htobe32 c @ htobe32 d @ htobe32 e @ rest) 4 = e"
    using be32_at_append [of "htobe32 a @ htobe32 b @ htobe32 c @ htobe32 d" 4 "htobe32 e @ rest" 0]
    by (simp add: be32_at_0)
qed

lemma nfs4_slot_bytes:
  assumes "length pre = 8 + 20 * i"
  shows "nfs4_slot (pre @ nfs4_xdr_bytes a @ rest) i = a"
proof -
  let ?w = "NFS4_HDR_WORDS + i * NFS4_ACE_WORDS"
  let ?r = "nfs4_xdr_bytes a @ rest"
  have l: "length pre = 4 * ?w"
    using assms by (simp add: NFS4_HDR_WORDS_def NFS4_ACE_WORDS_def)
  have w: "be32_at (pre @ ?r) (?w + k) = be32_at ?r k" for k
    by (rule be32_at_append [OF l])
  have w0: "be32_at (pre @ ?r) ?w = be32_at ?r 0"
    using w [of 0] by simp
  have r: "?r = htobe32 (x_type a) @ htobe32 (x_flags a) @ htobe32 (x_iflag a)
               @ htobe32 (x_mask a) @ htobe32 (x_who a) @ rest"
    by (simp add: nfs4_xdr_bytes_def nfs4ace_write_raw_def)
  have "nfs4_slot (pre @ ?r) i =
      \<lparr>x_type = be32_at ?r 0, x_flags = be32_at ?r 1, x_iflag = be32_at ?r 2,
       x_mask = be32_at ?r 3, x_who = be32_at ?r 4\<rparr>"
    unfolding nfs4_slot_def Let_def by (simp only: w w0)
  also have "\<dots> = a"
    unfolding r be32_at_five by simp
  finally show ?thesis .
qed

lemma nfs4_slot_pack:
  assumes "length hdr = 8" "j < length xs"
  shows "nfs4_slot (hdr @ concat (map nfs4_xdr_bytes xs)) j = xs ! j"
proof -
  have xs: "xs = take j xs @ (xs ! j) # drop (Suc j) xs"
    using assms(2) by (simp add: id_take_nth_drop)
  have len: "length (concat (map nfs4_xdr_bytes (take j xs))) = 20 * j"
    using assms(2) by (induction xs arbitrary: j) (auto simp: take_Cons split: nat.splits)
  have "hdr @ concat (map nfs4_xdr_bytes xs) =
        (hdr @ concat (map nfs4_xdr_bytes (take j xs))) @ nfs4_xdr_bytes (xs ! j) @ concat (map nfs4_xdr_bytes (drop (Suc j) xs))"
    by (subst xs) simp
  then show ?thesis
    using nfs4_slot_bytes [of "hdr @ concat (map nfs4_xdr_bytes (take j xs))" j "xs ! j"] assms(1) len
    by simp
qed

lemma concat_xdr_length: "length (concat (map nfs4_xdr_bytes xs)) = 20 * length xs"
  by (induction xs) auto

lemma nfs4_raw_aces_pack:
  assumes "length xs < 2 ^ 32"
  shows "nfs4_raw_aces (htobe32 f @ htobe32 (word_of_nat (length xs)) @ concat (map nfs4_xdr_bytes xs)) = xs"
proof -
  let ?d = "htobe32 f @ htobe32 (word_of_nat (length xs)) @ concat (map nfs4_xdr_bytes xs)"
  have n: "unat (be32_at ?d 1) = length xs"
    using assms by (simp add: be32_at_1 unat_of_nat)
  have l: "length ?d = 8 + 20 * length xs"
    by (simp add: concat_xdr_length)
  have s: "nfs4_slot ?d j = xs ! j" if "j < length xs" for j
    using nfs4_slot_pack [of "htobe32 f @ htobe32 (word_of_nat (length xs))" j xs] that by simp
  have "nfs4_raw_aces ?d = map (nfs4_slot ?d) [0..<length xs]"
    unfolding nfs4_raw_aces_def n l by (simp add: NFS4_HDR_SZ_def NFS4_ACE_SZ_def)
  also have "\<dots> = map ((!) xs) [0..<length xs]"
    by (rule map_cong) (simp_all add: s)
  also have "\<dots> = xs" by (rule map_nth)
  finally show ?thesis .
qed

lemma inherit_flag_bits:
  fixes f :: u32
  shows "((f AND NOT NFS4_ACE_INHERIT_MASK) OR NFS4_ACE_INHERITED_ACE) AND NFS4_ACE_INHERIT_MASK = 0"
    and "((f AND NOT NFS4_ACE_INHERIT_MASK) OR NFS4_ACE_INHERITED_ACE) AND NFS4_ACE_INHERITED_ACE \<noteq> 0"
    and "((f AND NOT NFS4_ACE_INHERIT_ONLY_ACE) OR NFS4_ACE_INHERITED_ACE) AND NFS4_ACE_INHERIT_ONLY_ACE = 0"
    and "((f AND NOT NFS4_ACE_INHERIT_ONLY_ACE) OR NFS4_ACE_INHERITED_ACE) AND NFS4_ACE_INHERITED_ACE \<noteq> 0"
    and "((f AND NOT NFS4_ACE_INHERIT_ONLY_ACE) OR NFS4_ACE_INHERITED_ACE)
           AND (NFS4_ACE_FILE_INHERIT_ACE OR NFS4_ACE_DIRECTORY_INHERIT_ACE)
         = f AND (NFS4_ACE_FILE_INHERIT_ACE OR NFS4_ACE_DIRECTORY_INHERIT_ACE)"
  unfolding NFS4_ACE_INHERIT_MASK_def NFS4_ACE_INHERITED_ACE_def NFS4_ACE_INHERIT_ONLY_ACE_def
    NFS4_ACE_FILE_INHERIT_ACE_def NFS4_ACE_DIRECTORY_INHERIT_ACE_def NFS4_ACE_NO_PROPAGATE_INHERIT_ACE_def
  by (simp_all add: bit.conj_disj_distrib2 and.assoc)

lemma generate_inherited_char:
  fixes data is_dir
  defines "kept \<equiv> filter (\<lambda>a. ace_is_inheritable (x_flags a) is_dir) (nfs4_raw_aces data)"
  shows "NFS4ACL_generate_inherited_acl data is_dir =
     (if length data < NFS4_HDR_SZ
      then Inl (ValueError ''cannot generate inherited ACL: source ACL is empty'')
      else if kept = []
      then Inl (ValueError ''parent ACL has no inheritable ACEs for this object type'')
      else Inr (htobe32 (if is_dir then NFS4_ACL_IS_DIR else 0)
                @ htobe32 (word_of_nat (length kept))
                @ concat (map nfs4_xdr_bytes
                    (map (\<lambda>a. a\<lparr>x_flags := inherit_new_flags (x_flags a) is_dir\<rparr>) kept))))"
proof (cases "length data < NFS4_HDR_SZ")
  case True
  then show ?thesis by (simp add: NFS4ACL_generate_inherited_acl_def)
next
  case False
  then have len: "NFS4_HDR_SZ \<le> length data" by simp
  have k: "kept = filter (\<lambda>a. ace_is_inheritable (x_flags a) is_dir)
      (map (nfs4_slot data)
        [0..<min (unat (be32_at data 1)) ((length data - NFS4_HDR_SZ) div NFS4_ACE_SZ)])"
    using False by (simp add: kept_def nfs4_raw_aces_def)
  have c: "inherit_count data is_dir [0..<unat (be32_at data 1)] = length kept"
    unfolding k by (rule inherit_count_filter [OF len])
  have w: "inherit_write data is_dir [0..<unat (be32_at data 1)] =
      concat (map (\<lambda>a. nfs4_xdr_bytes (a\<lparr>x_flags := inherit_new_flags (x_flags a) is_dir\<rparr>)) kept)"
    unfolding k by (rule inherit_write_filter [OF len])
  show ?thesis
    using False c w by (simp add: NFS4ACL_generate_inherited_acl_def Let_def comp_def)
qed

lemma nfs4_raw_aces_bound: "length (nfs4_raw_aces data) < 2 ^ 32"
proof -
  have "unat (be32_at data 1) < 2 ^ 32"
    using unsigned_less [of "be32_at data 1", where 'a = nat] by simp
  then show ?thesis by (auto simp: nfs4_raw_aces_def min_def)
qed

text \<open>
  Claim C2.  Let \<open>kept\<close> be the ACEs of the parent blob that are inheritable for the
  child: for a file child those with \<open>FILE_INHERIT\<close>, for a directory child those with
  \<open>FILE_INHERIT\<close> or \<open>DIRECTORY_INHERIT\<close>.  If \<open>kept\<close> is empty,
  \<open>generate_inherited_acl\<close> raises \<open>ValueError\<close> and builds no ACL.  Otherwise it
  returns an ACL whose flags word has \<open>ACL_IS_DIR\<close> exactly when \<open>is_dir\<close>, and
  whose ACEs are those of \<open>kept\<close>, in order, with type, iflag, access mask and who
  unchanged and \<open>INHERITED\<close> set; for a directory child without
  \<open>NO_PROPAGATE_INHERIT\<close> only \<open>INHERIT_ONLY\<close> is cleared (\<open>FILE_INHERIT\<close> and
  \<open>DIRECTORY_INHERIT\<close> stay), in every other case all four inherit bits are cleared.
\<close>

theorem C2_generate_inherited_acl:
  fixes data :: "byte list" and is_dir :: bool
  defines "kept \<equiv> filter (\<lambda>a. ace_is_inheritable (x_flags a) is_dir) (nfs4_raw_aces data)"
  shows
   "(\<forall>f. ace_is_inheritable f False \<longleftrightarrow> f AND NFS4_ACE_FILE_INHERIT_ACE \<noteq> 0)
  \<and> (\<forall>f. ace_is_inheritable f True \<longleftrightarrow>
          f AND NFS4_ACE_FILE_INHERIT_ACE \<noteq> 0 \<or> f AND NFS4_ACE_DIRECTORY_INHERIT_ACE \<noteq> 0)
  \<and> (kept = [] \<longrightarrow> (\<exists>msg. NFS4ACL_generate_inherited_acl data is_dir = Inl (ValueError msg)))
  \<and> (kept \<noteq> [] \<longrightarrow> (\<exists>out fl.
        NFS4ACL_generate_inherited_acl data is_dir = Inr out
      \<and> NFS4ACL_get_acl_flags out = Inr fl
      \<and> (fl AND NFS4_ACL_IS_DIR \<noteq> 0 \<longleftrightarrow> is_dir)
      \<and> length (nfs4_raw_aces out) = length kept
      \<and> (\<forall>j<length kept.
            x_type (nfs4_raw_aces out ! j) = x_type (kept ! j)
          \<and> x_iflag (nfs4_raw_aces out ! j) = x_iflag (kept ! j)
          \<and> x_mask (nfs4_raw_aces out ! j) = x_mask (kept ! j)
          \<and> x_who (nfs4_raw_aces out ! j) = x_who (kept ! j)
          \<and> x_flags (nfs4_raw_aces out ! j) AND NFS4_ACE_INHERITED_ACE \<noteq> 0
          \<and> (if is_dir \<and> x_flags (kept ! j) AND NFS4_ACE_NO_PROPAGATE_INHERIT_ACE = 0
             then x_flags (nfs4_raw_aces out ! j)
                    = (x_flags (kept ! j) AND NOT NFS4_ACE_INHERIT_ONLY_ACE) OR NFS4_ACE_INHERITED_ACE
                \<and> x_flags (nfs4_raw_aces out ! j) AND NFS4_ACE_INHERIT_ONLY_ACE = 0
                \<and> x_flags (nfs4_raw_aces out ! j)
                      AND (NFS4_ACE_FILE_INHERIT_ACE OR NFS4_ACE_DIRECTORY_INHERIT_ACE)
                    = x_flags (kept ! j)
                      AND (NFS4_ACE_FILE_INHERIT_ACE OR NFS4_ACE_DIRECTORY_INHERIT_ACE)
             else x_flags (nfs4_raw_aces out ! j)
                    = (x_flags (kept ! j) AND NOT (NFS4_ACE_FILE_INHERIT_ACE
                         OR NFS4_ACE_DIRECTORY_INHERIT_ACE OR NFS4_ACE_NO_PROPAGATE_INHERIT_ACE
                         OR NFS4_ACE_INHERIT_ONLY_ACE)) OR NFS4_ACE_INHERITED_ACE
                \<and> x_flags (nfs4_raw_aces out ! j) AND (NFS4_ACE_FILE_INHERIT_ACE
                         OR NFS4_ACE_DIRECTORY_INHERIT_ACE OR NFS4_ACE_NO_PROPAGATE_INHERIT_ACE
                         OR NFS4_ACE_INHERIT_ONLY_ACE) = 0))))"
proof (intro conjI allI impI)
  fix f :: u32
  show "ace_is_inheritable f False \<longleftrightarrow> f AND NFS4_ACE_FILE_INHERIT_ACE \<noteq> 0"
    by (simp add: ace_is_inheritable_def)
  show "ace_is_inheritable f True \<longleftrightarrow>
          f AND NFS4_ACE_FILE_INHERIT_ACE \<noteq> 0 \<or> f AND NFS4_ACE_DIRECTORY_INHERIT_ACE \<noteq> 0"
    by (simp add: ace_is_inheritable_def bit.conj_disj_distrib or_eq_0_iff)
next
  assume "kept = []"
  then show "\<exists>msg. NFS4ACL_generate_inherited_acl data is_dir = Inl (ValueError msg)"
    unfolding generate_inherited_char kept_def by simp
next
  assume ne: "kept \<noteq> []"
  let ?tr = "\<lambda>a. a\<lparr>x_flags := inherit_new_flags (x_flags a) is_dir\<rparr>"
  let ?fl = "if is_dir then NFS4_ACL_IS_DIR else 0"
  let ?out = "htobe32 ?fl @ htobe32 (word_of_nat (length (map ?tr kept)))
                @ concat (map nfs4_xdr_bytes (map ?tr kept))"
  have len8: "\<not> length data < NFS4_HDR_SZ"
    using ne by (auto simp: kept_def nfs4_raw_aces_def)
  have gen: "NFS4ACL_generate_inherited_acl data is_dir = Inr ?out"
    unfolding generate_inherited_char using ne len8 by (simp add: kept_def)
  have "length kept \<le> length (nfs4_raw_aces data)"
    unfolding kept_def by (rule length_filter_le)
  then have bound: "length (map ?tr kept) < 2 ^ 32"
    using nfs4_raw_aces_bound [of data] by simp
  have raw: "nfs4_raw_aces ?out = map ?tr kept"
    by (rule nfs4_raw_aces_pack [OF bound])
  have fl: "NFS4ACL_get_acl_flags ?out = Inr ?fl"
    by (simp add: NFS4ACL_get_acl_flags_def NFS4_HDR_SZ_def be32_at_0)
  have dirbit: "(?fl AND NFS4_ACL_IS_DIR \<noteq> 0) \<longleftrightarrow> is_dir"
    by (simp add: NFS4_ACL_IS_DIR_def)
  have per: "\<forall>j<length kept.
            x_type (map ?tr kept ! j) = x_type (kept ! j)
          \<and> x_iflag (map ?tr kept ! j) = x_iflag (kept ! j)
          \<and> x_mask (map ?tr kept ! j) = x_mask (kept ! j)
          \<and> x_who (map ?tr kept ! j) = x_who (kept ! j)
          \<and> x_flags (map ?tr kept ! j) AND NFS4_ACE_INHERITED_ACE \<noteq> 0
          \<and> (if is_dir \<and> x_flags (kept ! j) AND NFS4_ACE_NO_PROPAGATE_INHERIT_ACE = 0
             then x_flags (map ?tr kept ! j)
                    = (x_flags (kept ! j) AND NOT NFS4_ACE_INHERIT_ONLY_ACE) OR NFS4_ACE_INHERITED_ACE
                \<and> x_flags (map ?tr kept ! j) AND NFS4_ACE_INHERIT_ONLY_ACE = 0
                \<and> x_flags (map ?tr kept ! j)
                      AND (NFS4_ACE_FILE_INHERIT_ACE OR NFS4_ACE_DIRECTORY_INHERIT_ACE)
                    = x_flags (kept ! j)
                      AND (NFS4_ACE_FILE_INHERIT_ACE OR NFS4_ACE_DIRECTORY_INHERIT_ACE)
             else x_flags (map ?tr kept ! j)
                    = (x_flags (kept ! j) AND NOT (NFS4_ACE_FILE_INHERIT_ACE
                         OR NFS4_ACE_DIRECTORY_INHERIT_ACE OR NFS4_ACE_NO_PROPAGATE_INHERIT_ACE
                         OR NFS4_ACE_INHERIT_ONLY_ACE)) OR NFS4_ACE_INHERITED_ACE
                \<and> x_flags (map ?tr kept ! j) AND (NFS4_ACE_FILE_INHERIT_ACE
                         OR NFS4_ACE_DIRECTORY_INHERIT_ACE OR NFS4_ACE_NO_PROPAGATE_INHERIT_ACE
                         OR NFS4_ACE_INHERIT_ONLY_ACE) = 0)"
    using inherit_flag_bits
    by (simp add: inherit_new_flags_def NFS4_ACE_INHERIT_MASK_def)
  show "\<exists>out fl.
        NFS4ACL_generate_inherited_acl data is_dir = Inr out
      \<and> NFS4ACL_get_acl_flags out = Inr fl
      \<and> (fl AND NFS4_ACL_IS_DIR \<noteq> 0 \<longleftrightarrow> is_dir)
      \<and> length (nfs4_raw_aces out) = length kept
      \<and> (\<forall>j<length kept.
            x_type (nfs4_raw_aces out ! j) = x_type (kept ! j)
          \<and> x_iflag (nfs4_raw_aces out ! j) = x_iflag (kept ! j)
          \<and> x_mask (nfs4_raw_aces out ! j) = x_mask (kept ! j)
          \<and> x_who (nfs4_raw_aces out ! j) = x_who (kept ! j)
          \<and> x_flags (nfs4_raw_aces out ! j) AND NFS4_ACE_INHERITED_ACE \<noteq> 0
          \<and> (if is_dir \<and> x_flags (kept ! j) AND NFS4_ACE_NO_PROPAGATE_INHERIT_ACE = 0
             then x_flags (nfs4_raw_aces out ! j)
                    = (x_flags (kept ! j) AND NOT NFS4_ACE_INHERIT_ONLY_ACE) OR NFS4_ACE_INHERITED_ACE
                \<and> x_flags (nfs4_raw_aces out ! j) AND NFS4_ACE_INHERIT_ONLY_ACE = 0
                \<and> x_flags (nfs4_raw_aces out ! j)
                      AND (NFS4_ACE_FILE_INHERIT_ACE OR NFS4_ACE_DIRECTORY_INHERIT_ACE)
                    = x_flags (kept ! j)
                      AND (NFS4_ACE_FILE_INHERIT_ACE OR NFS4_ACE_DIRECTORY_INHERIT_ACE)
             else x_flags (nfs4_raw_aces out ! j)
                    = (x_flags (kept ! j) AND NOT (NFS4_ACE_FILE_INHERIT_ACE
                         OR NFS4_ACE_DIRECTORY_INHERIT_ACE OR NFS4_ACE_NO_PROPAGATE_INHERIT_ACE
                         OR NFS4_ACE_INHERIT_ONLY_ACE)) OR NFS4_ACE_INHERITED_ACE
                \<and> x_flags (nfs4_raw_aces out ! j) AND (NFS4_ACE_FILE_INHERIT_ACE
                         OR NFS4_ACE_DIRECTORY_INHERIT_ACE OR NFS4_ACE_NO_PROPAGATE_INHERIT_ACE
                         OR NFS4_ACE_INHERIT_ONLY_ACE) = 0))"
    apply (rule exI [of _ ?out], rule exI [of _ ?fl])
    apply (intro conjI)
        apply (rule gen)
       apply (rule fl)
      apply (rule dirbit)
     apply (subst raw, simp)
    apply (simp only: raw)
    apply (rule per)
    done
qed

lemma ex_parent_raw:
  "nfs4_raw_aces ex_parent_dir = [\<lparr>x_type = 0, x_flags = 0xB, x_iflag = 1, x_mask = 1, x_who = 1\<rparr>]"
  "nfs4_raw_aces ex_parent_noprop = [\<lparr>x_type = 0, x_flags = 0x5, x_iflag = 1, x_mask = 1, x_who = 1\<rparr>]"
  using nfs4_raw_aces_pack [of "[\<lparr>x_type = 0, x_flags = 0xB, x_iflag = 1, x_mask = 1, x_who = 1\<rparr>]" 0]
        nfs4_raw_aces_pack [of "[\<lparr>x_type = 0, x_flags = 0x5, x_iflag = 1, x_mask = 1, x_who = 1\<rparr>]" 0]
  by (simp_all add: ex_parent_dir_def ex_parent_noprop_def nfs4_xdr_bytes_def)

text \<open>
  The two inheritance scenarios of the specification: a directory child of an ACE with
  \<open>FILE_INHERIT | DIRECTORY_INHERIT | INHERIT_ONLY\<close>, and a file child of an ACE with
  \<open>FILE_INHERIT | NO_PROPAGATE_INHERIT\<close>.
\<close>

theorem C2_witness:
  "(\<exists>out fl. NFS4ACL_generate_inherited_acl ex_parent_dir True = Inr out
      \<and> NFS4ACL_get_acl_flags out = Inr fl \<and> fl AND NFS4_ACL_IS_DIR \<noteq> 0
      \<and> length (nfs4_raw_aces out) = 1
      \<and> x_flags (nfs4_raw_aces out ! 0) = 0x83
      \<and> x_mask (nfs4_raw_aces out ! 0) = 1 \<and> x_who (nfs4_raw_aces out ! 0) = 1)
 \<and> (\<exists>out fl. NFS4ACL_generate_inherited_acl ex_parent_noprop False = Inr out
      \<and> NFS4ACL_get_acl_flags out = Inr fl \<and> fl AND NFS4_ACL_IS_DIR = 0
      \<and> length (nfs4_raw_aces out) = 1
      \<and> x_flags (nfs4_raw_aces out ! 0) = 0x80)"
proof
  have k: "filter (\<lambda>a. ace_is_inheritable (x_flags a) True) (nfs4_raw_aces ex_parent_dir)
      = [\<lparr>x_type = 0, x_flags = 0xB, x_iflag = 1, x_mask = 1, x_who = 1\<rparr>]"
    by (simp add: ex_parent_raw ace_is_inheritable_def NFS4_ACE_FILE_INHERIT_ACE_def
        NFS4_ACE_DIRECTORY_INHERIT_ACE_def)
  from C2_generate_inherited_acl [where data = ex_parent_dir and is_dir = True, unfolded k]
  obtain out fl where "NFS4ACL_generate_inherited_acl ex_parent_dir True = Inr out"
      "NFS4ACL_get_acl_flags out = Inr fl" "fl AND NFS4_ACL_IS_DIR \<noteq> 0"
      "length (nfs4_raw_aces out) = 1"
      "x_flags (nfs4_raw_aces out ! 0) = 0x83"
      "x_mask (nfs4_raw_aces out ! 0) = 1" "x_who (nfs4_raw_aces out ! 0) = 1"
    by (auto simp: NFS4_ACE_NO_PROPAGATE_INHERIT_ACE_def NFS4_ACE_INHERIT_ONLY_ACE_def
        NFS4_ACE_INHERITED_ACE_def)
  then show "\<exists>out fl. NFS4ACL_generate_inherited_acl ex_parent_dir True = Inr out
      \<and> NFS4ACL_get_acl_flags out = Inr fl \<and> fl AND NFS4_ACL_IS_DIR \<noteq> 0
      \<and> length (nfs4_raw_aces out) = 1
      \<and> x_flags (nfs4_raw_aces out ! 0) = 0x83
      \<and> x_mask (nfs4_raw_aces out ! 0) = 1 \<and> x_who (nfs4_raw_aces out ! 0) = 1"
    by blast
next
  have k: "filter (\<lambda>a. ace_is_inheritable (x_flags a) False) (nfs4_raw_aces ex_parent_noprop)
      = [\<lparr>x_type = 0, x_flags = 0x5, x_iflag = 1, x_mask = 1, x_who = 1\<rparr>]"
    by (simp add: ex_parent_raw ace_is_inheritable_def NFS4_ACE_FILE_INHERIT_ACE_def)
  from C2_generate_inherited_acl [where data = ex_parent_noprop and is_dir = False, unfolded k]
  obtain out fl where "NFS4ACL_generate_inherited_acl ex_parent_noprop False = Inr out"
      "NFS4ACL_get_acl_flags out = Inr fl" "fl AND NFS4_ACL_IS_DIR = 0"
      "length (nfs4_raw_aces out) = 1"
      "x_flags (nfs4_raw_aces out ! 0) = 0x80"
    by (auto simp: NFS4_ACE_NO_PROPAGATE_INHERIT_ACE_def NFS4_ACE_INHERIT_ONLY_ACE_def
        NFS4_ACE_INHERITED_ACE_def NFS4_ACE_FILE_INHERIT_ACE_def NFS4_ACE_DIRECTORY_INHERIT_ACE_def)
  then show "\<exists>out fl. NFS4ACL_generate_inherited_acl ex_parent_noprop False = Inr out
      \<and> NFS4ACL_get_acl_flags out = Inr fl \<and> fl AND NFS4_ACL_IS_DIR = 0
      \<and> length (nfs4_raw_aces out) = 1
      \<and> x_flags (nfs4_raw_aces out ! 0) = 0x80"
    by blast
qed

section \<open>NFSv4: the ACE order of the ACL that \<open>from_aces\<close> returns\<close>

lemma nfs4ace_encode_xdr:
  assumes "nfs4ace_long_ok a"
  shows "nfs4ace_encode a = Inr (nfs4_xdr_bytes (nfs4ace_xdr a))"
  using assms
  by (simp add: nfs4ace_encode_def nfs4ace_long_ok_def PyLong_AsLong_ok Let_def
      nfs4_xdr_bytes_def nfs4ace_xdr_def)

lemma uint_word_of_int_u32:
  assumes "0 \<le> v" "v < 2 ^ 32"
  shows "uint (word_of_int v :: u32) = v"
  using assms by (simp add: uint_word_of_int)

lemma nfs4ace_decode_xdr:
  assumes "nfs4ace_wire_ok a"
  shows "nfs4ace_decode (nfs4ace_xdr a) = Inr a"
  using assms
  apply (cases a)
  apply (auto simp: nfs4ace_decode_def nfs4ace_xdr_def nfs4ace_wire_ok_def Let_def
      IntEnum_call_def IntFlag_call_def NFS4_ACL_WHO_NAMED_def uint_word_of_int_u32
      split: if_splits)
  done

lemma NFS4ACL_get_aces_pack:
  assumes n: "length xs < 2 ^ 32" and ok: "\<forall>a\<in>set xs. nfs4ace_wire_ok a"
  shows "NFS4ACL_get_aces (htobe32 f @ htobe32 (word_of_nat (length xs))
           @ concat (map nfs4_xdr_bytes (map nfs4ace_xdr xs))) = Inr xs"
proof -
  let ?ys = "map nfs4ace_xdr xs"
  let ?d = "htobe32 f @ htobe32 (word_of_nat (length xs)) @ concat (map nfs4_xdr_bytes ?ys)"
  have cnt: "unat (be32_at ?d 1) = length xs"
    using n by (simp add: be32_at_1 unat_of_nat)
  have len: "length ?d = 8 + 20 * length xs"
    using concat_xdr_length [of ?ys] by simp
  have slot: "nfs4_slot ?d i = nfs4ace_xdr (xs ! i)" if "i < length xs" for i
  proof -
    have "nfs4_slot ((htobe32 f @ htobe32 (word_of_nat (length xs))) @ concat (map nfs4_xdr_bytes ?ys)) i
          = ?ys ! i"
      by (rule nfs4_slot_pack) (use that in simp_all)
    then show ?thesis using that by simp
  qed
  have "\<forall>i\<in>set [0..<length xs]. nfs4ace_decode (nfs4_slot ?d i) = Inr (xs ! i)"
    using slot ok nfs4ace_decode_xdr by simp
  then have "map_err (\<lambda>i. nfs4ace_decode (nfs4_slot ?d i)) [0..<length xs]
             = Inr (map (\<lambda>i. xs ! i) [0..<length xs])"
    by (rule map_err_map)
  then have m: "map_err (\<lambda>i. nfs4ace_decode (nfs4_slot ?d i)) [0..<length xs] = Inr xs"
    by (simp add: map_nth)
  show ?thesis
    unfolding NFS4ACL_get_aces_def Let_def cnt
    using len m by (simp add: NFS4_HDR_SZ_def NFS4_ACE_SZ_def)
qed

text \<open>
  Claim C1.  \<open>NFS4ACL.from_aces\<close> sorts the supplied ACEs stably by the key
  \<open>2 * is_inherited + is_allow\<close> (\<open>is_inherited\<close>: flag bit \<open>0x80\<close> set,
  \<open>is_allow\<close>: type \<open>= ALLOW = 0\<close>) and packs them in that order.  Whenever every
  field of every ACE (and the optional ACL flags) fits a C \<open>long\<close>, so that no
  conversion raises, the call returns the blob whose ACE slots are the encodings of the
  sorted list; that list is ascending in the key, a permutation of the input, and keeps
  the input order inside each of the four buckets (key values 0 to 3: explicit deny,
  explicit allow, inherited deny, inherited allow).  In particular the input
  [(ALLOW, not inherited), (DENY, inherited), (DENY, not inherited), (ALLOW, inherited)]
  comes out as [(DENY, not inherited), (ALLOW, not inherited), (DENY, inherited),
  (ALLOW, inherited)].  The order is that of the resulting ACL: read back from the blob,
  slot \<open>i\<close> carries the type, flags and mask of the \<open>i\<close>-th ACE of the sorted list, and
  when every ACE fits the XDR slot the \<open>aces\<close> property of the new ACL is the sorted
  list itself.
\<close>

theorem C1_from_aces_canonical_order:
  assumes "\<forall>a\<in>set aces. nfs4ace_long_ok a"
      and "\<forall>v. acl_flags = Some v \<longrightarrow> long_ok v"
  shows "\<exists>aces_seq slots out.
      PyList_Sort NFS4Ace_richcompare aces = Inr aces_seq
    \<and> map_err nfs4ace_encode aces_seq = Inr slots
    \<and> NFS4ACL_from_aces aces acl_flags = Inr out
    \<and> out = htobe32 (case acl_flags of None \<Rightarrow> 0 | Some v \<Rightarrow> word_of_int v)
             @ htobe32 (word_of_nat (length aces)) @ concat slots
    \<and> sorted (map NFS4Ace_key aces_seq)
    \<and> mset aces_seq = mset aces
    \<and> (\<forall>k. filter (\<lambda>a. NFS4Ace_key a = k) aces_seq = filter (\<lambda>a. NFS4Ace_key a = k) aces)
    \<and> (\<forall>a. NFS4Ace_key a = 2 * (if ace_flags a AND 0x80 \<noteq> 0 then 1 else 0)
                              + (if ace_type a = 0 then 1 else 0))
    \<and> (\<forall>a. NFS4Ace_key a \<in> {0, 1, 2, 3})
    \<and> (\<forall>a b c d. aces = [a, b, c, d]
          \<and> ace_type a = 0 \<and> ace_flags a AND 0x80 = 0
          \<and> ace_type b = 1 \<and> ace_flags b AND 0x80 \<noteq> 0
          \<and> ace_type c = 1 \<and> ace_flags c AND 0x80 = 0
          \<and> ace_type d = 0 \<and> ace_flags d AND 0x80 \<noteq> 0
          \<longrightarrow> aces_seq = [c, a, b, d])
    \<and> (length aces < 2 ^ 32 \<longrightarrow>
          length (nfs4_raw_aces out) = length aces
        \<and> (\<forall>i<length aces.
              x_type (nfs4_raw_aces out ! i) = word_of_int (ace_type (aces_seq ! i))
            \<and> x_flags (nfs4_raw_aces out ! i) = word_of_int (ace_flags (aces_seq ! i))
            \<and> x_mask (nfs4_raw_aces out ! i) = word_of_int (access_mask (aces_seq ! i))
            \<and> nfs4_raw_aces out ! i = nfs4ace_xdr (aces_seq ! i)))
    \<and> (length aces < 2 ^ 32 \<and> (\<forall>a\<in>set aces. nfs4ace_wire_ok a) \<longrightarrow>
          NFS4ACL_get_aces out = Inr aces_seq)"
proof -
  let ?s = "sort_key NFS4Ace_key aces"
  let ?slots = "map nfs4_xdr_bytes (map nfs4ace_xdr ?s)"
  let ?f = "(case acl_flags of None \<Rightarrow> 0 | Some v \<Rightarrow> word_of_int v) :: u32"
  let ?out = "htobe32 ?f @ htobe32 (word_of_nat (length aces)) @ concat ?slots"
  have sort: "PyList_Sort NFS4Ace_richcompare aces = Inr ?s"
    by (rule PyList_Sort_key) (use assms(1) in \<open>simp add: NFS4Ace_richcompare_lt\<close>)
  have "\<forall>a\<in>set ?s. nfs4ace_encode a = Inr (nfs4_xdr_bytes (nfs4ace_xdr a))"
    using assms(1) by (simp add: nfs4ace_encode_xdr)
  then have "map_err nfs4ace_encode ?s = Inr (map (\<lambda>a. nfs4_xdr_bytes (nfs4ace_xdr a)) ?s)"
    by (rule map_err_map)
  then have slots: "map_err nfs4ace_encode ?s = Inr ?slots"
    by (simp add: comp_def)
  have flags: "(case acl_flags of None \<Rightarrow> Inr 0 | Some v \<Rightarrow> PyLong_AsLong v)
      = Inr (case acl_flags of None \<Rightarrow> 0 | Some v \<Rightarrow> v)"
    using assms(2) by (cases acl_flags) (simp_all add: PyLong_AsLong_ok)
  have fa: "NFS4ACL_from_aces aces acl_flags = Inr ?out"
    unfolding NFS4ACL_from_aces_def sort flags using slots
    by (cases acl_flags) simp_all
  have ex: "aces = [a, b, c, d]
          \<and> ace_type a = 0 \<and> ace_flags a AND 0x80 = 0
          \<and> ace_type b = 1 \<and> ace_flags b AND 0x80 \<noteq> 0
          \<and> ace_type c = 1 \<and> ace_flags c AND 0x80 = 0
          \<and> ace_type d = 0 \<and> ace_flags d AND 0x80 \<noteq> 0
          \<longrightarrow> ?s = [c, a, b, d]" for a b c d
    by (auto simp: NFS4Ace_key_def nfs4_key_def NFS4_ACE_ACCESS_ALLOWED_ACE_TYPE_def)
  have key: "NFS4Ace_key a = 2 * (if ace_flags a AND 0x80 \<noteq> 0 then 1 else 0)
                              + (if ace_type a = 0 then 1 else 0)" for a
    by (simp add: NFS4Ace_key_def nfs4_key_def NFS4_ACE_ACCESS_ALLOWED_ACE_TYPE_def)
  have rng: "NFS4Ace_key a \<in> {0, 1, 2, 3}" for a
    unfolding NFS4Ace_key_def by (rule nfs4_key_range)
  have out_len: "?out = htobe32 ?f @ htobe32 (word_of_nat (length (map nfs4ace_xdr ?s)))
                   @ concat (map nfs4_xdr_bytes (map nfs4ace_xdr ?s))"
    by simp
  have raw: "nfs4_raw_aces ?out = map nfs4ace_xdr ?s" if "length aces < 2 ^ 32"
    unfolding out_len by (rule nfs4_raw_aces_pack) (use that in simp)
  have rawf: "length (nfs4_raw_aces ?out) = length aces
        \<and> (\<forall>i<length aces.
              x_type (nfs4_raw_aces ?out ! i) = word_of_int (ace_type (?s ! i))
            \<and> x_flags (nfs4_raw_aces ?out ! i) = word_of_int (ace_flags (?s ! i))
            \<and> x_mask (nfs4_raw_aces ?out ! i) = word_of_int (access_mask (?s ! i))
            \<and> nfs4_raw_aces ?out ! i = nfs4ace_xdr (?s ! i))"
    if "length aces < 2 ^ 32"
    unfolding raw [OF that] by (simp add: nfs4ace_xdr_def)
  have out_len2: "?out = htobe32 ?f @ htobe32 (word_of_nat (length ?s))
                   @ concat (map nfs4_xdr_bytes (map nfs4ace_xdr ?s))"
    by simp
  have dec: "NFS4ACL_get_aces ?out = Inr ?s"
    if "length aces < 2 ^ 32 \<and> (\<forall>a\<in>set aces. nfs4ace_wire_ok a)"
    unfolding out_len2 by (rule NFS4ACL_get_aces_pack) (use that in simp_all)
  show ?thesis
    apply (rule exI [of _ ?s], rule exI [of _ ?slots], rule exI [of _ ?out])
    apply (intro conjI)
               apply (rule sort)
              apply (rule slots)
             apply (rule fa)
            apply (rule refl)
           apply (rule sorted_sort_key)
          apply (rule mset_sort)
         apply (rule allI, rule sort_key_stable)
        apply (rule allI, rule key)
       apply (rule allI, rule rng)
      apply (intro allI, rule ex)
     apply (rule impI, erule rawf)
    apply (rule impI, erule dec)
    done
qed

text \<open>The scenario of the specification, run through the theorem and read back.\<close>

theorem C1_witness:
  "PyList_Sort NFS4Ace_richcompare [ex_allow, ex_deny_inh, ex_deny, ex_allow_inh]
     = Inr [ex_deny, ex_allow, ex_deny_inh, ex_allow_inh]
   \<and> (\<exists>out. NFS4ACL_from_aces [ex_allow, ex_deny_inh, ex_deny, ex_allow_inh] None = Inr out
          \<and> NFS4ACL_get_aces out = Inr [ex_deny, ex_allow, ex_deny_inh, ex_allow_inh])"
proof -
  let ?in = "[ex_allow, ex_deny_inh, ex_deny, ex_allow_inh]"
  have ok: "\<forall>a\<in>set ?in. nfs4ace_long_ok a"
    by (simp add: nfs4ace_long_ok_def long_ok_def ex_allow_def ex_deny_inh_def ex_deny_def ex_allow_inh_def)
  have fl: "\<forall>v. (None :: int option) = Some v \<longrightarrow> long_ok v" by simp
  have wire: "length ?in < 2 ^ 32 \<and> (\<forall>a\<in>set ?in. nfs4ace_wire_ok a)"
    by (simp add: nfs4ace_wire_ok_def NFS4_ACL_WHO_NAMED_def ex_allow_def ex_deny_inh_def
        ex_deny_def ex_allow_inh_def)
  from C1_from_aces_canonical_order [OF ok fl]
  obtain aces_seq out where s: "PyList_Sort NFS4Ace_richcompare ?in = Inr aces_seq"
    and fa: "NFS4ACL_from_aces ?in None = Inr out"
    and e: "\<forall>a b c d. ?in = [a, b, c, d]
          \<and> ace_type a = 0 \<and> ace_flags a AND 0x80 = 0
          \<and> ace_type b = 1 \<and> ace_flags b AND 0x80 \<noteq> 0
          \<and> ace_type c = 1 \<and> ace_flags c AND 0x80 = 0
          \<and> ace_type d = 0 \<and> ace_flags d AND 0x80 \<noteq> 0
          \<longrightarrow> aces_seq = [c, a, b, d]"
    and d: "length ?in < 2 ^ 32 \<and> (\<forall>a\<in>set ?in. nfs4ace_wire_ok a) \<longrightarrow>
          NFS4ACL_get_aces out = Inr aces_seq"
    by (elim exE conjE) (rule that; assumption)
  have q: "aces_seq = [ex_deny, ex_allow, ex_deny_inh, ex_allow_inh]"
    by (rule e [rule_format]) (simp add: ex_allow_def ex_deny_inh_def ex_deny_def ex_allow_inh_def)
  have "NFS4ACL_get_aces out = Inr aces_seq"
    using d wire by (rule mp)
  with s fa q show ?thesis by simp
qed

section \<open>POSIX: canonical order and wire format\<close>

lemma le32_roundtrip: "read_le32 (write_le32 w @ rest) = w"
  unfolding read_le32_def write_le32_def
  apply simp
  apply (rule bit_word_eqI)
  apply (simp add: bit_simps)
  subgoal for n
    by (cases "n < 8"; cases "n < 16"; cases "n < 24"; auto)
  done

lemma le16_roundtrip: "read_le16 (write_le16 w @ rest) = w"
  unfolding read_le16_def write_le16_def
  apply simp
  apply (rule bit_word_eqI)
  apply (simp add: bit_simps)
  subgoal for n
    by (cases "n < 8"; auto)
  done

lemma posix_wire_bytes_length [simp]: "length (posix_wire_bytes r) = 8"
  by (simp add: posix_wire_bytes_def write_le16_def write_le32_def)

lemma write_le32_length [simp]: "length (write_le32 v) = 4"
  by (simp add: write_le32_def)

lemma concat_wire_length: "length (concat (map posix_wire_bytes rs)) = 8 * length rs"
  by (induction rs) auto

lemma posix_slot_bytes:
  assumes "length pre = 4 + 8 * i"
  shows "posix_slot (pre @ posix_wire_bytes r @ rest) i = r"
proof -
  have d: "drop (POSIX_HDR_SZ + i * POSIX_ACE_SZ) (pre @ posix_wire_bytes r @ rest) = posix_wire_bytes r @ rest"
    using assms by (simp add: POSIX_HDR_SZ_def POSIX_ACE_SZ_def)
  have b: "posix_wire_bytes r @ rest = write_le16 (e_tag r) @ (write_le16 (e_perm r) @ write_le32 (e_id r) @ rest)"
    by (simp add: posix_wire_bytes_def)
  have d2: "drop 2 (posix_wire_bytes r @ rest) = write_le16 (e_perm r) @ (write_le32 (e_id r) @ rest)"
    by (simp add: posix_wire_bytes_def write_le16_def)
  have d4: "drop 4 (posix_wire_bytes r @ rest) = write_le32 (e_id r) @ rest"
    by (simp add: posix_wire_bytes_def write_le16_def)
  show ?thesis
    unfolding posix_slot_def Let_def d d2 d4
    unfolding b le16_roundtrip le32_roundtrip by simp
qed

lemma posix_slot_pack:
  assumes "length hdr = 4" "j < length rs"
  shows "posix_slot (hdr @ concat (map posix_wire_bytes rs)) j = rs ! j"
proof -
  have rs: "rs = take j rs @ (rs ! j) # drop (Suc j) rs"
    using assms(2) by (simp add: id_take_nth_drop)
  have len: "length (concat (map posix_wire_bytes (take j rs))) = 8 * j"
    using assms(2) by (simp add: concat_wire_length)
  have "hdr @ concat (map posix_wire_bytes rs) =
        (hdr @ concat (map posix_wire_bytes (take j rs))) @ posix_wire_bytes (rs ! j)
          @ concat (map posix_wire_bytes (drop (Suc j) rs))"
    by (subst rs) simp
  then show ?thesis
    using posix_slot_bytes [of "hdr @ concat (map posix_wire_bytes (take j rs))" j "rs ! j"] assms(1) len
    by simp
qed

lemma posix_entries_pack:
  "posix_entries (write_le32 v @ concat (map posix_wire_bytes rs)) = rs"
proof -
  let ?d = "write_le32 v @ concat (map posix_wire_bytes rs)"
  have l: "(length ?d - POSIX_HDR_SZ) div POSIX_ACE_SZ = length rs"
    by (simp add: concat_wire_length POSIX_HDR_SZ_def POSIX_ACE_SZ_def)
  have "posix_entries ?d = map (posix_slot ?d) [0..<length rs]"
    unfolding posix_entries_def l ..
  also have "\<dots> = map ((!) rs) [0..<length rs]"
    by (rule map_cong) (simp_all add: posix_slot_pack)
  also have "\<dots> = rs" by (rule map_nth)
  finally show ?thesis .
qed

lemma encode_posix_ace_ok:
  assumes "posixace_long_ok a"
  shows "encode_posix_ace a = Inr (posix_wire_bytes (posix_wire a))"
  using assms
  by (simp add: encode_posix_ace_def posixace_long_ok_def PyLong_AsLong_ok Let_def
      posix_wire_bytes_def posix_wire_def)

lemma encode_posix_aces_ok:
  assumes "\<forall>a\<in>set xs. posixace_long_ok a"
  shows "encode_posix_aces xs = Inr (write_le32 POSIX_ACL_VERSION @ concat (map posix_wire_bytes (map posix_wire xs)))"
proof -
  have "map_err encode_posix_ace xs = Inr (map (\<lambda>a. posix_wire_bytes (posix_wire a)) xs)"
    by (rule map_err_map) (use assms in \<open>simp add: encode_posix_ace_ok\<close>)
  then show ?thesis by (simp add: encode_posix_aces_def comp_def)
qed

lemma POSIXAce_richcompare_lt:
  assumes "posixace_long_ok a" "posixace_long_ok b"
  shows "POSIXAce_richcompare a b Py_LT = Inr (POSIXAce_key a < POSIXAce_key b)"
  using assms
  by (auto simp add: POSIXAce_richcompare_def posixace_long_ok_def PyLong_AsLong_ok POSIXAce_key_def
      cmp_result_def Let_def)

lemma parse_posix_ace_wire:
  assumes "posixace_representable a"
  shows "parse_posix_ace (ace_default a) (posix_wire a) = Inr a"
proof -
  have t: "tag a \<in> {1, 2, 4, 8, 16, 32}"
    using assms by (simp add: posixace_representable_def posix_tag_table_def)
  then have tu: "uint (word_of_int (tag a) :: u16) = tag a"
    by (auto simp: uint_word_of_int_eq)
  have pu: "uint (word_of_int (perms a) :: u16) = perms a"
    using assms by (simp add: posixace_representable_def uint_word_of_int_eq take_bit_int_eq_self)
  have idv: "(if e_id (posix_wire a) = POSIX_SPECIAL_ID then - 1 else uint (e_id (posix_wire a))) = ace_id a"
  proof (cases "is_special_tag (tag a)")
    case True
    then show ?thesis using assms by (simp add: posix_wire_def posixace_representable_def)
  next
    case False
    then have r: "0 \<le> ace_id a" "ace_id a < 2 ^ 32 - 1"
      using assms by (simp_all add: posixace_representable_def)
    then have u: "uint (word_of_int (ace_id a) :: u32) = ace_id a"
      by (simp add: uint_word_of_int_eq take_bit_int_eq_self)
    have "uint (word_of_int (ace_id a) :: u32) \<noteq> uint (0xFFFFFFFF :: u32)"
      unfolding u using r by simp
    then have "(word_of_int (ace_id a) :: u32) \<noteq> 0xFFFFFFFF" by auto
    then show ?thesis using False u by (simp add: posix_wire_def POSIX_SPECIAL_ID_def)
  qed
  show ?thesis
    unfolding parse_posix_ace_def Let_def idv
    using t by (simp add: posix_wire_def tu pu IntEnum_call_def IntFlag_call_def posix_tag_table_def)
qed

lemma parse_posix_aces_roundtrip:
  assumes "\<forall>a\<in>set xs. posixace_representable a \<and> ace_default a = d"
  shows "parse_posix_aces (write_le32 v @ concat (map posix_wire_bytes (map posix_wire xs))) d = Inr xs"
proof -
  let ?b = "write_le32 v @ concat (map posix_wire_bytes (map posix_wire xs))"
  have l: "(length ?b - POSIX_HDR_SZ) div POSIX_ACE_SZ = length xs"
    using concat_wire_length [of "map posix_wire xs"]
    by (simp add: POSIX_HDR_SZ_def POSIX_ACE_SZ_def del: map_map)
  have s: "posix_slot ?b i = posix_wire (xs ! i)" if "i < length xs" for i
    using posix_slot_pack [of "write_le32 v" i "map posix_wire xs"] that by simp
  have "map_err (\<lambda>i. parse_posix_ace d (posix_slot ?b i)) [0..<length xs] = Inr (map ((!) xs) [0..<length xs])"
  proof (rule map_err_map, rule ballI)
    fix i assume "i \<in> set [0..<length xs]"
    then have i: "i < length xs" by simp
    then have "posixace_representable (xs ! i)" "ace_default (xs ! i) = d"
      using assms by simp_all
    then show "parse_posix_ace d (posix_slot ?b i) = Inr (xs ! i)"
      using parse_posix_ace_wire [of "xs ! i"] s [OF i] by simp
  qed
  then have "map_err (\<lambda>i. parse_posix_ace d (posix_slot ?b i)) [0..<length xs] = Inr xs"
    by (simp add: map_nth)
  then show ?thesis
    unfolding parse_posix_aces_def Let_def l
    by (simp add: POSIX_HDR_SZ_def)
qed

lemma POSIXACL_from_aces_char:
  assumes "\<forall>a\<in>set aces. posixace_long_ok a"
  shows "POSIXACL_from_aces aces =
     Inr \<lparr>access_data = write_le32 POSIX_ACL_VERSION @ concat (map posix_wire_bytes
                (map posix_wire (sort_key POSIXAce_key (filter (\<lambda>a. \<not> ace_default a) aces)))),
          default_data =
            (if filter ace_default aces = [] then None
             else Some (write_le32 POSIX_ACL_VERSION @ concat (map posix_wire_bytes
                (map posix_wire (sort_key POSIXAce_key (filter ace_default aces))))))\<rparr>"
proof -
  have sa: "PyList_Sort POSIXAce_richcompare (filter (\<lambda>a. \<not> ace_default a) aces)
      = Inr (sort_key POSIXAce_key (filter (\<lambda>a. \<not> ace_default a) aces))"
    by (rule PyList_Sort_key) (use assms in \<open>simp add: POSIXAce_richcompare_lt\<close>)
  have sd: "PyList_Sort POSIXAce_richcompare (filter ace_default aces)
      = Inr (sort_key POSIXAce_key (filter ace_default aces))"
    by (rule PyList_Sort_key) (use assms in \<open>simp add: POSIXAce_richcompare_lt\<close>)
  have ea: "encode_posix_aces (sort_key POSIXAce_key (filter (\<lambda>a. \<not> ace_default a) aces)) =
      Inr (write_le32 POSIX_ACL_VERSION @ concat (map posix_wire_bytes
                (map posix_wire (sort_key POSIXAce_key (filter (\<lambda>a. \<not> ace_default a) aces)))))"
    by (rule encode_posix_aces_ok) (use assms in simp)
  have ed: "encode_posix_aces (sort_key POSIXAce_key (filter ace_default aces)) =
      Inr (write_le32 POSIX_ACL_VERSION @ concat (map posix_wire_bytes
                (map posix_wire (sort_key POSIXAce_key (filter ace_default aces)))))"
    by (rule encode_posix_aces_ok) (use assms in simp)
  have e: "(sort_key POSIXAce_key (filter ace_default aces) = []) = (filter ace_default aces = [])"
    by (metis length_0_conv length_sort)
  show ?thesis
    unfolding POSIXACL_from_aces_def Let_def sa sd
    using ea ed e by simp
qed

lemma POSIXAce_key_le:
  "POSIXAce_key a \<le> POSIXAce_key b \<longleftrightarrow> tag a < tag b \<or> (tag a = tag b \<and> ace_id a \<le> ace_id b)"
  by (auto simp: POSIXAce_key_def)

text \<open>
  Claim C3, as amended.  Whenever the tag, permission and id of every ACE fit a C
  \<open>long\<close> (so that no conversion raises), \<open>POSIXACL.from_aces\<close> returns an ACL built
  as follows.  The ACEs are split by their default flag; the access list and the default
  list are each sorted stably by (tag ascending, id ascending); each list is written as
  a 4-byte little-endian version word 2 followed by one 8-byte record
  \<open>(tag:u16, perm:u16, id:u32)\<close> per ACE, and the default blob is absent when there is
  no default ACE.  The result is a function of the input.  Decoding the two blobs gives
  back exactly the sorted lists provided every ACE is representable on the wire: its tag
  is one of the six tags, its permissions fit 16 bits, a special-tag ACE has id \<open>-1\<close>
  and a \<open>USER\<close> or \<open>GROUP\<close> ACE has an id between 0 and \<open>2^32 - 2\<close>.  For the
  input \<open>[(OTHER, 0, -1), (USER_OBJ, R|W, -1), (GROUP_OBJ, R, -1)]\<close> the access blob
  decodes to \<open>[USER_OBJ(R|W), GROUP_OBJ(R), OTHER(0)]\<close> and there is no default blob.
\<close>

theorem C3_from_aces_amended:
  assumes ok: "\<forall>a\<in>set aces. posixace_long_ok a"
  shows "\<exists>acc dfl acl.
      PyList_Sort POSIXAce_richcompare (filter (\<lambda>a. \<not> ace_default a) aces) = Inr acc
    \<and> PyList_Sort POSIXAce_richcompare (filter ace_default aces) = Inr dfl
    \<and> POSIXACL_from_aces aces = Inr acl
    \<and> sorted (map POSIXAce_key acc) \<and> mset acc = mset (filter (\<lambda>a. \<not> ace_default a) aces)
    \<and> (\<forall>k. filter (\<lambda>a. POSIXAce_key a = k) acc
             = filter (\<lambda>a. POSIXAce_key a = k) (filter (\<lambda>a. \<not> ace_default a) aces))
    \<and> sorted (map POSIXAce_key dfl) \<and> mset dfl = mset (filter ace_default aces)
    \<and> (\<forall>k. filter (\<lambda>a. POSIXAce_key a = k) dfl
             = filter (\<lambda>a. POSIXAce_key a = k) (filter ace_default aces))
    \<and> (\<forall>a b. POSIXAce_key a \<le> POSIXAce_key b
           \<longleftrightarrow> tag a < tag b \<or> (tag a = tag b \<and> ace_id a \<le> ace_id b))
    \<and> read_le32 (access_data acl) = 2
    \<and> length (access_data acl) = 4 + 8 * length acc
    \<and> posix_entries (access_data acl) = map posix_wire acc
    \<and> (dfl = [] \<longrightarrow> default_data acl = None)
    \<and> (dfl \<noteq> [] \<longrightarrow> (\<exists>d. default_data acl = Some d \<and> read_le32 d = 2
           \<and> length d = 4 + 8 * length dfl \<and> posix_entries d = map posix_wire dfl))
    \<and> (\<forall>aces'. aces' = aces \<longrightarrow> POSIXACL_from_aces aces' = Inr acl)
    \<and> ((\<forall>a\<in>set aces. posixace_representable a)
          \<longrightarrow> POSIXACL_get_aces acl = Inr acc \<and> POSIXACL_get_default_aces acl = Inr dfl)
    \<and> (aces = ex_posix_aces \<longrightarrow>
          POSIXACL_get_aces acl =
            Inr [\<lparr>tag = 0x01, perms = 6, ace_id = - 1, ace_default = False\<rparr>,
                 \<lparr>tag = 0x04, perms = 4, ace_id = - 1, ace_default = False\<rparr>,
                 \<lparr>tag = 0x20, perms = 0, ace_id = - 1, ace_default = False\<rparr>]
          \<and> default_data acl = None)"
proof -
  let ?A = "filter (\<lambda>a. \<not> ace_default a) aces"
  let ?D = "filter ace_default aces"
  let ?acc = "sort_key POSIXAce_key ?A"
  let ?dfl = "sort_key POSIXAce_key ?D"
  let ?enc = "\<lambda>xs. write_le32 POSIX_ACL_VERSION @ concat (map posix_wire_bytes (map posix_wire xs))"
  let ?acl = "\<lparr>access_data = ?enc ?acc,
               default_data = (if ?D = [] then None else Some (?enc ?dfl))\<rparr>"
  have sa: "PyList_Sort POSIXAce_richcompare ?A = Inr ?acc"
    by (rule PyList_Sort_key) (use ok in \<open>simp add: POSIXAce_richcompare_lt\<close>)
  have sd: "PyList_Sort POSIXAce_richcompare ?D = Inr ?dfl"
    by (rule PyList_Sort_key) (use ok in \<open>simp add: POSIXAce_richcompare_lt\<close>)
  have fa: "POSIXACL_from_aces aces = Inr ?acl"
    by (rule POSIXACL_from_aces_char [OF ok])
  have ver: "read_le32 (?enc xs) = 2" for xs
    by (simp add: le32_roundtrip POSIX_ACL_VERSION_def)
  have len: "length (?enc xs) = 4 + 8 * length xs" for xs
    using concat_wire_length [of "map posix_wire xs"] by (simp del: map_map)
  have ent: "posix_entries (?enc xs) = map posix_wire xs" for xs
    by (rule posix_entries_pack)
  have e: "(?dfl = []) = (?D = [])"
    by (metis length_0_conv length_sort)
  have rt: "POSIXACL_get_aces ?acl = Inr ?acc \<and> POSIXACL_get_default_aces ?acl = Inr ?dfl"
    if rep: "\<forall>a\<in>set aces. posixace_representable a"
  proof
    show "POSIXACL_get_aces ?acl = Inr ?acc"
      unfolding POSIXACL_get_aces_def
      using parse_posix_aces_roundtrip [of ?acc False POSIX_ACL_VERSION] rep by simp
    show "POSIXACL_get_default_aces ?acl = Inr ?dfl"
      unfolding POSIXACL_get_default_aces_def
      using parse_posix_aces_roundtrip [of ?dfl True POSIX_ACL_VERSION] rep by simp
  qed
  have ex: "POSIXACL_get_aces ?acl =
            Inr [\<lparr>tag = 0x01, perms = 6, ace_id = - 1, ace_default = False\<rparr>,
                 \<lparr>tag = 0x04, perms = 4, ace_id = - 1, ace_default = False\<rparr>,
                 \<lparr>tag = 0x20, perms = 0, ace_id = - 1, ace_default = False\<rparr>]
          \<and> default_data ?acl = None" if x: "aces = ex_posix_aces"
  proof -
    have rep: "\<forall>a\<in>set aces. posixace_representable a"
      unfolding x by (simp add: ex_posix_aces_def posixace_representable_def posix_tag_table_def
          is_special_tag_def POSIX_TAG_USER_OBJ_def POSIX_TAG_GROUP_OBJ_def POSIX_TAG_MASK_def
          POSIX_TAG_OTHER_def)
    have srt: "?acc = [\<lparr>tag = 0x01, perms = 6, ace_id = - 1, ace_default = False\<rparr>,
                 \<lparr>tag = 0x04, perms = 4, ace_id = - 1, ace_default = False\<rparr>,
                 \<lparr>tag = 0x20, perms = 0, ace_id = - 1, ace_default = False\<rparr>]"
      unfolding x by (simp add: ex_posix_aces_def POSIXAce_key_def)
    have "?D = []" unfolding x by (simp add: ex_posix_aces_def)
    then show ?thesis using rt [OF rep] srt by simp
  qed
  have a1: "read_le32 (access_data ?acl) = 2"
    using ver [of ?acc] by simp
  have a2: "length (access_data ?acl) = 4 + 8 * length ?acc"
    using len [of ?acc] by simp
  have a3: "posix_entries (access_data ?acl) = map posix_wire ?acc"
    using ent [of ?acc] by simp
  have d1: "?dfl = [] \<longrightarrow> default_data ?acl = None"
    using e by simp
  have d2: "?dfl \<noteq> [] \<longrightarrow> (\<exists>d. default_data ?acl = Some d \<and> read_le32 d = 2
           \<and> length d = 4 + 8 * length ?dfl \<and> posix_entries d = map posix_wire ?dfl)"
    using e ver [of ?dfl] len [of ?dfl] ent [of ?dfl] by simp
  have det: "\<forall>aces'. aces' = aces \<longrightarrow> POSIXACL_from_aces aces' = Inr ?acl"
    using fa by simp
  show ?thesis
    apply (rule exI [of _ ?acc], rule exI [of _ ?dfl], rule exI [of _ ?acl])
    apply (intro conjI)
                     apply (rule sa)
                    apply (rule sd)
                   apply (rule fa)
                  apply (rule sorted_sort_key)
                 apply (rule mset_sort)
                apply (rule allI, rule sort_key_stable)
               apply (rule sorted_sort_key)
              apply (rule mset_sort)
             apply (rule allI, rule sort_key_stable)
            apply (intro allI, rule POSIXAce_key_le)
           apply (rule a1)
          apply (rule a2)
         apply (rule a3)
        apply (rule d1)
       apply (rule d2)
      apply (rule det)
     apply (rule impI, erule rt)
    apply (rule impI, erule ex)
    done
qed

lemma ex_id5_eval:
  "POSIXACL_from_aces [ex_posix_user_obj_id5] =
     Inr \<lparr>access_data = [2, 0, 0, 0, 1, 0, 6, 0, 0xFF, 0xFF, 0xFF, 0xFF], default_data = None\<rparr>"
  "POSIXACL_get_aces
        \<lparr>access_data = [2, 0, 0, 0, 1, 0, 6, 0, 0xFF, 0xFF, 0xFF, 0xFF], default_data = None\<rparr>
       = Inr [\<lparr>tag = 0x01, perms = 6, ace_id = - 1, ace_default = False\<rparr>]"
  by (simp_all add: POSIXACL_from_aces_def ex_posix_user_obj_id5_def POSIXAce_richcompare_def
      encode_posix_aces_def encode_posix_ace_def PyLong_AsLong_def is_special_tag_def
      POSIX_TAG_USER_OBJ_def POSIX_SPECIAL_ID_def POSIX_ACL_VERSION_def write_le32_def write_le16_def
      POSIXACL_get_aces_def parse_posix_aces_def POSIX_HDR_SZ_def POSIX_ACE_SZ_def
      parse_posix_ace_def posix_slot_def read_le16_def read_le32_def IntEnum_call_def
      IntFlag_call_def posix_tag_table_def Let_def)

text \<open>
  The round trip of the claim as stated fails for an ACE outside that set:
  \<open>USER_OBJ\<close> with id 5 is encoded with the special id and decodes with id \<open>-1\<close>.
\<close>

theorem C3_counterexample:
  "POSIXACL_from_aces [ex_posix_user_obj_id5] =
     Inr \<lparr>access_data = [2, 0, 0, 0, 1, 0, 6, 0, 0xFF, 0xFF, 0xFF, 0xFF], default_data = None\<rparr>
   \<and> POSIXACL_get_aces
        \<lparr>access_data = [2, 0, 0, 0, 1, 0, 6, 0, 0xFF, 0xFF, 0xFF, 0xFF], default_data = None\<rparr>
       = Inr [\<lparr>tag = 0x01, perms = 6, ace_id = - 1, ace_default = False\<rparr>]
   \<and> ace_id ex_posix_user_obj_id5 = 5"
  using ex_id5_eval by (simp add: ex_posix_user_obj_id5_def)

text \<open>The round-trip scenario of the specification, through the theorem.\<close>

theorem C3_witness:
  "\<exists>acl. POSIXACL_from_aces ex_posix_aces = Inr acl
     \<and> POSIXACL_get_aces acl =
            Inr [\<lparr>tag = 0x01, perms = 6, ace_id = - 1, ace_default = False\<rparr>,
                 \<lparr>tag = 0x04, perms = 4, ace_id = - 1, ace_default = False\<rparr>,
                 \<lparr>tag = 0x20, perms = 0, ace_id = - 1, ace_default = False\<rparr>]
     \<and> default_data acl = None"
proof -
  have ok: "\<forall>a\<in>set ex_posix_aces. posixace_long_ok a"
    by (simp add: ex_posix_aces_def posixace_long_ok_def long_ok_def)
  from C3_from_aces_amended [OF ok]
  obtain acl where "POSIXACL_from_aces ex_posix_aces = Inr acl"
    and "ex_posix_aces = ex_posix_aces \<longrightarrow>
          POSIXACL_get_aces acl =
            Inr [\<lparr>tag = 0x01, perms = 6, ace_id = - 1, ace_default = False\<rparr>,
                 \<lparr>tag = 0x04, perms = 4, ace_id = - 1, ace_default = False\<rparr>,
                 \<lparr>tag = 0x20, perms = 0, ace_id = - 1, ace_default = False\<rparr>]
          \<and> default_data acl = None"
    by (elim exE conjE)
  then show ?thesis by simp
qed

lemma posix_drop_slot:
  assumes "length hdr = 4" "j < length rs"
  shows "drop (4 + 8 * j) (hdr @ concat (map posix_wire_bytes rs))
         = posix_wire_bytes (rs ! j) @ concat (map posix_wire_bytes (drop (Suc j) rs))"
proof -
  have rs: "rs = take j rs @ (rs ! j) # drop (Suc j) rs"
    using assms(2) by (simp add: id_take_nth_drop)
  have len: "length (hdr @ concat (map posix_wire_bytes (take j rs))) = 4 + 8 * j"
    using assms by (simp add: concat_wire_length)
  have eq: "hdr @ concat (map posix_wire_bytes rs) =
        (hdr @ concat (map posix_wire_bytes (take j rs))) @ posix_wire_bytes (rs ! j)
          @ concat (map posix_wire_bytes (drop (Suc j) rs))"
    by (subst rs) simp
  have "drop (length (hdr @ concat (map posix_wire_bytes (take j rs))))
          ((hdr @ concat (map posix_wire_bytes (take j rs))) @ posix_wire_bytes (rs ! j)
          @ concat (map posix_wire_bytes (drop (Suc j) rs)))
        = posix_wire_bytes (rs ! j) @ concat (map posix_wire_bytes (drop (Suc j) rs))"
    by (rule append_eq_conv_conj [THEN iffD1, THEN conjunct2, symmetric, OF refl])
  then show ?thesis
    unfolding len eq [symmetric] .
qed

lemma special_id_bytes:
  assumes "length hdr = 4" "j < length xs" "is_special_tag (tag (xs ! j))"
  shows "take 4 (drop (4 + 8 * j + 4) (hdr @ concat (map posix_wire_bytes (map posix_wire xs))))
         = [0xFF, 0xFF, 0xFF, 0xFF]"
proof -
  have "drop (4 + 8 * j + 4) (hdr @ concat (map posix_wire_bytes (map posix_wire xs)))
      = drop 4 (drop (4 + 8 * j) (hdr @ concat (map posix_wire_bytes (map posix_wire xs))))"
    by (simp only: drop_drop) (simp add: add.commute)
  also have "\<dots> = drop 4 (posix_wire_bytes (posix_wire (xs ! j))
        @ concat (map posix_wire_bytes (drop (Suc j) (map posix_wire xs))))"
    using posix_drop_slot [of hdr j "map posix_wire xs"] assms by simp
  also have "\<dots> = write_le32 POSIX_SPECIAL_ID @ concat (map posix_wire_bytes (drop (Suc j) (map posix_wire xs)))"
    using assms(3) by (simp add: posix_wire_bytes_def posix_wire_def write_le16_def)
  finally show ?thesis
    by (simp add: write_le32_def POSIX_SPECIAL_ID_def)
qed

lemma parse_special_id:
  assumes "e_id r = POSIX_SPECIAL_ID" "parse_posix_ace d r = Inr a"
  shows "ace_id a = - 1"
  using assms
  by (auto simp: parse_posix_ace_def Let_def IntFlag_call_def split: sum.splits)

lemma parse_posix_aces_special:
  assumes "length hdr = 4"
      and "parse_posix_aces (hdr @ concat (map posix_wire_bytes (map posix_wire xs))) d = Inr decoded"
  shows "length decoded = length xs
       \<and> (\<forall>j<length xs. is_special_tag (tag (xs ! j)) \<longrightarrow> ace_id (decoded ! j) = - 1)"
proof -
  let ?b = "hdr @ concat (map posix_wire_bytes (map posix_wire xs))"
  have l: "(length ?b - POSIX_HDR_SZ) div POSIX_ACE_SZ = length xs"
    using concat_wire_length [of "map posix_wire xs"] assms(1)
    by (simp add: POSIX_HDR_SZ_def POSIX_ACE_SZ_def del: map_map)
  show ?thesis
  proof (cases "xs = []")
    case True
    then show ?thesis using assms l
      by (auto simp: parse_posix_aces_def POSIX_HDR_SZ_def Let_def split: if_splits)
  next
    case False
    have nz: "(length ?b = 0) = False" "(length ?b < POSIX_HDR_SZ) = False"
      using assms(1) by (simp_all add: POSIX_HDR_SZ_def)
    have m: "map_err (\<lambda>i. parse_posix_ace d (posix_slot ?b i)) [0..<length xs] = Inr decoded"
      using assms(2) unfolding parse_posix_aces_def Let_def l nz if_False .
    note n = map_err_upt_nth [OF m]
    have "ace_id (decoded ! j) = - 1" if j: "j < length xs" and sp: "is_special_tag (tag (xs ! j))" for j
    proof -
      have s: "posix_slot ?b j = posix_wire (xs ! j)"
        using posix_slot_pack [of hdr j "map posix_wire xs"] assms(1) j by simp
      have "parse_posix_ace d (posix_slot ?b j) = Inr (decoded ! j)"
        using n j by blast
      then have p: "parse_posix_ace d (posix_wire (xs ! j)) = Inr (decoded ! j)"
        unfolding s .
      have "e_id (posix_wire (xs ! j)) = POSIX_SPECIAL_ID"
        using sp by (simp add: posix_wire_def)
      then show ?thesis using parse_special_id p by blast
    qed
    then show ?thesis using n by blast
  qed
qed

text \<open>
  Claim C10.  In the blobs that \<open>POSIXACL.from_aces\<close> returns, the record of every ACE
  whose tag is \<open>USER_OBJ\<close>, \<open>GROUP_OBJ\<close>, \<open>MASK\<close> or \<open>OTHER\<close> has the wire id
  \<open>0xFFFFFFFF\<close> (four bytes \<open>0xFF\<close> at offset 4 of the record), whatever id the ACE
  carries; the parser maps the wire id \<open>0xFFFFFFFF\<close> to id \<open>-1\<close>; so the decoded
  entry at the position of a special-tag ACE has id \<open>-1\<close>.
\<close>

theorem C10_special_tag_id_discarded:
  assumes ok: "\<forall>a\<in>set aces. posixace_long_ok a"
  shows "\<exists>acc dfl acl.
      PyList_Sort POSIXAce_richcompare (filter (\<lambda>a. \<not> ace_default a) aces) = Inr acc
    \<and> PyList_Sort POSIXAce_richcompare (filter ace_default aces) = Inr dfl
    \<and> POSIXACL_from_aces aces = Inr acl
    \<and> (\<forall>j<length acc. is_special_tag (tag (acc ! j)) \<longrightarrow>
            e_id (posix_entries (access_data acl) ! j) = 0xFFFFFFFF
          \<and> take 4 (drop (4 + 8 * j + 4) (access_data acl)) = [0xFF, 0xFF, 0xFF, 0xFF])
    \<and> (\<forall>d. default_data acl = Some d \<longrightarrow>
          (\<forall>j<length dfl. is_special_tag (tag (dfl ! j)) \<longrightarrow>
              e_id (posix_entries d ! j) = 0xFFFFFFFF
            \<and> take 4 (drop (4 + 8 * j + 4) d) = [0xFF, 0xFF, 0xFF, 0xFF]))
    \<and> (\<forall>r d a. e_id r = 0xFFFFFFFF \<and> parse_posix_ace d r = Inr a \<longrightarrow> ace_id a = - 1)
    \<and> (\<forall>decoded. POSIXACL_get_aces acl = Inr decoded \<longrightarrow>
          length decoded = length acc
        \<and> (\<forall>j<length acc. is_special_tag (tag (acc ! j)) \<longrightarrow> ace_id (decoded ! j) = - 1))
    \<and> (\<forall>decoded d. default_data acl = Some d \<and> POSIXACL_get_default_aces acl = Inr decoded \<longrightarrow>
          length decoded = length dfl
        \<and> (\<forall>j<length dfl. is_special_tag (tag (dfl ! j)) \<longrightarrow> ace_id (decoded ! j) = - 1))"
proof -
  let ?A = "filter (\<lambda>a. \<not> ace_default a) aces"
  let ?D = "filter ace_default aces"
  let ?acc = "sort_key POSIXAce_key ?A"
  let ?dfl = "sort_key POSIXAce_key ?D"
  let ?enc = "\<lambda>xs. write_le32 POSIX_ACL_VERSION @ concat (map posix_wire_bytes (map posix_wire xs))"
  let ?acl = "\<lparr>access_data = ?enc ?acc,
               default_data = (if ?D = [] then None else Some (?enc ?dfl))\<rparr>"
  have sa: "PyList_Sort POSIXAce_richcompare ?A = Inr ?acc"
    by (rule PyList_Sort_key) (use ok in \<open>simp add: POSIXAce_richcompare_lt\<close>)
  have sd: "PyList_Sort POSIXAce_richcompare ?D = Inr ?dfl"
    by (rule PyList_Sort_key) (use ok in \<open>simp add: POSIXAce_richcompare_lt\<close>)
  have fa: "POSIXACL_from_aces aces = Inr ?acl"
    by (rule POSIXACL_from_aces_char [OF ok])
  have wire: "e_id (posix_entries (?enc xs) ! j) = 0xFFFFFFFF
      \<and> take 4 (drop (4 + 8 * j + 4) (?enc xs)) = [0xFF, 0xFF, 0xFF, 0xFF]"
    if "j < length xs" "is_special_tag (tag (xs ! j))" for xs j
  proof
    have "posix_entries (?enc xs) ! j = posix_wire (xs ! j)"
      using that(1) by (simp only: posix_entries_pack) simp
    then show "e_id (posix_entries (?enc xs) ! j) = 0xFFFFFFFF"
      using that(2) by (simp add: posix_wire_def POSIX_SPECIAL_ID_def)
    show "take 4 (drop (4 + 8 * j + 4) (?enc xs)) = [0xFF, 0xFF, 0xFF, 0xFF]"
      by (rule special_id_bytes) (use that in simp_all)
  qed
  have dec: "length decoded = length xs
        \<and> (\<forall>j<length xs. is_special_tag (tag (xs ! j)) \<longrightarrow> ace_id (decoded ! j) = - 1)"
    if "parse_posix_aces (?enc xs) d = Inr decoded" for xs d decoded
    by (rule parse_posix_aces_special [OF _ that]) simp
  have c1: "\<forall>j<length ?acc. is_special_tag (tag (?acc ! j)) \<longrightarrow>
            e_id (posix_entries (access_data ?acl) ! j) = 0xFFFFFFFF
          \<and> take 4 (drop (4 + 8 * j + 4) (access_data ?acl)) = [0xFF, 0xFF, 0xFF, 0xFF]"
    using wire [of _ ?acc] by simp
  have c2: "\<forall>d. default_data ?acl = Some d \<longrightarrow>
          (\<forall>j<length ?dfl. is_special_tag (tag (?dfl ! j)) \<longrightarrow>
              e_id (posix_entries d ! j) = 0xFFFFFFFF
            \<and> take 4 (drop (4 + 8 * j + 4) d) = [0xFF, 0xFF, 0xFF, 0xFF])"
    using wire [of _ ?dfl] by simp
  have c3: "\<forall>r d a. e_id r = 0xFFFFFFFF \<and> parse_posix_ace d r = Inr a \<longrightarrow> ace_id a = - 1"
    using parse_special_id by (auto simp add: POSIX_SPECIAL_ID_def)
  have c4: "\<forall>decoded. POSIXACL_get_aces ?acl = Inr decoded \<longrightarrow>
          length decoded = length ?acc
        \<and> (\<forall>j<length ?acc. is_special_tag (tag (?acc ! j)) \<longrightarrow> ace_id (decoded ! j) = - 1)"
    using dec [of ?acc False] by (simp add: POSIXACL_get_aces_def)
  have c5: "\<forall>decoded d. default_data ?acl = Some d \<and> POSIXACL_get_default_aces ?acl = Inr decoded \<longrightarrow>
          length decoded = length ?dfl
        \<and> (\<forall>j<length ?dfl. is_special_tag (tag (?dfl ! j)) \<longrightarrow> ace_id (decoded ! j) = - 1)"
    using dec [of ?dfl True] by (simp add: POSIXACL_get_default_aces_def)
  show ?thesis
    apply (rule exI [of _ ?acc], rule exI [of _ ?dfl], rule exI [of _ ?acl])
    apply (intro conjI)
           apply (rule sa)
          apply (rule sd)
         apply (rule fa)
        apply (rule c1)
       apply (rule c2)
      apply (rule c3)
     apply (rule c4)
    apply (rule c5)
    done
qed

text \<open>A \<open>USER_OBJ\<close> ACE supplied with id 5 comes back with id \<open>-1\<close>.\<close>

theorem C10_witness:
  "\<exists>acl decoded. POSIXACL_from_aces [ex_posix_user_obj_id5] = Inr acl
     \<and> take 4 (drop 8 (access_data acl)) = [0xFF, 0xFF, 0xFF, 0xFF]
     \<and> POSIXACL_get_aces acl = Inr decoded
     \<and> ace_id (decoded ! 0) = - 1 \<and> ace_id ex_posix_user_obj_id5 = 5"
proof -
  have ok: "\<forall>a\<in>set [ex_posix_user_obj_id5]. posixace_long_ok a"
    by (simp add: ex_posix_user_obj_id5_def posixace_long_ok_def long_ok_def)
  have srt: "PyList_Sort POSIXAce_richcompare (filter (\<lambda>a. \<not> ace_default a) [ex_posix_user_obj_id5])
      = Inr [ex_posix_user_obj_id5]"
    by (simp add: ex_posix_user_obj_id5_def)
  from C10_special_tag_id_discarded [OF ok]
  obtain acc acl where a: "PyList_Sort POSIXAce_richcompare
        (filter (\<lambda>a. \<not> ace_default a) [ex_posix_user_obj_id5]) = Inr acc"
    and f: "POSIXACL_from_aces [ex_posix_user_obj_id5] = Inr acl"
    and w: "\<forall>j<length acc. is_special_tag (tag (acc ! j)) \<longrightarrow>
            e_id (posix_entries (access_data acl) ! j) = 0xFFFFFFFF
          \<and> take 4 (drop (4 + 8 * j + 4) (access_data acl)) = [0xFF, 0xFF, 0xFF, 0xFF]"
    and d: "\<forall>decoded. POSIXACL_get_aces acl = Inr decoded \<longrightarrow>
          length decoded = length acc
        \<and> (\<forall>j<length acc. is_special_tag (tag (acc ! j)) \<longrightarrow> ace_id (decoded ! j) = - 1)"
    by (elim exE conjE)
  have acc: "acc = [ex_posix_user_obj_id5]" using a srt by simp
  have sp: "is_special_tag (tag (acc ! 0))"
    by (simp add: acc ex_posix_user_obj_id5_def is_special_tag_def POSIX_TAG_USER_OBJ_def)
  have b: "take 4 (drop 8 (access_data acl)) = [0xFF, 0xFF, 0xFF, 0xFF]"
    using w [rule_format, of 0] sp acc by simp
  have g: "POSIXACL_get_aces acl = Inr [\<lparr>tag = 0x01, perms = 6, ace_id = - 1, ace_default = False\<rparr>]"
    using f ex_id5_eval by simp
  have "ace_id ([\<lparr>tag = 0x01, perms = 6, ace_id = - 1, ace_default = False\<rparr>] ! 0) = - 1"
    using d [rule_format, OF g] sp acc by simp
  then show ?thesis
    using f b g by (simp add: ex_posix_user_obj_id5_def)
qed

section \<open>Filesystem iterator: resuming from a snapshot\<close>

lemma advance_top_fields [simp]:
  "restoring_from_cookie (advance_top s r) = restoring_from_cookie s"
  "cookies (advance_top s r) = cookies s"
  "cookie_sz (advance_top s r) = cookie_sz s"
  "last_entry (advance_top s r) = last_entry s"
  "it_state (advance_top s r) = it_state s"
  by (simp_all add: advance_top_def cookie_sz_def)

lemma advance_top_depth [simp]:
  "dir_stack s \<noteq> [] \<Longrightarrow> cur_depth (advance_top s r) = cur_depth s"
  by (simp add: advance_top_def cur_depth_def)

lemma cookie_check_fields:
  assumes "cookie_check s i = Some s1"
  shows "restoring_from_cookie s1 = restoring_from_cookie s \<and> dir_stack s1 = dir_stack s
         \<and> cookie_sz s1 = cookie_sz s \<and> cur_depth s1 = cur_depth s
         \<and> (cookies s1 = cookies s
              \<or> (\<exists>cs. cookies s = Some cs \<and> cur_depth s < length cs \<and> cs ! cur_depth s = i
                       \<and> i \<noteq> 0 \<and> cookies s1 = Some (cs[cur_depth s := 0])))"
  using assms
  by (auto simp: cookie_check_def Let_def cookie_sz_def cur_depth_def
           split: option.splits if_splits)

lemma process_next_entry_fields:
  assumes "process_next_entry s n reply = (a, s2, m)"
  shows "restoring_from_cookie s2 = restoring_from_cookie s \<and> cookies s2 = cookies s
         \<and> dir_stack s2 = dir_stack s \<and> cookie_sz s2 = cookie_sz s
         \<and> cur_depth s2 = cur_depth s \<and> a \<noteq> FSITER_POP_DIR
         \<and> (a = FSITER_YIELD_FILE \<longrightarrow> \<not> stx_isdir (last_st (last_entry s2)))"
  using assms
  by (auto simp: process_next_entry_def Let_def cookie_sz_def cur_depth_def
           split: pne_reply.splits if_splits)

lemma dispatch_action_restoring:
  assumes "restoring_from_cookie s" "a \<noteq> FSITER_POP_DIR"
      and "dispatch_action a s m p de fe ch = Continue t \<or> dispatch_action a s m p de fe ch = Return res t"
  shows "(cur_depth t = cur_depth s + 1
            \<and> (restoring_from_cookie t \<longleftrightarrow> cur_depth t < cookie_sz s)
            \<and> (if restoring_from_cookie t then cookies t = cookies s else cookies t = None))
         \<or> (cur_depth t = cur_depth s \<and> restoring_from_cookie t \<and> cookies t = cookies s)"
    and "\<And>inst. res = Yield inst \<Longrightarrow> dispatch_action a s m p de fe ch = Return res t \<Longrightarrow>
           a = FSITER_YIELD_FILE \<and> inst_isdir inst = stx_isdir (last_st (last_entry s))"
  using assms
  by (auto simp: dispatch_action_def push_dir_stack_def Let_def cookie_sz_def cur_depth_def
                 create_iter_instance_def
           split: fsiter_action.splits if_splits option.splits prod.splits)

lemma dispatch_action_not_restoring:
  assumes "\<not> restoring_from_cookie s"
      and "dispatch_action a s m p de fe ch = Continue t \<or> dispatch_action a s m p de fe ch = Return res t"
  shows "\<not> restoring_from_cookie t \<and> cookies t = cookies s"
  using assms
  by (auto simp: dispatch_action_def push_dir_stack_def pop_dir_stack_def Let_def
           split: fsiter_action.splits if_splits option.splits prod.splits)

lemma iter_step_cases:
  obtains
    (assert) "\<not> cur_depth self < MAX_DEPTH"
      "iter_step self = Return (AssertFailed ''Iterator depth exceeded MAX_DEPTH'') self"
  | (restore_err) cs where "cur_depth self < MAX_DEPTH" "dir_dirp (last (dir_stack self)) = []"
      "cookies self = Some cs" "cur_depth self < length cs" "cs ! cur_depth self \<noteq> 0"
      "iter_step self = Return (Raise (IteratorRestoreError (cur_depth self)
                     (dir_path (last (dir_stack self))))) self"
  | (pop) "cur_depth self < MAX_DEPTH" "dir_dirp (last (dir_stack self)) = []"
      "iter_step self = Continue (pop_dir_stack self)"
  | (rderr) e rest where "cur_depth self < MAX_DEPTH"
      "dir_dirp (last (dir_stack self)) = Rd_error e # rest"
      "iter_step self = Return (Raise (OSErrorText (''readdir('' @ dir_path (last (dir_stack self)) @ '') failed'')))
             (advance_top self rest)"
  | (skip) n i t script rest where "cur_depth self < MAX_DEPTH"
      "dir_dirp (last (dir_stack self)) = Rd_entry n i t script # rest"
      "n = ''.'' \<or> n = ''..'' \<or> cookie_check (advance_top self rest) i = None"
      "iter_step self = Continue (advance_top self rest)"
  | (noret) "iter_step self = NoReturn"
  | (proc) n i t script rest s1 reply b unused a s2 m de fe ch where
      "cur_depth self < MAX_DEPTH"
      "dir_dirp (last (dir_stack self)) = Rd_entry n i t script # rest"
      "n \<noteq> ''.''" "n \<noteq> ''..''"
      "cookie_check (advance_top self rest) i = Some s1"
      "retry_eintr pne_eintr script = Some ((reply, b), unused)"
      "process_next_entry s1 n reply = (a, s2, m)"
      "iter_step self = dispatch_action a s2 m (dir_path (last (dir_stack self))) de fe ch"
proof (cases "cur_depth self < MAX_DEPTH")
  case False
  then show ?thesis using assert by (simp add: iter_step_def)
next
  case ok: True
  show ?thesis
  proof (cases "dir_dirp (last (dir_stack self))")
    case Nil
    show ?thesis
    proof (cases "case cookies self of None \<Rightarrow> False
                  | Some cs \<Rightarrow> cur_depth self < length cs \<and> cs ! cur_depth self \<noteq> 0")
      case True
      then obtain cs where "cookies self = Some cs" "cur_depth self < length cs"
          "cs ! cur_depth self \<noteq> 0"
        by (auto split: option.splits)
      moreover have "iter_step self = Return (Raise (IteratorRestoreError (cur_depth self)
                     (dir_path (last (dir_stack self))))) self"
        using ok Nil True by (simp add: iter_step_def Let_def)
      ultimately show ?thesis using restore_err ok Nil by blast
    next
      case False
      then have "iter_step self = Continue (pop_dir_stack self)"
        using ok Nil by (simp add: iter_step_def Let_def dispatch_action_def)
      then show ?thesis using pop ok Nil by blast
    qed
  next
    case (Cons ev rest)
    show ?thesis
    proof (cases ev)
      case (Rd_error e)
      then have "iter_step self = Return (Raise (OSErrorText (''readdir('' @ dir_path (last (dir_stack self)) @ '') failed'')))
             (advance_top self rest)"
        using ok Cons by (simp add: iter_step_def Let_def)
      then show ?thesis using rderr ok Cons Rd_error by blast
    next
      case (Rd_entry n i t script)
      note top = Cons [unfolded Rd_entry]
      show ?thesis
      proof (cases "n = ''.'' \<or> n = ''..'' \<or> cookie_check (advance_top self rest) i = None")
        case True
        then have "iter_step self = Continue (advance_top self rest)"
          using ok top by (auto simp: iter_step_def Let_def dispatch_action_def)
        then show ?thesis using skip [OF ok top True] by blast
      next
        case False
        then obtain s1 where nd: "n \<noteq> ''.''" "n \<noteq> ''..''"
            and ck: "cookie_check (advance_top self rest) i = Some s1"
          by auto
        show ?thesis
        proof (cases "retry_eintr pne_eintr script")
          case None
          then have "iter_step self = NoReturn"
            using ok top nd ck by (simp add: iter_step_def Let_def)
          then show ?thesis using noret by blast
        next
          case (Some x)
          then obtain reply b unused where
            re: "retry_eintr pne_eintr script = Some ((reply, b), unused)"
            by (cases x) auto
          obtain a s2 m where pr: "process_next_entry s1 n reply = (a, s2, m)"
            by (cases "process_next_entry s1 n reply") auto
          have "\<exists>de fe ch. iter_step self = dispatch_action a s2 m (dir_path (last (dir_stack self))) de fe ch"
            using ok top nd ck re pr
            by (cases reply) (auto simp: iter_step_def Let_def)
          then show ?thesis using proc [OF ok top nd ck re pr] by blast
        qed
      qed
    qed
  qed
qed

lemma dispatch_action_cookies:
  assumes "a \<noteq> FSITER_POP_DIR"
      and "dispatch_action a s m p de fe ch = Continue t \<or> dispatch_action a s m p de fe ch = Return res t"
  shows "cookies t = cookies s \<or> cookies t = None"
  using assms
  by (auto simp: dispatch_action_def push_dir_stack_def Let_def
           split: fsiter_action.splits if_splits option.splits prod.splits)

lemma pop_dir_stack_fields [simp]:
  "restoring_from_cookie (pop_dir_stack s) = restoring_from_cookie s"
  "cookies (pop_dir_stack s) = cookies s"
  "cur_depth (pop_dir_stack s) \<le> cur_depth s"
  by (simp_all add: pop_dir_stack_def cur_depth_def)

lemma iter_step_restoring:
  assumes rs: "restoring_from_cookie self" and d: "0 < cur_depth self"
      and st: "iter_step self = Continue s' \<or> iter_step self = Return res s'"
  shows "(cur_depth s' = cur_depth self + 1
            \<and> (restoring_from_cookie s' \<longleftrightarrow> cur_depth s' < cookie_sz self)
            \<and> (\<not> restoring_from_cookie s' \<longrightarrow> cookies s' = None))
         \<or> (cur_depth s' \<le> cur_depth self \<and> restoring_from_cookie s')"
    and "\<And>inst. res = Yield inst \<Longrightarrow> iter_step self = Return res s' \<Longrightarrow> \<not> inst_isdir inst"
proof -
  have ne: "dir_stack self \<noteq> []" using d by (simp add: cur_depth_def)
  have "((cur_depth s' = cur_depth self + 1
            \<and> (restoring_from_cookie s' \<longleftrightarrow> cur_depth s' < cookie_sz self)
            \<and> (\<not> restoring_from_cookie s' \<longrightarrow> cookies s' = None))
         \<or> (cur_depth s' \<le> cur_depth self \<and> restoring_from_cookie s'))
        \<and> (\<forall>inst. res = Yield inst \<and> iter_step self = Return res s' \<longrightarrow> \<not> inst_isdir inst)"
  proof (cases rule: iter_step_cases [of self])
    case assert
    then show ?thesis using st rs by auto
  next
    case (restore_err cs)
    then show ?thesis using st rs by auto
  next
    case pop
    then show ?thesis using st rs by auto
  next
    case (rderr e rest)
    then show ?thesis using st rs ne by auto
  next
    case (skip n i t script rest)
    then show ?thesis using st rs ne by auto
  next
    case noret
    then show ?thesis using st by auto
  next
    case (proc n i t script rest s1 reply b unused a s2 m de fe ch)
    note c = cookie_check_fields [OF proc(5)]
    note p = process_next_entry_fields [OF proc(7)]
    have rs2: "restoring_from_cookie s2" using c p rs by simp
    have d2: "cur_depth s2 = cur_depth self" using c p ne by simp
    have z2: "cookie_sz s2 = cookie_sz self" using c p by simp
    have napop: "a \<noteq> FSITER_POP_DIR" using p by simp
    have st2: "dispatch_action a s2 m (dir_path (last (dir_stack self))) de fe ch = Continue s'
             \<or> dispatch_action a s2 m (dir_path (last (dir_stack self))) de fe ch = Return res s'"
      using st proc(8) by simp
    note da = dispatch_action_restoring [OF rs2 napop st2]
    have "\<not> inst_isdir inst" if "res = Yield inst" "iter_step self = Return res s'" for inst
    proof -
      have "dispatch_action a s2 m (dir_path (last (dir_stack self))) de fe ch = Return res s'"
        using that proc(8) by simp
      from da(2) [OF that(1) this] p show ?thesis by simp
    qed
    then show ?thesis using da(1) d2 z2 by auto
  qed
  then show "(cur_depth s' = cur_depth self + 1
            \<and> (restoring_from_cookie s' \<longleftrightarrow> cur_depth s' < cookie_sz self)
            \<and> (\<not> restoring_from_cookie s' \<longrightarrow> cookies s' = None))
         \<or> (cur_depth s' \<le> cur_depth self \<and> restoring_from_cookie s')"
    and "\<And>inst. res = Yield inst \<Longrightarrow> iter_step self = Return res s' \<Longrightarrow> \<not> inst_isdir inst"
    by blast+
qed

lemma iter_step_not_restoring:
  assumes rs: "\<not> restoring_from_cookie self"
      and st: "iter_step self = Continue s' \<or> iter_step self = Return res s'"
  shows "\<not> restoring_from_cookie s'"
proof (cases rule: iter_step_cases [of self])
  case (proc n i t script rest s1 reply b unused a s2 m de fe ch)
  note c = cookie_check_fields [OF proc(5)]
  note p = process_next_entry_fields [OF proc(7)]
  have rs2: "\<not> restoring_from_cookie s2" using c p rs by simp
  have st2: "dispatch_action a s2 m (dir_path (last (dir_stack self))) de fe ch = Continue s'
           \<or> dispatch_action a s2 m (dir_path (last (dir_stack self))) de fe ch = Return res s'"
    using st proc(8) by simp
  from dispatch_action_not_restoring [OF rs2 st2] show ?thesis by simp
qed (use st rs in auto)

lemma iter_step_cookie_skip:
  assumes "cur_depth self < MAX_DEPTH" "0 < cur_depth self"
      and "dir_dirp (last (dir_stack self)) = Rd_entry n i t script # rest"
      and "cookies self = Some cs" "cur_depth self < length cs" "cs ! cur_depth self \<noteq> 0"
      and "i \<noteq> cs ! cur_depth self"
  shows "iter_step self = Continue (advance_top self rest)"
proof -
  have ne: "dir_stack self \<noteq> []" using assms(2) by (simp add: cur_depth_def)
  have "cookie_check (advance_top self rest) i = None"
    using assms ne by (simp add: cookie_check_def Let_def)
  then show ?thesis
    using assms by (simp add: iter_step_def Let_def dispatch_action_def)
qed

lemma iter_step_cookie_match:
  assumes ok: "cur_depth self < MAX_DEPTH" and d: "0 < cur_depth self"
      and top: "dir_dirp (last (dir_stack self)) = Rd_entry n i t script # rest"
      and nd: "n \<noteq> ''.''" "n \<noteq> ''..''"
      and cs: "cookies self = Some cs" "cur_depth self < length cs" "cs ! cur_depth self \<noteq> 0"
      and eq: "i = cs ! cur_depth self"
      and st: "iter_step self = Continue s' \<or> iter_step self = Return res s'"
  shows "cookies s' = Some (cs[cur_depth self := 0]) \<or> cookies s' = None"
proof -
  have ne: "dir_stack self \<noteq> []" using d by (simp add: cur_depth_def)
  let ?s1 = "(advance_top self rest)\<lparr>cookies := Some (cs[cur_depth self := 0])\<rparr>"
  have ck: "cookie_check (advance_top self rest) i = Some ?s1"
    using cs eq ne by (simp add: cookie_check_def Let_def)
  show ?thesis
  proof (cases rule: iter_step_cases [of self])
    case (proc n' i' t' script' rest' s1 reply b unused a s2 m de fe ch)
    have same: "i' = i" "rest' = rest" using proc(2) top by simp_all
    have s1: "s1 = ?s1" using proc(5) ck same by simp
    note p = process_next_entry_fields [OF proc(7)]
    have c2: "cookies s2 = Some (cs[cur_depth self := 0])" using p s1 by simp
    have st2: "dispatch_action a s2 m (dir_path (last (dir_stack self))) de fe ch = Continue s'
             \<or> dispatch_action a s2 m (dir_path (last (dir_stack self))) de fe ch = Return res s'"
      using st proc(8) by simp
    from dispatch_action_cookies [OF _ st2] p c2 show ?thesis by auto
  next
    case (skip n' i' t' script' rest')
    then show ?thesis using top nd ck by auto
  qed (use st top ok in auto)
qed

lemma next_loop_restore_error:
  assumes "0 < cur_depth self" "cur_depth self < MAX_DEPTH"
      and "dir_dirp (last (dir_stack self)) = []"
      and "cookies self = Some cs" "cur_depth self < length cs" "cs ! cur_depth self \<noteq> 0"
  shows "next_loop self =
           Some (Raise (IteratorRestoreError (cur_depth self) (dir_path (last (dir_stack self)))),
                 self)"
  using assms by (subst next_loop.simps) (simp add: iter_step_def Let_def)

lemma create_filesystem_iterator_cookies:
  assumes "create_filesystem_iterator mountpoint relative_path filesystem_name state0 increment
             cb snapshot k = Inr it"
  shows "dir_stack_to_cookies snapshot = Inr (cookies it)
         \<and> restoring_from_cookie it = (cookies it \<noteq> None) \<and> cur_depth it = 1"
  using assms
  by (auto simp: create_filesystem_iterator_def Let_def cur_depth_def
           split: if_splits sum.splits)

lemma snapshot_cookie_Inr:
  assumes "snapshot_cookie e = Inr c"
  shows "\<exists>p v. e = Snap_pair p v \<and> 0 \<le> v \<and> v < 2 ^ 64 \<and> c = word_of_int v"
  using assms
  by (auto simp: snapshot_cookie_def PyLong_AsUnsignedLongLong_def
           split: snapshot_entry.splits if_splits)

text \<open>
  What holds of resuming in every state.  A construction that succeeds on a snapshot
  tuple leaves the iterator in the root (\<open>cur_depth = 1\<close>); with a non-empty snapshot it
  holds one cookie per entry, the entry's inode, and the restore flag is set; with an
  empty snapshot there are no cookies and the flag is not set.  In a pass of the main
  loop that reads an entry other than \<open>.\<close> and \<open>..\<close> while the cookie of this depth is
  non-zero, an entry with another inode number is skipped, and after an entry with that
  inode number the cookie of this depth is zero (or the cookies are gone).  A pass that
  starts with the flag set at a depth below the number of cookies clears it exactly
  when it brings \<open>cur_depth\<close> to the number of cookies; the flag is never set again.
  When the top directory is exhausted while the cookie of this depth is non-zero, the
  call raises \<open>IteratorRestoreError\<close> with \<open>cur_depth\<close> and the path of that directory.
\<close>

lemma restore_mode_pass:
  "(create_filesystem_iterator mountpoint relative_path filesystem_name init_state increment cb
        (DS_tuple entries) k = Inr it \<longrightarrow>
       cur_depth it = 1
     \<and> (entries = [] \<longrightarrow> cookies it = None \<and> \<not> restoring_from_cookie it)
     \<and> (entries \<noteq> [] \<longrightarrow>
          restoring_from_cookie it
        \<and> (\<exists>ck. cookies it = Some ck \<and> length ck = length entries
              \<and> (\<forall>j<length entries. \<exists>p v. entries ! j = Snap_pair p v
                      \<and> 0 \<le> v \<and> v < 2 ^ 64 \<and> ck ! j = word_of_int v))))
   \<and> (0 < cur_depth self \<and> cur_depth self < MAX_DEPTH
        \<and> dir_dirp (last (dir_stack self)) = Rd_entry n i t script # rest
        \<and> n \<noteq> ''.'' \<and> n \<noteq> ''..''
        \<and> cookies self = Some cs \<and> cur_depth self < length cs \<and> cs ! cur_depth self \<noteq> 0 \<longrightarrow>
          (i \<noteq> cs ! cur_depth self \<longrightarrow> iter_step self = Continue (advance_top self rest))
        \<and> (i = cs ! cur_depth self \<longrightarrow>
              (\<forall>s1 r1. iter_step self = Continue s1 \<or> iter_step self = Return r1 s1 \<longrightarrow>
                  cookies s1 = Some (cs[cur_depth self := 0]) \<or> cookies s1 = None)))
   \<and> (0 < cur_depth self
        \<and> (iter_step self = Continue s' \<or> iter_step self = Return res s') \<longrightarrow>
          (restoring_from_cookie self \<longrightarrow>
              (\<forall>inst. res = Yield inst \<and> iter_step self = Return res s' \<longrightarrow> \<not> inst_isdir inst)
            \<and> (cur_depth self < cookie_sz self \<longrightarrow>
                  (restoring_from_cookie s' \<longleftrightarrow> cur_depth s' \<noteq> cookie_sz self)))
        \<and> (\<not> restoring_from_cookie self \<longrightarrow> \<not> restoring_from_cookie s'))
   \<and> (0 < cur_depth self \<and> cur_depth self < MAX_DEPTH
        \<and> dir_dirp (last (dir_stack self)) = []
        \<and> cookies self = Some cs \<and> cur_depth self < length cs \<and> cs ! cur_depth self \<noteq> 0 \<longrightarrow>
          next_loop self =
            Some (Raise (IteratorRestoreError (cur_depth self)
                           (dir_path (last (dir_stack self)))), self))"
proof (intro conjI impI)
  assume c: "create_filesystem_iterator mountpoint relative_path filesystem_name init_state
               increment cb (DS_tuple entries) k = Inr it"
  note f = create_filesystem_iterator_cookies [OF c]
  show "cur_depth it = 1" using f by simp
  show "cookies it = None" if "entries = []"
    using f that by (simp add: dir_stack_to_cookies_def)
  show "\<not> restoring_from_cookie it" if "entries = []"
    using f that by (simp add: dir_stack_to_cookies_def)
  assume ne: "entries \<noteq> []"
  obtain ck where m: "map_err snapshot_cookie entries = Inr ck" and ck: "cookies it = Some ck"
    using f ne by (auto simp: dir_stack_to_cookies_def split: sum.splits)
  show "restoring_from_cookie it" using f ck by simp
  note nth = map_err_nth [OF m]
  have "\<exists>p v. entries ! j = Snap_pair p v \<and> 0 \<le> v \<and> v < 2 ^ 64 \<and> ck ! j = word_of_int v"
    if "j < length entries" for j
    using nth that snapshot_cookie_Inr [of "entries ! j" "ck ! j"] by blast
  then show "\<exists>ck. cookies it = Some ck \<and> length ck = length entries
              \<and> (\<forall>j<length entries. \<exists>p v. entries ! j = Snap_pair p v
                      \<and> 0 \<le> v \<and> v < 2 ^ 64 \<and> ck ! j = word_of_int v)"
    using ck nth by blast
next
  assume h: "0 < cur_depth self \<and> cur_depth self < MAX_DEPTH
        \<and> dir_dirp (last (dir_stack self)) = Rd_entry n i t script # rest
        \<and> n \<noteq> ''.'' \<and> n \<noteq> ''..''
        \<and> cookies self = Some cs \<and> cur_depth self < length cs \<and> cs ! cur_depth self \<noteq> 0"
  show "iter_step self = Continue (advance_top self rest)" if "i \<noteq> cs ! cur_depth self"
    using iter_step_cookie_skip [of self n i t script rest cs] h that by simp
  show "\<forall>s1 r1. iter_step self = Continue s1 \<or> iter_step self = Return r1 s1 \<longrightarrow>
                  cookies s1 = Some (cs[cur_depth self := 0]) \<or> cookies s1 = None"
    if "i = cs ! cur_depth self"
    using iter_step_cookie_match [of self n i t script rest cs] h that by simp
next
  assume h: "0 < cur_depth self
        \<and> (iter_step self = Continue s' \<or> iter_step self = Return res s')"
  then have d: "0 < cur_depth self"
    and st: "iter_step self = Continue s' \<or> iter_step self = Return res s'"
    by simp_all
  show "\<not> restoring_from_cookie s'" if "\<not> restoring_from_cookie self"
    using iter_step_not_restoring [OF that st] .
  assume rs: "restoring_from_cookie self"
  note r = iter_step_restoring [OF rs d st]
  show "\<forall>inst. res = Yield inst \<and> iter_step self = Return res s' \<longrightarrow> \<not> inst_isdir inst"
    using r(2) by blast
  show "restoring_from_cookie s' \<longleftrightarrow> cur_depth s' \<noteq> cookie_sz self"
    if "cur_depth self < cookie_sz self"
    using r(1) that by auto
next
  assume "0 < cur_depth self \<and> cur_depth self < MAX_DEPTH
        \<and> dir_dirp (last (dir_stack self)) = []
        \<and> cookies self = Some cs \<and> cur_depth self < length cs \<and> cs ! cur_depth self \<noteq> 0"
  then show "next_loop self =
            Some (Raise (IteratorRestoreError (cur_depth self)
                           (dir_path (last (dir_stack self)))), self)"
    using next_loop_restore_error [of self cs] by simp
qed

text \<open>
  In restore mode an entry that matches the cookie of its depth and is a directory that
  can be opened is entered, not yielded: the pass goes on with the new frame on the
  stack.
\<close>

lemma restore_enters_matched_directory:
  assumes d: "0 < cur_depth self" "cur_depth self < MAX_DEPTH"
      and top: "dir_dirp (last (dir_stack self)) = Rd_entry n i t script # rest"
      and nd: "n \<noteq> ''.''" "n \<noteq> ''..''"
      and cs: "cookies self = Some cs" "cur_depth self < length cs" "cs ! cur_depth self = i"
              "i \<noteq> 0"
      and rs: "restoring_from_cookie self"
      and re: "retry_eintr pne_eintr script = Some ((Pne_ok fd sx None None children, b), unused)"
      and dir: "stx_isdir sx"
  shows "\<exists>s'. iter_step self = Continue s'
          \<and> dir_stack s' =
              butlast (dir_stack self) @
                [(last (dir_stack self))\<lparr>dir_dirp := rest\<rparr>,
                 \<lparr>dir_path = take (PATH_MAX - 1)
                               (dir_path (last (dir_stack self)) @ ''/'' @ take NAME_MAX n),
                   dir_dirp = children, dir_ino = stx_ino sx\<rparr>]
          \<and> (restoring_from_cookie s' \<longleftrightarrow> cur_depth self + 1 < length cs)"
proof -
  have ne: "dir_stack self \<noteq> []" using d by (simp add: cur_depth_def)
  then have len: "length (butlast (dir_stack self)) + 1 = length (dir_stack self)"
    by simp
  show ?thesis
    using d top nd cs rs re dir ne len
    by (auto simp: iter_step_def Let_def cookie_check_def advance_top_def
        process_next_entry_def dispatch_action_def push_dir_stack_def cur_depth_def
        cookie_sz_def)
qed

lemma ex_iter_simps [simp]:
  "cur_depth (ex_iter c s) = 1"
  "dir_dirp (last (dir_stack (ex_iter c s))) = s"
  "dir_path (last (dir_stack (ex_iter c s))) = ''/mnt/tank''"
  "cookies (ex_iter c s) = c"
  "restoring_from_cookie (ex_iter c s) = (c \<noteq> None)"
  by (simp_all add: ex_iter_def cur_depth_def)

lemma ex_create_eval:
  "ex_create ex_snapshot_root s = Inr (ex_iter (Some [1]) s)"
  "ex_create ex_snapshot_A s = Inr (ex_iter (Some [1, 11]) s)"
  "ex_create (DS_tuple []) s = Inr (ex_iter None s)"
  by (simp_all add: ex_create_def create_filesystem_iterator_def ex_snapshot_root_def
      ex_snapshot_A_def dir_stack_to_cookies_def snapshot_cookie_def
      PyLong_AsUnsignedLongLong_def PATH_MAX_def ex_root_kernel_def ex_dir_statx_def
      stx_isdir_def S_ISDIR_def ex_iter_def Let_def)

lemma ex_enter_A:
  "iter_step (ex_iter (Some [1]) [ex_entry_A]) = Continue (ex_iter_in_A [])"
  "iter_step (ex_iter (Some [1, 11]) [ex_entry_A]) = Continue (ex_iter_in_A [])"
  by (simp_all add: iter_step_def MAX_DEPTH_def ex_entry_A_def ex_iter_def ex_iter_in_A_def
      advance_top_def cookie_check_def pne_eintr_def process_next_entry_def
      dispatch_action_def push_dir_stack_def cur_depth_def cookie_sz_def
      create_iter_instance_def NAME_MAX_def PATH_MAX_def Let_def ex_dir_statx_def
      stx_isdir_def S_ISDIR_def)

lemma ex_create_absent: "ex_create DS_absent s = Inr (ex_iter None s)"
  by (simp add: ex_create_def create_filesystem_iterator_def dir_stack_to_cookies_def
      PATH_MAX_def ex_root_kernel_def ex_dir_statx_def stx_isdir_def S_ISDIR_def ex_iter_def
      Let_def)

lemma ex_advance_top: "advance_top (ex_iter c (e # s)) s = ex_iter c s"
  by (simp add: advance_top_def ex_iter_def)

text \<open>
  Resuming in \<open>A\<close> with the snapshot \<open>((/mnt/tank, 1), (/mnt/tank/A, 11))\<close>: the file
  \<open>f\<close> is skipped, \<open>A\<close> is matched and entered, which clears the restore flag at depth
  2; had the root been exhausted before, the restore error of depth 1 would have been
  raised.
\<close>

lemma restore_mode_pass_example:
  "restoring_from_cookie (ex_iter (Some [1, 11]) [ex_entry_f, ex_entry_A])
   \<and> cookies (ex_iter (Some [1, 11]) [ex_entry_f, ex_entry_A]) = Some [1, 11]
   \<and> iter_step (ex_iter (Some [1, 11]) [ex_entry_f, ex_entry_A]) =
       Continue (ex_iter (Some [1, 11]) [ex_entry_A])
   \<and> (cookies (ex_iter_in_A []) = Some [1, 0] \<or> cookies (ex_iter_in_A []) = None)
   \<and> \<not> restoring_from_cookie (ex_iter_in_A [])
   \<and> next_loop (ex_iter (Some [1, 11]) []) =
       Some (Raise (IteratorRestoreError 1 ''/mnt/tank''), ex_iter (Some [1, 11]) [])"
proof -
  let ?it = "ex_iter (Some [1, 11]) [ex_entry_f, ex_entry_A]"
  let ?at_A = "ex_iter (Some [1, 11]) [ex_entry_A]"
  let ?at_end = "ex_iter (Some [1, 11]) []"
  have cr: "create_filesystem_iterator ''/mnt/tank'' [] ''tank'' ex_state0 0 Py_absent
              (DS_tuple [Snap_pair ''/mnt/tank'' 1, Snap_pair ''/mnt/tank/A'' 11])
              (ex_root_kernel [ex_entry_f, ex_entry_A]) = Inr ?it"
    using ex_create_eval(2) [of "[ex_entry_f, ex_entry_A]"]
    by (simp add: ex_create_def ex_snapshot_A_def)
  note A = restore_mode_pass
    [where it = ?it and entries = "[Snap_pair ''/mnt/tank'' 1, Snap_pair ''/mnt/tank/A'' 11]"
       and mountpoint = "''/mnt/tank''" and relative_path = "[]" and filesystem_name = "''tank''"
       and init_state = ex_state0 and increment = 0 and cb = Py_absent
       and k = "ex_root_kernel [ex_entry_f, ex_entry_A]",
     THEN conjunct1, THEN mp, OF cr]
  have a: "restoring_from_cookie ?it \<and> cookies ?it = Some [1, 11]"
    using A by simp
  have hb: "0 < cur_depth ?it \<and> cur_depth ?it < MAX_DEPTH
        \<and> dir_dirp (last (dir_stack ?it)) = Rd_entry ''f'' 10 8 [(Pne_ok 5 (ex_file_statx 10) None None [], False)] # [ex_entry_A]
        \<and> ''f'' \<noteq> ''.'' \<and> ''f'' \<noteq> ''..''
        \<and> cookies ?it = Some [1, 11] \<and> cur_depth ?it < length [1, 11 :: u64]
        \<and> [1, 11 :: u64] ! cur_depth ?it \<noteq> 0"
    by (simp add: MAX_DEPTH_def ex_entry_f_def)
  note B = restore_mode_pass
    [where self = ?it and n = "''f''" and i = 10 and t = 8
       and script = "[(Pne_ok 5 (ex_file_statx 10) None None [], False)]"
       and rest = "[ex_entry_A]" and cs = "[1, 11]",
     THEN conjunct2, THEN conjunct1, THEN mp, OF hb]
  have b: "iter_step ?it = Continue ?at_A"
    using B ex_advance_top [of "Some [1, 11]" ex_entry_f "[ex_entry_A]"] by simp
  have hc: "0 < cur_depth ?at_A \<and> cur_depth ?at_A < MAX_DEPTH
        \<and> dir_dirp (last (dir_stack ?at_A)) =
            Rd_entry ''A'' 11 DT_DIR [(Pne_ok 5 (ex_dir_statx 11) None None [ex_entry_g], False)] # []
        \<and> ''A'' \<noteq> ''.'' \<and> ''A'' \<noteq> ''..''
        \<and> cookies ?at_A = Some [1, 11] \<and> cur_depth ?at_A < length [1, 11 :: u64]
        \<and> [1, 11 :: u64] ! cur_depth ?at_A \<noteq> 0"
    by (simp add: MAX_DEPTH_def ex_entry_A_def)
  note C = restore_mode_pass
    [where self = ?at_A and n = "''A''" and i = 11 and t = DT_DIR
       and script = "[(Pne_ok 5 (ex_dir_statx 11) None None [ex_entry_g], False)]"
       and rest = "[]" and cs = "[1, 11]",
     THEN conjunct2, THEN conjunct1, THEN mp, OF hc]
  have c: "cookies (ex_iter_in_A []) = Some [1, 0] \<or> cookies (ex_iter_in_A []) = None"
    using C ex_enter_A(2) by simp
  have hd: "0 < cur_depth ?at_A
        \<and> (iter_step ?at_A = Continue (ex_iter_in_A [])
            \<or> iter_step ?at_A = Return StopIteration (ex_iter_in_A []))"
    using ex_enter_A(2) by simp
  note D = restore_mode_pass
    [where self = ?at_A and s' = "ex_iter_in_A []" and res = StopIteration,
     THEN conjunct2, THEN conjunct2, THEN conjunct1, THEN mp, OF hd]
  have d: "\<not> restoring_from_cookie (ex_iter_in_A [])"
    using D by (simp add: cookie_sz_def cur_depth_def ex_iter_in_A_def)
  have he: "0 < cur_depth ?at_end \<and> cur_depth ?at_end < MAX_DEPTH
        \<and> dir_dirp (last (dir_stack ?at_end)) = []
        \<and> cookies ?at_end = Some [1, 11] \<and> cur_depth ?at_end < length [1, 11 :: u64]
        \<and> [1, 11 :: u64] ! cur_depth ?at_end \<noteq> 0"
    by (simp add: MAX_DEPTH_def)
  note E = restore_mode_pass
    [where self = ?at_end and cs = "[1, 11]",
     THEN conjunct2, THEN conjunct2, THEN conjunct2, THEN mp, OF he]
  have e: "next_loop ?at_end = Some (Raise (IteratorRestoreError 1 ''/mnt/tank''), ?at_end)"
    using E by simp
  from a b c d e show ?thesis by blast
qed

subsection \<open>A snapshot taken in the root\<close>

lemma next_loop_Continue:
  "0 < cur_depth s \<Longrightarrow> iter_step s = Continue s' \<Longrightarrow> next_loop s = next_loop s'"
  by (subst next_loop.simps) simp

lemma next_loop_Return:
  "0 < cur_depth s \<Longrightarrow> iter_step s = Return res s' \<Longrightarrow> next_loop s = Some (res, s')"
  by (subst next_loop.simps) simp

lemma next_loop_stop: "cur_depth s = 0 \<Longrightarrow> next_loop s = Some (StopIteration, s)"
  by (subst next_loop.simps) simp

lemma ex_at_depth [simp]: "cur_depth (ex_at c r st e n b) = length st"
  by (simp add: ex_at_def cur_depth_def)

lemma ex_iter_at:
  "ex_iter c stream =
     ex_at c (c \<noteq> None) [ex_root_frame stream]
       \<lparr>last_name = [], last_st = \<lparr>stx_mode = 0, stx_ino = 0, stx_size = 0, stx_btime_sec = 0\<rparr>,
        last_fd = - 1, last_is_dir = False\<rparr> 0 0"
  by (simp add: ex_iter_def ex_at_def ex_root_frame_def ex_state0_def)

lemma next_at:
  "FilesystemIterator_next (ex_at c r st e n b) =
     next_loop (ex_at c r st (if last_fd e \<ge> 0 then e\<lparr>last_fd := - 1\<rparr> else e) n b)"
  by (simp add: FilesystemIterator_next_def ex_at_def Let_def)

lemma ex_statx_kind [simp]:
  "\<not> stx_isdir (ex_file_statx i)" "stx_isdir (ex_dir_statx i)"
  "stx_size (ex_file_statx i) = 5" "stx_ino (ex_dir_statx i) = i"
  by (simp_all add: stx_isdir_def S_ISDIR_def ex_file_statx_def ex_dir_statx_def)

lemmas step_eval =
  iter_step_def MAX_DEPTH_def ex_at_def advance_top_def cookie_check_def pne_eintr_def
  process_next_entry_def dispatch_action_def push_dir_stack_def pop_dir_stack_def
  cur_depth_def cookie_sz_def create_iter_instance_def NAME_MAX_def PATH_MAX_def Let_def
  check_and_invoke_reporting_callback_def ex_root_frame_def ex_A_frame_def ex_last_def

lemma step_file_f:
  "iter_step (ex_at c r [ex_root_frame (ex_entry_f # rest)] e n b) =
     Return (Yield ex_inst_f)
       (ex_at c r [ex_root_frame rest] (ex_last ''f'' (ex_file_statx 10) 5) (n + 1) (b + 5))"
  if "c = None \<or> c = Some [1]"
  using that by (auto simp: step_eval ex_entry_f_def ex_inst_f_def)

lemma step_dir_A_restoring:
  "iter_step (ex_at (Some [1]) True [ex_root_frame (ex_entry_A # rest)] e n b) =
     Continue (ex_at None False [ex_root_frame rest, ex_A_frame [ex_entry_g]]
                 (ex_last ''A'' (ex_dir_statx 11) 5) n b)"
  by (simp add: step_eval ex_entry_A_def)

lemma step_dir_A_plain:
  "iter_step (ex_at None False [ex_root_frame (ex_entry_A # rest)] e n b) =
     Return (Yield ex_inst_A)
       (ex_at None False [ex_root_frame rest, ex_A_frame [ex_entry_g]]
          (ex_last ''A'' (ex_dir_statx 11) 5) (n + 1) b)"
  by (simp add: step_eval ex_entry_A_def ex_inst_A_def)

lemma step_file_g:
  "iter_step (ex_at None False [ex_root_frame rest, ex_A_frame (ex_entry_g # later)] e n b) =
     Return (Yield ex_inst_g)
       (ex_at None False [ex_root_frame rest, ex_A_frame later]
          (ex_last ''g'' (ex_file_statx 12) 6) (n + 1) (b + 5))"
  by (simp add: step_eval ex_entry_g_def ex_inst_g_def)

lemma step_pop_A:
  "iter_step (ex_at None False [ex_root_frame rest, ex_A_frame []] e n b) =
     Continue (ex_at None False [ex_root_frame rest] e n b)"
  by (simp add: step_eval)

lemma step_pop_root:
  "iter_step (ex_at None False [ex_root_frame []] e n b) = Continue (ex_at None False [] e n b)"
  by (simp add: step_eval)

lemma ex_last_fd [simp]: "last_fd (ex_last nm sx fd) = fd"
  by (simp add: ex_last_def)

lemma run_with_snapshot:
  "next_calls 3 (ex_iter (Some [1]) [ex_entry_f, ex_entry_A]) =
     [Yield ex_inst_f, Yield ex_inst_g, StopIteration]"
proof -
  let ?e0 = "\<lparr>last_name = [], last_st = \<lparr>stx_mode = 0, stx_ino = 0, stx_size = 0, stx_btime_sec = 0\<rparr>,
        last_fd = - 1, last_is_dir = False\<rparr>"
  let ?ef = "ex_last ''f'' (ex_file_statx 10) 5"
  let ?eA = "ex_last ''A'' (ex_dir_statx 11) 5"
  let ?eg = "ex_last ''g'' (ex_file_statx 12) 6"
  let ?s0 = "ex_at (Some [1]) True [ex_root_frame [ex_entry_f, ex_entry_A]] ?e0 0 0"
  let ?s1 = "ex_at (Some [1]) True [ex_root_frame [ex_entry_A]] ?ef 1 5"
  let ?s3 = "ex_at None False [ex_root_frame [], ex_A_frame []] ?eg 2 10"
  let ?s4 = "ex_at None False [] (?eg\<lparr>last_fd := - 1\<rparr>) 2 10"
  have c1: "FilesystemIterator_next ?s0 = Some (Yield ex_inst_f, ?s1)"
    unfolding next_at
    using next_loop_Return [OF _ step_file_f [of "Some [1]" True "[ex_entry_A]" ?e0 0 0]]
    by simp
  have c2: "FilesystemIterator_next ?s1 = Some (Yield ex_inst_g, ?s3)"
  proof -
    let ?a = "ex_at (Some [1]) True [ex_root_frame [ex_entry_A]] (?ef\<lparr>last_fd := - 1\<rparr>) 1 5"
    let ?b = "ex_at None False [ex_root_frame [], ex_A_frame [ex_entry_g]] ?eA 1 5"
    have "next_loop ?a = next_loop ?b"
      by (rule next_loop_Continue [OF _ step_dir_A_restoring]) simp
    also have "\<dots> = Some (Yield ex_inst_g, ?s3)"
      using next_loop_Return [OF _ step_file_g [of "[]" "[]" ?eA 1 5]] by simp
    finally show ?thesis unfolding next_at by simp
  qed
  have c3: "FilesystemIterator_next ?s3 = Some (StopIteration, ?s4)"
  proof -
    let ?e = "?eg\<lparr>last_fd := - 1\<rparr>"
    have "next_loop (ex_at None False [ex_root_frame [], ex_A_frame []] ?e 2 10)
          = next_loop (ex_at None False [ex_root_frame []] ?e 2 10)"
      by (rule next_loop_Continue [OF _ step_pop_A]) simp
    also have "\<dots> = next_loop ?s4"
      by (rule next_loop_Continue [OF _ step_pop_root]) simp
    also have "\<dots> = Some (StopIteration, ?s4)"
      by (rule next_loop_stop) simp
    finally show ?thesis unfolding next_at by simp
  qed
  show ?thesis
    unfolding ex_iter_at by (simp add: eval_nat_numeral c1 c2 c3)
qed

lemma run_without_snapshot:
  "next_calls 4 (ex_iter None [ex_entry_f, ex_entry_A]) =
     [Yield ex_inst_f, Yield ex_inst_A, Yield ex_inst_g, StopIteration]"
proof -
  let ?e0 = "\<lparr>last_name = [], last_st = \<lparr>stx_mode = 0, stx_ino = 0, stx_size = 0, stx_btime_sec = 0\<rparr>,
        last_fd = - 1, last_is_dir = False\<rparr>"
  let ?ef = "ex_last ''f'' (ex_file_statx 10) 5"
  let ?eA = "ex_last ''A'' (ex_dir_statx 11) 5"
  let ?eg = "ex_last ''g'' (ex_file_statx 12) 6"
  let ?s0 = "ex_at None False [ex_root_frame [ex_entry_f, ex_entry_A]] ?e0 0 0"
  let ?s1 = "ex_at None False [ex_root_frame [ex_entry_A]] ?ef 1 5"
  let ?s2 = "ex_at None False [ex_root_frame [], ex_A_frame [ex_entry_g]] ?eA 2 5"
  let ?s3 = "ex_at None False [ex_root_frame [], ex_A_frame []] ?eg 3 10"
  let ?s4 = "ex_at None False [] (?eg\<lparr>last_fd := - 1\<rparr>) 3 10"
  have c1: "FilesystemIterator_next ?s0 = Some (Yield ex_inst_f, ?s1)"
    unfolding next_at
    using next_loop_Return [OF _ step_file_f [of None False "[ex_entry_A]" ?e0 0 0]]
    by simp
  have c2: "FilesystemIterator_next ?s1 = Some (Yield ex_inst_A, ?s2)"
    unfolding next_at
    using next_loop_Return [OF _ step_dir_A_plain [of "[]" "?ef\<lparr>last_fd := - 1\<rparr>" 1 5]]
    by simp
  have c3: "FilesystemIterator_next ?s2 = Some (Yield ex_inst_g, ?s3)"
    unfolding next_at
    using next_loop_Return [OF _ step_file_g [of "[]" "[]" "?eA\<lparr>last_fd := - 1\<rparr>" 2 5]]
    by simp
  have c4: "FilesystemIterator_next ?s3 = Some (StopIteration, ?s4)"
  proof -
    let ?e = "?eg\<lparr>last_fd := - 1\<rparr>"
    have "next_loop (ex_at None False [ex_root_frame [], ex_A_frame []] ?e 3 10)
          = next_loop (ex_at None False [ex_root_frame []] ?e 3 10)"
      by (rule next_loop_Continue [OF _ step_pop_A]) simp
    also have "\<dots> = next_loop ?s4"
      by (rule next_loop_Continue [OF _ step_pop_root]) simp
    also have "\<dots> = Some (StopIteration, ?s4)"
      by (rule next_loop_stop) simp
    finally show ?thesis unfolding next_at by simp
  qed
  show ?thesis
    unfolding ex_iter_at by (simp add: eval_nat_numeral c1 c2 c3 c4)
qed

text \<open>
  Claim C4.  A snapshot of one entry, \<open>((/mnt/tank, 1),)\<close>, is what \<open>dir_stack()\<close>
  returns while the iterator is in the root.  The iterator constructed with it has its
  restore flag set although \<open>cur_depth\<close> already equals the number of cookies, and the
  flag is cleared only after the next push.  So the traversal of the tree yields \<open>f\<close>
  and then \<open>g\<close> inside \<open>A\<close>: the directory \<open>A\<close> is entered but never yielded, where the
  same traversal without a snapshot yields \<open>f\<close>, \<open>A\<close>, \<open>g\<close>.
\<close>

theorem C4_one_entry_snapshot_skips_directory:
  "ex_create ex_snapshot_root [ex_entry_f, ex_entry_A] =
     Inr (ex_iter (Some [1]) [ex_entry_f, ex_entry_A])
   \<and> restoring_from_cookie (ex_iter (Some [1]) [ex_entry_f, ex_entry_A])
   \<and> cur_depth (ex_iter (Some [1]) [ex_entry_f, ex_entry_A]) = 1
   \<and> cookie_sz (ex_iter (Some [1]) [ex_entry_f, ex_entry_A]) = 1
   \<and> next_calls 3 (ex_iter (Some [1]) [ex_entry_f, ex_entry_A]) =
       [Yield ex_inst_f, Yield ex_inst_g, StopIteration]
   \<and> ex_create DS_absent [ex_entry_f, ex_entry_A] = Inr (ex_iter None [ex_entry_f, ex_entry_A])
   \<and> next_calls 4 (ex_iter None [ex_entry_f, ex_entry_A]) =
       [Yield ex_inst_f, Yield ex_inst_A, Yield ex_inst_g, StopIteration]"
  using ex_create_eval(1) [of "[ex_entry_f, ex_entry_A]"]
        ex_create_absent [of "[ex_entry_f, ex_entry_A]"]
        run_with_snapshot run_without_snapshot
  by (simp add: cookie_sz_def)

section \<open>Filesystem iterator: the depth ceiling\<close>

lemma isdir_sub: "stx_isdir ex_sub_statx"
  by (simp add: stx_isdir_def ex_sub_statx_def S_ISDIR_def)

lemma ino_sub: "stx_ino ex_sub_statx = 99"
  by (simp add: ex_sub_statx_def)

lemma assert_at_max_depth:
  assumes "cur_depth self = MAX_DEPTH"
  shows "next_loop self = Some (AssertFailed ''Iterator depth exceeded MAX_DEPTH'', self)"
  using assms by (subst next_loop.simps) (simp add: iter_step_def MAX_DEPTH_def)

text \<open>
  Claim C5.  The guard of \<open>push_dir_stack\<close> lets the stack grow to \<open>MAX_DEPTH = 2048\<close>
  frames, and at 2048 frames a further push is refused with the message that names the
  path.  The main loop, however, asserts \<open>cur_depth < MAX_DEPTH\<close> at the start of every
  pass.  On the chain above the call of \<open>__next__\<close> made at 2047 frames pushes frame
  2048 and yields the directory; the next call then stops at the assertion, before
  anything of the directory at frame 2048 is read and before any further push is tried.
\<close>

theorem C5_depth_2048_assertion:
  "cur_depth ex_depth_2047 = 2047
   \<and> FilesystemIterator_next ex_depth_2047 =
       Some (Yield \<lparr>inst_parent = ''/mnt/tank/d'', inst_name = ''sub'', inst_fd = 7,
                    inst_statx = ex_sub_statx, inst_isdir = True\<rparr>, ex_depth_2048)
   \<and> cur_depth ex_depth_2048 = MAX_DEPTH
   \<and> FilesystemIterator_next ex_depth_2048 =
       Some (AssertFailed ''Iterator depth exceeded MAX_DEPTH'',
             ex_depth_2048\<lparr>last_entry := (last_entry ex_depth_2048)\<lparr>last_fd := - 1\<rparr>\<rparr>)
   \<and> push_dir_stack ex_depth_2048 ''/mnt/tank/d/sub'' None None [] =
       (False, ex_depth_2048, ''max depth 2048 exceeded at /mnt/tank/d/sub/sub'')"
proof (intro conjI)
  show "push_dir_stack ex_depth_2048 ''/mnt/tank/d/sub'' None None [] =
       (False, ex_depth_2048, ''max depth 2048 exceeded at /mnt/tank/d/sub/sub'')"
    by (simp add: push_dir_stack_def cur_depth_def ex_depth_2048_def ex_iter_idle_def
        MAX_DEPTH_def PATH_MAX_def Let_def)
  show d7: "cur_depth ex_depth_2047 = 2047"
    by (simp add: cur_depth_def ex_depth_2047_def)
  show d8: "cur_depth ex_depth_2048 = MAX_DEPTH"
    by (simp add: cur_depth_def ex_depth_2048_def MAX_DEPTH_def)
  have step: "iter_step ex_depth_2047 =
       Return (Yield \<lparr>inst_parent = ''/mnt/tank/d'', inst_name = ''sub'', inst_fd = 7,
                    inst_statx = ex_sub_statx, inst_isdir = True\<rparr>) ex_depth_2048"
    using isdir_sub ino_sub
    by (simp add: iter_step_def d7 MAX_DEPTH_def ex_depth_2047_def ex_depth_2048_def
        ex_iter_idle_def advance_top_def cookie_check_def pne_eintr_def
        process_next_entry_def dispatch_action_def push_dir_stack_def cur_depth_def
        create_iter_instance_def check_and_invoke_reporting_callback_def NAME_MAX_def
        PATH_MAX_def Let_def)
  show "FilesystemIterator_next ex_depth_2047 =
       Some (Yield \<lparr>inst_parent = ''/mnt/tank/d'', inst_name = ''sub'', inst_fd = 7,
                    inst_statx = ex_sub_statx, inst_isdir = True\<rparr>, ex_depth_2048)"
  proof -
    have pre: "FilesystemIterator_next ex_depth_2047 = next_loop ex_depth_2047"
      by (simp add: FilesystemIterator_next_def ex_depth_2047_def ex_iter_idle_def)
    show ?thesis
      unfolding pre by (subst next_loop.simps) (simp add: d7 step)
  qed
  show "FilesystemIterator_next ex_depth_2048 =
       Some (AssertFailed ''Iterator depth exceeded MAX_DEPTH'',
             ex_depth_2048\<lparr>last_entry := (last_entry ex_depth_2048)\<lparr>last_fd := - 1\<rparr>\<rparr>)"
  proof -
    let ?s = "ex_depth_2048\<lparr>last_entry := (last_entry ex_depth_2048)\<lparr>last_fd := - 1\<rparr>\<rparr>"
    have pre: "FilesystemIterator_next ex_depth_2048 = next_loop ?s"
      by (simp add: FilesystemIterator_next_def ex_depth_2048_def ex_iter_idle_def)
    have "cur_depth ?s = MAX_DEPTH"
      using d8 by (simp add: cur_depth_def)
    from assert_at_max_depth [OF this] show ?thesis
      unfolding pre .
  qed
qed

section \<open>Unified ACL read: probe classification\<close>

lemma fgetacl_posix_default_tag:
  assumes "fgetacl_posix_default acc s = Some (Inr a)"
  shows "\<exists>dfl. a = ACLTYPE_POSIX acc dfl"
  using assms
  by (auto simp: fgetacl_posix_default_def split: option.splits prod.splits if_splits
      xattr_reply.splits sum.splits)

lemma fgetacl_posix_tag:
  assumes "fgetacl_posix s = Some (Inr a)"
  shows "\<exists>acc dfl. a = ACLTYPE_POSIX acc dfl"
  using assms
  by (auto simp: fgetacl_posix_def split: option.splits prod.splits if_splits
      xattr_reply.splits sum.splits dest: fgetacl_posix_default_tag)

text \<open>
  Claim C6.  Let \<open>r\<close> be the answer of the zero-length probe of
  \<open>system.nfs4_acl_xdr\<close>.  A size or \<open>ENODATA\<close> classifies the ACL as NFS4: every
  successful result is the NFS4 variant, \<open>ENODATA\<close> (or size 0) gives the empty NFS4
  ACL, and the only possible failure is that of the read that follows a positive size.
  Any errno other than \<open>ENODATA\<close> and \<open>EOPNOTSUPP\<close> is raised as it is.
  \<open>EOPNOTSUPP\<close> falls through to the POSIX pair: there, a probe of
  \<open>system.posix_acl_access\<close> that also answers \<open>EOPNOTSUPP\<close> raises that error,
  \<open>ENODATA\<close> on the access or on the default xattr leaves that component absent, and
  every successful result is the POSIX variant.
\<close>

theorem C6_fgetacl_probe_classification:
  "(probe_answer s r s1 \<longrightarrow>
      ((\<exists>v. r = Xattr_ok v) \<or> r = Xattr_err ENODATA \<longrightarrow>
          (\<forall>a. do_fgetacl s = Some (Inr a) \<longrightarrow> (\<exists>d. a = ACLTYPE_NFS4 d))
        \<and> (\<forall>e. do_fgetacl s = Some (Inl e) \<longrightarrow>
              (\<exists>v s2. r = Xattr_ok v \<and> length v > 0 \<and> read_xattr_raw s1 = Some (Inl e, s2))))
    \<and> (r = Xattr_err ENODATA \<or> r = Xattr_ok [] \<longrightarrow> do_fgetacl s = Some (Inr (ACLTYPE_NFS4 None)))
    \<and> (\<forall>v d s2. r = Xattr_ok v \<and> length v > 0 \<and> read_xattr_raw s1 = Some (Inr d, s2)
          \<longrightarrow> do_fgetacl s = Some (Inr (ACLTYPE_NFS4 (Some d))))
    \<and> (\<forall>e. r = Xattr_err e \<and> e \<noteq> ENODATA \<and> e \<noteq> EOPNOTSUPP
          \<longrightarrow> do_fgetacl s = Some (Inl (OSError e)))
    \<and> (r = Xattr_err EOPNOTSUPP \<longrightarrow> do_fgetacl s = fgetacl_posix s1))
 \<and> (probe_answer s1 r2 s2 \<longrightarrow>
      (r2 = Xattr_err EOPNOTSUPP \<longrightarrow> fgetacl_posix s1 = Some (Inl (OSError EOPNOTSUPP)))
    \<and> (\<forall>a. fgetacl_posix s1 = Some (Inr a) \<longrightarrow> (\<exists>acc dfl. a = ACLTYPE_POSIX acc dfl))
    \<and> (r2 = Xattr_err ENODATA \<longrightarrow> fgetacl_posix s1 = fgetacl_posix_default None s2))
 \<and> (probe_answer s2 r3 s3 \<longrightarrow>
      (r3 = Xattr_err ENODATA \<longrightarrow> fgetacl_posix_default acc s2 = Some (Inr (ACLTYPE_POSIX acc None)))
    \<and> (\<forall>a. fgetacl_posix_default acc s2 = Some (Inr a) \<longrightarrow> (\<exists>dfl. a = ACLTYPE_POSIX acc dfl)))"
proof (intro conjI impI)
  assume p: "probe_answer s r s1"
  then have q: "retry_eintr xattr_eintr s = Some ((r, False), s1)"
    by (simp add: probe_answer_def)
  show "r = Xattr_err ENODATA \<or> r = Xattr_ok [] \<Longrightarrow> do_fgetacl s = Some (Inr (ACLTYPE_NFS4 None))"
    by (auto simp: do_fgetacl_def q)
  show "\<forall>v d s2. r = Xattr_ok v \<and> length v > 0 \<and> read_xattr_raw s1 = Some (Inr d, s2)
          \<longrightarrow> do_fgetacl s = Some (Inr (ACLTYPE_NFS4 (Some d)))"
    by (auto simp: do_fgetacl_def q)
  show "\<forall>e. r = Xattr_err e \<and> e \<noteq> ENODATA \<and> e \<noteq> EOPNOTSUPP
          \<longrightarrow> do_fgetacl s = Some (Inl (OSError e))"
    by (auto simp: do_fgetacl_def q)
  show "r = Xattr_err EOPNOTSUPP \<Longrightarrow> do_fgetacl s = fgetacl_posix s1"
    by (auto simp: do_fgetacl_def q ENODATA_def EOPNOTSUPP_def)
  assume n: "(\<exists>v. r = Xattr_ok v) \<or> r = Xattr_err ENODATA"
  show "\<forall>a. do_fgetacl s = Some (Inr a) \<longrightarrow> (\<exists>d. a = ACLTYPE_NFS4 d)"
    using n by (auto simp: do_fgetacl_def q split: option.splits prod.splits sum.splits if_splits)
  show "\<forall>e. do_fgetacl s = Some (Inl e) \<longrightarrow>
              (\<exists>v s2. r = Xattr_ok v \<and> length v > 0 \<and> read_xattr_raw s1 = Some (Inl e, s2))"
    using n by (auto simp: do_fgetacl_def q split: option.splits prod.splits sum.splits if_splits)
next
  assume "probe_answer s1 r2 s2"
  then have q: "retry_eintr xattr_eintr s1 = Some ((r2, False), s2)"
    by (simp add: probe_answer_def)
  show "r2 = Xattr_err EOPNOTSUPP \<Longrightarrow> fgetacl_posix s1 = Some (Inl (OSError EOPNOTSUPP))"
    by (simp add: fgetacl_posix_def q)
  show "\<forall>a. fgetacl_posix s1 = Some (Inr a) \<longrightarrow> (\<exists>acc dfl. a = ACLTYPE_POSIX acc dfl)"
    using fgetacl_posix_tag by blast
  show "r2 = Xattr_err ENODATA \<Longrightarrow> fgetacl_posix s1 = fgetacl_posix_default None s2"
    by (simp add: fgetacl_posix_def q ENODATA_def EOPNOTSUPP_def)
next
  assume "probe_answer s2 r3 s3"
  then have q: "retry_eintr xattr_eintr s2 = Some ((r3, False), s3)"
    by (simp add: probe_answer_def)
  show "r3 = Xattr_err ENODATA \<Longrightarrow> fgetacl_posix_default acc s2 = Some (Inr (ACLTYPE_POSIX acc None))"
    by (simp add: fgetacl_posix_default_def q)
  show "\<forall>a. fgetacl_posix_default acc s2 = Some (Inr a) \<longrightarrow> (\<exists>dfl. a = ACLTYPE_POSIX acc dfl)"
    using fgetacl_posix_default_tag by blast
qed

text \<open>
  Three runs: a POSIX filesystem where both xattrs are absent, a filesystem with ACLs
  disabled, and an NFSv4 filesystem with an 8-byte ACL.
\<close>

theorem C6_witness:
  "do_fgetacl ex_script_posix_empty = Some (Inr (ACLTYPE_POSIX None None))
   \<and> do_fgetacl ex_script_noacl = Some (Inl (OSError EOPNOTSUPP))
   \<and> do_fgetacl ex_script_nfs4 = Some (Inr (ACLTYPE_NFS4 (Some [0, 0, 0, 0, 0, 0, 0, 0])))"
proof (intro conjI)
  let ?s1 = "[(Xattr_err ENODATA, False), (Xattr_err ENODATA, False)]"
  let ?s2 = "[(Xattr_err ENODATA, False)]"
  have p1: "probe_answer ex_script_posix_empty (Xattr_err EOPNOTSUPP) ?s1"
    by (simp add: probe_answer_def ex_script_posix_empty_def xattr_eintr_def EINTR_def EOPNOTSUPP_def)
  have p2: "probe_answer ?s1 (Xattr_err ENODATA) ?s2"
    by (simp add: probe_answer_def xattr_eintr_def EINTR_def ENODATA_def)
  have p3: "probe_answer ?s2 (Xattr_err ENODATA) []"
    by (simp add: probe_answer_def xattr_eintr_def EINTR_def ENODATA_def)
  from C6_fgetacl_probe_classification
    [of ex_script_posix_empty "Xattr_err EOPNOTSUPP" ?s1 "Xattr_err ENODATA" ?s2 "Xattr_err ENODATA" "[]" None]
    p1 p2 p3
  show "do_fgetacl ex_script_posix_empty = Some (Inr (ACLTYPE_POSIX None None))"
    by simp
next
  let ?s1 = "[(Xattr_err EOPNOTSUPP, False)]"
  have p1: "probe_answer ex_script_noacl (Xattr_err EOPNOTSUPP) ?s1"
    by (simp add: probe_answer_def ex_script_noacl_def xattr_eintr_def EINTR_def EOPNOTSUPP_def)
  have p2: "probe_answer ?s1 (Xattr_err EOPNOTSUPP) []"
    by (simp add: probe_answer_def xattr_eintr_def EINTR_def EOPNOTSUPP_def)
  from C6_fgetacl_probe_classification
    [of ex_script_noacl "Xattr_err EOPNOTSUPP" ?s1 "Xattr_err EOPNOTSUPP" "[]" "Xattr_err ENODATA" "[]" None]
    p1 p2
  show "do_fgetacl ex_script_noacl = Some (Inl (OSError EOPNOTSUPP))"
    by simp
next
  let ?v = "[0, 0, 0, 0, 0, 0, 0, 0] :: byte list"
  let ?s1 = "[(Xattr_ok ?v, False)]"
  have p1: "probe_answer ex_script_nfs4 (Xattr_ok ?v) ?s1"
    by (simp add: probe_answer_def ex_script_nfs4_def xattr_eintr_def)
  have rd: "read_xattr_raw ?s1 = Some (Inr ?v, [])"
    by (simp add: read_xattr_raw_def xattr_eintr_def)
  from C6_fgetacl_probe_classification
    [of ex_script_nfs4 "Xattr_ok ?v" ?s1 "Xattr_err ENODATA" "[]" "Xattr_err ENODATA" "[]" None]
    p1 rd
  show "do_fgetacl ex_script_nfs4 = Some (Inr (ACLTYPE_NFS4 (Some ?v)))"
    by simp
qed

section \<open>NFSv4: validation\<close>

lemma bits_or: "(f AND (a OR b) = 0) = (f AND a = 0 \<and> f AND b = 0)" for f :: u32
  by (simp add: bit.conj_disj_distrib or_eq_0_iff)

lemma propagate_mask_iff:
  "(x_flags a AND NFS4_PROPAGATE_MASK \<noteq> 0) = nfs4_has_propagation_bit a"
  by (auto simp add: NFS4_PROPAGATE_MASK_def nfs4_has_propagation_bit_def bits_or)

lemma inherit_bits_iff:
  "(x_flags a AND (NFS4_ACE_FILE_INHERIT_ACE OR NFS4_ACE_DIRECTORY_INHERIT_ACE) \<noteq> 0) = nfs4_has_inherit_bit a"
  by (auto simp add: nfs4_has_inherit_bit_def bits_or)

lemma deny_special_iff:
  "(uint (x_type a) = NFS4_ACE_ACCESS_DENIED_ACE_TYPE \<and> x_iflag a = NFS4_IFLAG_SPECIAL) = nfs4_deny_special a"
proof -
  have "(uint (x_type a) = 1) = (x_type a = 1)"
    by (metis uint_1_eq word_uint_eq_iff)
  then show ?thesis
    by (simp add: nfs4_deny_special_def NFS4_ACE_ACCESS_DENIED_ACE_TYPE_def NFS4_IFLAG_SPECIAL_def)
qed

lemma inherit_only_iff:
  "(x_flags a AND NFS4_ACE_INHERIT_ONLY_ACE \<noteq> 0 \<and>
    x_flags a AND (NFS4_ACE_FILE_INHERIT_ACE OR NFS4_ACE_DIRECTORY_INHERIT_ACE) = 0) = nfs4_inherit_only_alone a"
  by (auto simp add: nfs4_inherit_only_alone_def bits_or)

lemma nfs4_valid_loop_char:
  assumes "NFS4_HDR_SZ \<le> length data"
  defines "k \<equiv> (length data - NFS4_HDR_SZ) div NFS4_ACE_SZ"
  shows "(if list_ex (\<lambda>a. nfs4_deny_special a \<or> nfs4_inherit_only_alone a) (map (nfs4_slot data) [i..<min n k])
          then \<exists>msg. nfs4_valid_loop data [i..<n] (hp, hi) = Inl (ValueError msg)
          else nfs4_valid_loop data [i..<n] (hp, hi) =
                 Inr (hp \<or> list_ex nfs4_has_propagation_bit (map (nfs4_slot data) [i..<min n k]),
                      hi \<or> list_ex nfs4_has_inherit_bit (map (nfs4_slot data) [i..<min n k])))"
proof (induction "n - i" arbitrary: i hp hi)
  case 0
  then show ?case by simp
next
  case (Suc d)
  then have lt: "i < n" and d: "d = n - Suc i" by simp_all
  show ?case
  proof (cases "i \<ge> k")
    case True
    then show ?thesis using lt assms(1)
      by (simp add: upt_conv_Cons slot_fits k_def del: upt_Suc)
  next
    case False
    then have m: "[i..<min n k] = i # [Suc i..<min n k]"
      using lt by (simp add: upt_conv_Cons)
    have fit: "\<not> length data < NFS4_HDR_SZ + (NFS4_ACE_SZ + i * NFS4_ACE_SZ)"
      using False assms(1) by (simp add: slot_fits k_def)
    show ?thesis
      using Suc(1) [OF d, of "hp \<or> nfs4_has_propagation_bit (nfs4_slot data i)"
                              "hi \<or> nfs4_has_inherit_bit (nfs4_slot data i)"] lt fit
      unfolding m
      by (simp add: upt_conv_Cons [OF lt] Let_def deny_special_iff inherit_only_iff
          propagate_mask_iff inherit_bits_iff disj_assoc del: upt_Suc)
  qed
qed

lemma nfs4acl_valid_char:
  assumes len: "NFS4_HDR_SZ \<le> length data"
      and st: "fd = - 1 \<or> (\<exists>m. st = Fstat_mode m)"
  shows "(if nfs4_spec_invalid (target_is_dir fd st) (nfs4_raw_aces data)
          then \<exists>msg. nfs4acl_valid fd st data = Inl (ValueError msg)
          else nfs4acl_valid fd st data = Inr ())"
proof -
  let ?aces = "map (nfs4_slot data)
      [0..<min (unat (be32_at data 1)) ((length data - NFS4_HDR_SZ) div NFS4_ACE_SZ)]"
  have raw: "nfs4_raw_aces data = ?aces"
    using len by (simp add: nfs4_raw_aces_def)
  have dir: "(if fd = - 1 then Inr True
              else (case st of Fstat_errno e \<Rightarrow> Inl (OSError e) | Fstat_mode m \<Rightarrow> Inr (S_ISDIR m)))
             = Inr (target_is_dir fd st)"
    using st by (auto simp: target_is_dir_def)
  note loop = nfs4_valid_loop_char [OF len, of 0 "unat (be32_at data 1)" False False]
  show ?thesis
  proof (cases "list_ex (\<lambda>a. nfs4_deny_special a \<or> nfs4_inherit_only_alone a) ?aces")
    case True
    then obtain msg where "nfs4_valid_loop data [0..<unat (be32_at data 1)] (False, False) = Inl (ValueError msg)"
      using loop by auto
    moreover have "nfs4_spec_invalid (target_is_dir fd st) (nfs4_raw_aces data)"
      using True unfolding raw nfs4_spec_invalid_def list_ex_iff by blast
    ultimately show ?thesis
      using len by (simp add: nfs4acl_valid_def Let_def)
  next
    case False
    then have l: "nfs4_valid_loop data [0..<unat (be32_at data 1)] (False, False) =
        Inr (list_ex nfs4_has_propagation_bit ?aces, list_ex nfs4_has_inherit_bit ?aces)"
      using loop by simp
    have nb: "\<not> list_ex nfs4_deny_special ?aces" "\<not> list_ex nfs4_inherit_only_alone ?aces"
      using False unfolding list_ex_iff by blast+
    show ?thesis
      unfolding raw nfs4_spec_invalid_def
      using len nb l dir
      by (auto simp add: nfs4acl_valid_def Let_def)
  qed
qed

text \<open>
  Claim C7, as amended.  \<open>nfs4acl_valid\<close> accepts every blob shorter than the 8-byte
  header without looking at anything else.  For a blob that holds the header, and a
  target that is absent (\<open>fd = -1\<close>, treated as a directory) or whose \<open>fstat\<close>
  succeeds, it raises \<open>ValueError\<close> exactly when one of the four conditions holds over
  the ACEs of the blob: a DENY ACE with \<open>iflag = 1\<close>; an ACE with \<open>INHERIT_ONLY\<close>
  and neither \<open>FILE_INHERIT\<close> nor \<open>DIRECTORY_INHERIT\<close>; an ACE with a propagation
  bit on a target that is not a directory; a directory target and no ACE with
  \<open>FILE_INHERIT\<close> or \<open>DIRECTORY_INHERIT\<close>.  Otherwise it accepts.
\<close>

theorem C7_nfs4acl_valid_amended:
  "(length data < NFS4_HDR_SZ \<longrightarrow> nfs4acl_valid fd st data = Inr ())
 \<and> (NFS4_HDR_SZ \<le> length data \<and> (fd = - 1 \<or> (\<exists>m. st = Fstat_mode m)) \<longrightarrow>
      ((\<exists>msg. nfs4acl_valid fd st data = Inl (ValueError msg))
         \<longleftrightarrow> nfs4_spec_invalid (target_is_dir fd st) (nfs4_raw_aces data))
    \<and> (\<not> nfs4_spec_invalid (target_is_dir fd st) (nfs4_raw_aces data)
         \<longrightarrow> nfs4acl_valid fd st data = Inr ()))"
proof (intro conjI impI)
  assume "length data < NFS4_HDR_SZ"
  then show "nfs4acl_valid fd st data = Inr ()" by (simp add: nfs4acl_valid_def)
next
  assume a: "NFS4_HDR_SZ \<le> length data \<and> (fd = - 1 \<or> (\<exists>m. st = Fstat_mode m))"
  note c = nfs4acl_valid_char [of data fd st]
  show "(\<exists>msg. nfs4acl_valid fd st data = Inl (ValueError msg))
         \<longleftrightarrow> nfs4_spec_invalid (target_is_dir fd st) (nfs4_raw_aces data)"
    using c a by (cases "nfs4_spec_invalid (target_is_dir fd st) (nfs4_raw_aces data)") auto
  assume "\<not> nfs4_spec_invalid (target_is_dir fd st) (nfs4_raw_aces data)"
  then show "nfs4acl_valid fd st data = Inr ()"
    using c a by auto
qed

text \<open>
  The claim as stated fails on the empty blob with an absent fd: the target counts as a
  directory and no ACE has an inherit bit, yet the blob is accepted.
\<close>

theorem C7_counterexample:
  "nfs4_spec_invalid (target_is_dir (- 1) (Fstat_errno 9)) (nfs4_raw_aces [])
   \<and> nfs4acl_valid (- 1) (Fstat_errno 9) [] = Inr ()"
  by (simp add: nfs4_spec_invalid_def target_is_dir_def nfs4_raw_aces_def nfs4acl_valid_def
      NFS4_HDR_SZ_def)

lemma ex_deny_owner_raw:
  "nfs4_raw_aces ex_deny_owner = [\<lparr>x_type = 1, x_flags = 0x1, x_iflag = 1, x_mask = 1, x_who = 1\<rparr>]"
  using nfs4_raw_aces_pack [of "[\<lparr>x_type = 1, x_flags = 0x1, x_iflag = 1, x_mask = 1, x_who = 1\<rparr>]" 0]
  by (simp add: ex_deny_owner_def nfs4_xdr_bytes_def)

text \<open>
  The amended claim at three inputs: a directory ACL with an inheritable ACE is accepted,
  a DENY for \<open>OWNER@\<close> is rejected, and inherit bits on a regular file are rejected.
\<close>

theorem C7_witness:
  "nfs4acl_valid (- 1) (Fstat_errno 9) ex_parent_dir = Inr ()
   \<and> (\<exists>msg. nfs4acl_valid 3 (Fstat_mode 0x41ED) ex_deny_owner = Inl (ValueError msg))
   \<and> (\<exists>msg. nfs4acl_valid 3 (Fstat_mode 0x81A4) ex_parent_dir = Inl (ValueError msg))"
proof (intro conjI)
  have "\<not> nfs4_spec_invalid (target_is_dir (- 1) (Fstat_errno 9)) (nfs4_raw_aces ex_parent_dir)"
    by (simp add: ex_parent_raw nfs4_spec_invalid_def target_is_dir_def nfs4_deny_special_def
        nfs4_inherit_only_alone_def nfs4_has_inherit_bit_def NFS4_ACE_INHERIT_ONLY_ACE_def
        NFS4_ACE_FILE_INHERIT_ACE_def NFS4_ACE_DIRECTORY_INHERIT_ACE_def)
  moreover have "NFS4_HDR_SZ \<le> length ex_parent_dir"
    by (simp add: ex_parent_dir_def NFS4_HDR_SZ_def)
  ultimately show "nfs4acl_valid (- 1) (Fstat_errno 9) ex_parent_dir = Inr ()"
    using C7_nfs4acl_valid_amended [of ex_parent_dir "- 1" "Fstat_errno 9"] by simp
next
  have "nfs4_spec_invalid (target_is_dir 3 (Fstat_mode 0x41ED)) (nfs4_raw_aces ex_deny_owner)"
    by (simp add: ex_deny_owner_raw nfs4_spec_invalid_def nfs4_deny_special_def)
  moreover have "NFS4_HDR_SZ \<le> length ex_deny_owner"
    by (simp add: ex_deny_owner_def NFS4_HDR_SZ_def)
  ultimately show "\<exists>msg. nfs4acl_valid 3 (Fstat_mode 0x41ED) ex_deny_owner = Inl (ValueError msg)"
    using C7_nfs4acl_valid_amended [of ex_deny_owner 3 "Fstat_mode 0x41ED"] by simp
next
  have "nfs4_spec_invalid (target_is_dir 3 (Fstat_mode 0x81A4)) (nfs4_raw_aces ex_parent_dir)"
    by (simp add: ex_parent_raw nfs4_spec_invalid_def target_is_dir_def S_ISDIR_def
        nfs4_has_propagation_bit_def NFS4_ACE_FILE_INHERIT_ACE_def)
  moreover have "NFS4_HDR_SZ \<le> length ex_parent_dir"
    by (simp add: ex_parent_dir_def NFS4_HDR_SZ_def)
  ultimately show "\<exists>msg. nfs4acl_valid 3 (Fstat_mode 0x81A4) ex_parent_dir = Inl (ValueError msg)"
    using C7_nfs4acl_valid_amended [of ex_parent_dir 3 "Fstat_mode 0x81A4"] by simp
qed

section \<open>POSIX: validation\<close>

lemma validate_posix_loop_counts:
  assumes "validate_posix_loop label es c = Inr c'"
  shows "n_user_obj c' = n_user_obj c + count_tag POSIX_TAG_USER_OBJ es
       \<and> n_group_obj c' = n_group_obj c + count_tag POSIX_TAG_GROUP_OBJ es
       \<and> n_other c' = n_other c + count_tag POSIX_TAG_OTHER es
       \<and> n_mask c' = n_mask c + count_tag POSIX_TAG_MASK es
       \<and> n_named c' = n_named c + length (filter is_named_entry es)
       \<and> (\<forall>e\<in>set es. is_named_entry e \<longrightarrow> e_id e \<noteq> POSIX_SPECIAL_ID)"
  using assms
proof (induction es arbitrary: c)
  case Nil
  then show ?case by (simp add: count_tag_def)
next
  case (Cons e es)
  from Cons.prems obtain c1 where e: "validate_posix_entry label e c = Inr c1"
      and r: "validate_posix_loop label es c1 = Inr c'"
    by (auto split: sum.splits)
  note ih = Cons.IH [OF r]
  from e have step:
    "n_user_obj c1 = n_user_obj c + (if uint (e_tag e) = POSIX_TAG_USER_OBJ then 1 else 0)
     \<and> n_group_obj c1 = n_group_obj c + (if uint (e_tag e) = POSIX_TAG_GROUP_OBJ then 1 else 0)
     \<and> n_other c1 = n_other c + (if uint (e_tag e) = POSIX_TAG_OTHER then 1 else 0)
     \<and> n_mask c1 = n_mask c + (if uint (e_tag e) = POSIX_TAG_MASK then 1 else 0)
     \<and> n_named c1 = n_named c + (if is_named_entry e then 1 else 0)
     \<and> (is_named_entry e \<longrightarrow> e_id e \<noteq> POSIX_SPECIAL_ID)"
    by (auto simp: validate_posix_entry_def is_named_entry_def POSIX_TAG_USER_OBJ_def
        POSIX_TAG_USER_def POSIX_TAG_GROUP_OBJ_def POSIX_TAG_GROUP_def POSIX_TAG_MASK_def
        POSIX_TAG_OTHER_def split: if_splits)
  show ?case using ih step by (simp add: count_tag_def)
qed

text \<open>
  Claim C8.  A blob that \<open>validate_posix_blob\<close> accepts has exactly one
  \<open>USER_OBJ\<close>, one \<open>GROUP_OBJ\<close> and one \<open>OTHER\<close> entry; none of its named
  \<open>USER\<close> or \<open>GROUP\<close> entries carries the special id; it has exactly one
  \<open>MASK\<close> entry when a named entry is present, and never more than one.  When
  \<open>posixacl_valid\<close> accepts, the access blob passed that validation, and a non-null
  default blob was accepted only with an fd that \<open>fstat\<close> reports as a directory (and
  passed the same validation).
\<close>

theorem C8_posix_validation:
  "(validate_posix_blob data label = Inr () \<longrightarrow>
        count_tag POSIX_TAG_USER_OBJ (posix_entries data) = 1
      \<and> count_tag POSIX_TAG_GROUP_OBJ (posix_entries data) = 1
      \<and> count_tag POSIX_TAG_OTHER (posix_entries data) = 1
      \<and> (\<forall>e\<in>set (posix_entries data). is_named_entry e \<longrightarrow> e_id e \<noteq> POSIX_SPECIAL_ID)
      \<and> ((\<exists>e\<in>set (posix_entries data). is_named_entry e)
            \<longrightarrow> count_tag POSIX_TAG_MASK (posix_entries data) = 1)
      \<and> count_tag POSIX_TAG_MASK (posix_entries data) \<le> 1)
 \<and> (posixacl_valid fd st access_blob default_blob = Inr () \<longrightarrow>
        validate_posix_blob access_blob ''access'' = Inr ()
      \<and> (\<forall>d. default_blob = Some d \<longrightarrow>
             (\<exists>m. st = Fstat_mode m \<and> S_ISDIR m) \<and> validate_posix_blob d ''default'' = Inr ()))"
proof (intro conjI impI)
  assume ok: "validate_posix_blob data label = Inr ()"
  then obtain c where
      loop: "validate_posix_loop label (posix_entries data)
               \<lparr>n_user_obj = 0, n_group_obj = 0, n_other = 0, n_mask = 0, n_named = 0\<rparr> = Inr c"
    and fin: "n_user_obj c = 1" "n_group_obj c = 1" "n_other c = 1"
             "\<not> (n_named c > 0 \<and> n_mask c \<noteq> 1)" "\<not> n_mask c > 1"
    by (auto simp: validate_posix_blob_def posix_entries_def Let_def split: if_splits sum.splits)
  note cnt = validate_posix_loop_counts [OF loop]
  show "count_tag POSIX_TAG_USER_OBJ (posix_entries data) = 1"
       "count_tag POSIX_TAG_GROUP_OBJ (posix_entries data) = 1"
       "count_tag POSIX_TAG_OTHER (posix_entries data) = 1"
       "count_tag POSIX_TAG_MASK (posix_entries data) \<le> 1"
    using cnt fin by simp_all
  show "\<forall>e\<in>set (posix_entries data). is_named_entry e \<longrightarrow> e_id e \<noteq> POSIX_SPECIAL_ID"
    using cnt by blast
  assume "\<exists>e\<in>set (posix_entries data). is_named_entry e"
  then have "filter is_named_entry (posix_entries data) \<noteq> []"
    by (simp add: filter_empty_conv)
  then have "n_named c > 0" using cnt by simp
  then show "count_tag POSIX_TAG_MASK (posix_entries data) = 1"
    using cnt fin by simp
next
  assume ok: "posixacl_valid fd st access_blob default_blob = Inr ()"
  then show "validate_posix_blob access_blob ''access'' = Inr ()"
    by (auto simp: posixacl_valid_def split: sum.splits)
  show "\<forall>d. default_blob = Some d \<longrightarrow>
             (\<exists>m. st = Fstat_mode m \<and> S_ISDIR m) \<and> validate_posix_blob d ''default'' = Inr ()"
    using ok
    by (auto simp: posixacl_valid_def split: sum.splits option.splits fstat_result.splits if_splits)
qed

lemma ex_posix_access_valid: "validate_posix_blob ex_posix_access ''access'' = Inr ()"
  by (simp add: validate_posix_blob_def ex_posix_access_def POSIX_HDR_SZ_def POSIX_ACE_SZ_def
      read_le32_def POSIX_ACL_VERSION_def Let_def upt_rec validate_posix_entry_def posix_slot_def
      read_le16_def POSIX_TAG_USER_OBJ_def POSIX_TAG_USER_def POSIX_TAG_GROUP_OBJ_def
      POSIX_TAG_GROUP_def POSIX_TAG_MASK_def POSIX_TAG_OTHER_def POSIX_SPECIAL_ID_def)

text \<open>A blob and a directory target that are accepted, and what the theorem says of them.\<close>

theorem C8_witness:
  "validate_posix_blob ex_posix_access ''access'' = Inr ()
   \<and> posixacl_valid 3 (Fstat_mode 0x41ED) ex_posix_access (Some ex_posix_access) = Inr ()
   \<and> count_tag POSIX_TAG_USER_OBJ (posix_entries ex_posix_access) = 1
   \<and> count_tag POSIX_TAG_GROUP_OBJ (posix_entries ex_posix_access) = 1
   \<and> count_tag POSIX_TAG_OTHER (posix_entries ex_posix_access) = 1
   \<and> count_tag POSIX_TAG_MASK (posix_entries ex_posix_access) \<le> 1
   \<and> S_ISDIR 0x41ED"
proof -
  have v: "validate_posix_blob ex_posix_access ''access'' = Inr ()"
    by (rule ex_posix_access_valid)
  have d: "validate_posix_blob ex_posix_access ''default'' = Inr ()"
    using v by (simp add: validate_posix_blob_def ex_posix_access_def POSIX_HDR_SZ_def POSIX_ACE_SZ_def
      read_le32_def POSIX_ACL_VERSION_def Let_def upt_rec validate_posix_entry_def posix_slot_def
      read_le16_def POSIX_TAG_USER_OBJ_def POSIX_TAG_USER_def POSIX_TAG_GROUP_OBJ_def
      POSIX_TAG_GROUP_def POSIX_TAG_MASK_def POSIX_TAG_OTHER_def POSIX_SPECIAL_ID_def)
  have p: "posixacl_valid 3 (Fstat_mode 0x41ED) ex_posix_access (Some ex_posix_access) = Inr ()"
    by (simp add: posixacl_valid_def v d S_ISDIR_def)
  from C8_posix_validation [of ex_posix_access "''access''" 3 "Fstat_mode 0x41ED" ex_posix_access "Some ex_posix_access"]
  show ?thesis using v p by simp
qed

section \<open>File handles: the mount check before opening\<close>

lemma retry_eintr_shorter:
  assumes "retry_eintr p s = Some (x, rest)"
  shows "length rest < length s"
  using assms
  by (induction p s rule: retry_eintr.induct) (auto split: if_splits)

text \<open>
  Claim C9.  For an initialised handle, the first system call of \<open>open(mount_fd)\<close> is
  \<open>statx\<close> on \<open>mount_fd\<close>, with the unique mount-id mask when the handle carries a
  unique mount id and the legacy mask otherwise.  If that \<open>statx\<close> succeeds with an
  \<open>stx_mnt_id\<close> different from the recorded mount id, the call fails with
  \<open>ValueError\<close> and \<open>open_by_handle_at\<close> is never issued.  Conversely, whenever
  \<open>open_by_handle_at\<close> is issued, \<open>statx\<close> has answered before it with exactly the
  recorded mount id.
\<close>

theorem C9_open_checks_mount_id_first:
  "(mount_id self \<noteq> UINT64_MAX \<and> sx \<noteq> [] \<longrightarrow>
      hd (snd (py_fhandle_open self mount_fd flags sx so))
        = SYS_statx mount_fd (if unique_mount_id self then STATX_MNT_ID_UNIQUE else STATX_MNT_ID))
 \<and> (\<forall>stx_mnt_id rest.
        mount_id self \<noteq> UINT64_MAX
      \<and> retry_eintr statx_eintr sx = Some ((Statx_ok stx_mnt_id, False), rest)
      \<and> stx_mnt_id \<noteq> mount_id self \<longrightarrow>
        (\<exists>msg. fst (py_fhandle_open self mount_fd flags sx so) = Some (Inl (ValueError msg)))
      \<and> \<not> list_ex is_open_by_handle_at (snd (py_fhandle_open self mount_fd flags sx so)))
 \<and> (list_ex is_open_by_handle_at (snd (py_fhandle_open self mount_fd flags sx so)) \<longrightarrow>
        (\<exists>rest. retry_eintr statx_eintr sx = Some ((Statx_ok (mount_id self), False), rest))
      \<and> \<not> is_open_by_handle_at (hd (snd (py_fhandle_open self mount_fd flags sx so))))"
proof (intro conjI allI impI)
  assume a: "mount_id self \<noteq> UINT64_MAX \<and> sx \<noteq> []"
  then obtain r sg sx' where sx: "sx = (r, sg) # sx'" by (cases sx) auto
  have pos: "0 < length sx - length rest" if "retry_eintr statx_eintr sx = Some (x, rest)" for x rest
    using retry_eintr_shorter [OF that] by simp
  have h: "n > 0 \<Longrightarrow> hd (replicate n c @ t) = c" for n and c :: syscall and t
    by (cases n) auto
  show "hd (snd (py_fhandle_open self mount_fd flags sx so))
        = SYS_statx mount_fd (if unique_mount_id self then STATX_MNT_ID_UNIQUE else STATX_MNT_ID)"
  proof (cases "retry_eintr statx_eintr sx")
    case None
    then show ?thesis using a h [of "length sx" _ "[]"]
      by (simp add: py_fhandle_open_def Let_def)
  next
    case (Some y)
    then obtain r1 as1 rest where y: "retry_eintr statx_eintr sx = Some ((r1, as1), rest)"
      by (cases y) auto
    show ?thesis
      using a y pos [OF y] h [of "length sx - length rest"] h [of "length sx - length rest" _ "[]"]
      by (auto simp add: py_fhandle_open_def Let_def
          split: statx_reply.splits option.splits prod.splits open_reply.splits)
  qed
next
  fix stx_mnt_id rest
  assume a: "mount_id self \<noteq> UINT64_MAX
      \<and> retry_eintr statx_eintr sx = Some ((Statx_ok stx_mnt_id, False), rest)
      \<and> stx_mnt_id \<noteq> mount_id self"
  then show "\<exists>msg. fst (py_fhandle_open self mount_fd flags sx so) = Some (Inl (ValueError msg))"
    by (simp add: py_fhandle_open_def Let_def)
  show "\<not> list_ex is_open_by_handle_at (snd (py_fhandle_open self mount_fd flags sx so))"
    using a by (simp add: py_fhandle_open_def Let_def list_ex_iff is_open_by_handle_at_def)
next
  assume o: "list_ex is_open_by_handle_at (snd (py_fhandle_open self mount_fd flags sx so))"
  have nst: "\<not> list_ex is_open_by_handle_at (replicate n (SYS_statx fd m))" for n fd m
    by (simp add: list_ex_iff is_open_by_handle_at_def)
  from o have init: "mount_id self \<noteq> UINT64_MAX"
    by (auto simp: py_fhandle_open_def)
  from o init obtain r as1 rest where y: "retry_eintr statx_eintr sx = Some ((r, as1), rest)"
    by (cases "retry_eintr statx_eintr sx")
       (auto simp: py_fhandle_open_def Let_def list_ex_iff is_open_by_handle_at_def)
  from o init y obtain id where r: "r = Statx_ok id"
    by (cases r) (auto simp: py_fhandle_open_def Let_def list_ex_iff is_open_by_handle_at_def)
  from o init y r have id: "id = mount_id self"
    by (auto simp: py_fhandle_open_def Let_def list_ex_iff is_open_by_handle_at_def split: if_splits)
  have "as1 = False"
    using y r by (induction statx_eintr sx rule: retry_eintr.induct)
      (auto simp: statx_eintr_def split: if_splits)
  then show "\<exists>rest. retry_eintr statx_eintr sx = Some ((Statx_ok (mount_id self), False), rest)"
    using y r id by simp
  have pos: "0 < length sx - length rest"
    using retry_eintr_shorter [OF y] by simp
  have h: "n > 0 \<Longrightarrow> hd (replicate n c @ t) = c" for n and c :: syscall and t
    by (cases n) auto
  show "\<not> is_open_by_handle_at (hd (snd (py_fhandle_open self mount_fd flags sx so)))"
    using init y r id pos h [of "length sx - length rest"]
    by (auto simp add: py_fhandle_open_def Let_def is_open_by_handle_at_def
        split: option.splits prod.splits open_reply.splits)
qed

text \<open>A handle of mount 42 against an fd of mount 43, after one interrupted \<open>statx\<close>.\<close>

theorem C9_witness:
  "(\<exists>msg. fst (py_fhandle_open ex_fhandle 7 0 ex_statx_other_mount [(Open_fd 9, False)])
            = Some (Inl (ValueError msg)))
   \<and> \<not> list_ex is_open_by_handle_at
         (snd (py_fhandle_open ex_fhandle 7 0 ex_statx_other_mount [(Open_fd 9, False)]))
   \<and> hd (snd (py_fhandle_open ex_fhandle 7 0 ex_statx_other_mount [(Open_fd 9, False)]))
       = SYS_statx 7 STATX_MNT_ID_UNIQUE"
proof -
  have i: "mount_id ex_fhandle \<noteq> UINT64_MAX"
    by (simp add: ex_fhandle_def UINT64_MAX_def)
  have r: "retry_eintr statx_eintr ex_statx_other_mount = Some ((Statx_ok 43, False), [])"
    by (simp add: ex_statx_other_mount_def statx_eintr_def EINTR_def)
  have n: "(43 :: u64) \<noteq> mount_id ex_fhandle" "ex_statx_other_mount \<noteq> []" "unique_mount_id ex_fhandle"
    by (simp_all add: ex_fhandle_def ex_statx_other_mount_def)
  from C9_open_checks_mount_id_first [of ex_fhandle ex_statx_other_mount 7 0 "[(Open_fd 9, False)]"]
    i r n
  show ?thesis by simp
qed

end
